(* ===== verification/Prelude.thy ===== *)
theory Prelude
  imports Main "HOL-Library.AList" "HOL-Library.List_Lexorder" "HOL-Library.Char_ord"
begin

text \<open>
  What every other theory shares: Python exceptions as values, calls with effects as
  functions on an explicit world (\<open>action\<close>), dictionaries with insertion order as
  association lists, and the theorem collections used by the component proofs.

  \<^item> \<open>Exn t m\<close> is a raised exception of class name \<open>t\<close> with \<open>str(exc) = m\<close>.
  \<^item> An \<open>('w, 'a) action\<close> is an \<open>async\<close> call: it may change the world \<open>'w\<close> (audit
    store, registry RNG, remote models) and either raises (\<open>Inl\<close>) or returns (\<open>Inr\<close>).
    The effects of a call that raises are kept.
  \<^item> A Python \<open>dict\<close> is an association list with distinct keys: \<open>map_of\<close> is \<open>.get\<close>,
    \<open>AList.update\<close> is item assignment (an existing key keeps its place).
\<close>

named_theorems act_simps \<open>results of actions, for simp\<close>
named_theorems code_defs \<open>definitions of the model that proofs unfold\<close>
named_theorems inv_intros \<open>preservation lemmas of invariants\<close>

section \<open>Exceptions and actions\<close>

datatype exn = Exn (exn_type: string) (exn_msg: string)

type_synonym ('w, 'a) action = "'w \<Rightarrow> (exn + 'a) \<times> 'w"

definition ret :: "'a \<Rightarrow> ('w, 'a) action" where
  "ret x = (\<lambda>w. (Inr x, w))"

definition raise :: "exn \<Rightarrow> ('w, 'a) action" where
  "raise e = (\<lambda>w. (Inl e, w))"

definition abind :: "('w, 'a) action \<Rightarrow> ('a \<Rightarrow> ('w, 'b) action) \<Rightarrow> ('w, 'b) action" where
  "abind m f = (\<lambda>w. case m w of (Inl e, w') \<Rightarrow> (Inl e, w') | (Inr x, w') \<Rightarrow> f x w')"

text \<open>Lift a call that cannot raise, and a pure computation that may.\<close>

definition pure_st :: "('w \<Rightarrow> 'a \<times> 'w) \<Rightarrow> ('w, 'a) action" where
  "pure_st f = (\<lambda>w. case f w of (x, w') \<Rightarrow> (Inr x, w'))"

definition of_result :: "exn + 'a \<Rightarrow> ('w, 'a) action" where
  "of_result r = (\<lambda>w. (r, w))"

text \<open>A \<open>for\<close> loop whose body only has effects.\<close>

fun aforeach :: "('a \<Rightarrow> ('w, unit) action) \<Rightarrow> 'a list \<Rightarrow> ('w, unit) action" where
  "aforeach f [] = ret ()"
| "aforeach f (x # xs) = abind (f x) (\<lambda>_. aforeach f xs)"

lemma ret_eq [act_simps]: "ret x w = (r, w') \<longleftrightarrow> r = Inr x \<and> w' = w"
  by (auto simp: ret_def)

lemma raise_eq [act_simps]: "raise e w = (r, w') \<longleftrightarrow> r = Inl e \<and> w' = w"
  by (auto simp: raise_def)

lemma of_result_eq [act_simps]: "of_result r w = (r', w') \<longleftrightarrow> r = r' \<and> w' = w"
  by (auto simp: of_result_def)

lemma pure_st_eq [act_simps]:
  "pure_st f w = (r, w') \<longleftrightarrow> (\<exists>x. f w = (x, w') \<and> r = Inr x)"
  by (auto simp: pure_st_def split: prod.splits)

lemma abind_Inr [act_simps]:
  "abind m f w = (Inr y, w') \<longleftrightarrow> (\<exists>x w1. m w = (Inr x, w1) \<and> f x w1 = (Inr y, w'))"
  by (auto simp: abind_def split: prod.splits sum.splits)

lemma abind_Inl [act_simps]:
  "abind m f w = (Inl e, w') \<longleftrightarrow>
     m w = (Inl e, w') \<or> (\<exists>x w1. m w = (Inr x, w1) \<and> f x w1 = (Inl e, w'))"
  by (auto simp: abind_def split: prod.splits sum.splits)

text \<open>A case distinction between actions, when it has run.\<close>

lemma case_sum_run [act_simps]:
  "(case x of Inl a \<Rightarrow> f a | Inr b \<Rightarrow> g b) w = r \<longleftrightarrow>
     (\<exists>a. x = Inl a \<and> f a w = r) \<or> (\<exists>b. x = Inr b \<and> g b w = r)"
  by (cases x) simp_all

lemma case_prod_run [act_simps]: "(case x of (a, b) \<Rightarrow> f a b) w = r \<longleftrightarrow> (\<exists>a b. x = (a, b) \<and> f a b w = r)"
  by (cases x) simp

lemma case_option_run [act_simps]:
  "(case x of None \<Rightarrow> f | Some b \<Rightarrow> g b) w = r \<longleftrightarrow> (x = None \<and> f w = r) \<or> (\<exists>b. x = Some b \<and> g b w = r)"
  by (cases x) simp_all

lemma if_run [act_simps]: "(if c then f else g) w = r \<longleftrightarrow> (c \<and> f w = r) \<or> (\<not> c \<and> g w = r)"
  by simp

lemma abind_ret [simp]: "abind (ret x) f = f x"
  by (simp add: abind_def ret_def fun_eq_iff)

lemma abind_assoc: "abind (abind m f) g = abind m (\<lambda>x. abind (f x) g)"
  by (simp add: abind_def fun_eq_iff split: prod.splits sum.splits)

text \<open>An action that returns whatever the world is: the class of safe calls.\<close>

definition total_action :: "('w, 'a) action \<Rightarrow> bool" where
  "total_action m \<longleftrightarrow> (\<forall>w. \<exists>x w'. m w = (Inr x, w'))"

lemma total_actionD: "total_action m \<Longrightarrow> \<exists>x w'. m w = (Inr x, w')"
  by (simp add: total_action_def)

lemma total_ret [intro, simp]: "total_action (ret x)"
  by (simp add: total_action_def ret_def)

lemma total_pure_st [intro, simp]: "total_action (pure_st f)"
  by (simp add: total_action_def pure_st_def split: prod.splits)

lemma total_abind [intro]:
  assumes "total_action m" and "\<And>x. total_action (f x)"
  shows "total_action (abind m f)"
  unfolding total_action_def
proof
  fix w
  obtain x w1 where "m w = (Inr x, w1)" using total_actionD [OF assms(1)] by blast
  moreover obtain y w2 where "f x w1 = (Inr y, w2)" using total_actionD [OF assms(2)] by blast
  ultimately show "\<exists>x w'. abind m f w = (Inr x, w')" by (auto simp: abind_def)
qed

lemma total_aforeach [intro]: "(\<And>x. total_action (f x)) \<Longrightarrow> total_action (aforeach f xs)"
  by (induction xs) auto

lemma total_case_sum [intro]:
  "(\<And>a. total_action (f a)) \<Longrightarrow> (\<And>b. total_action (g b)) \<Longrightarrow>
     total_action (case x of Inl a \<Rightarrow> f a | Inr b \<Rightarrow> g b)"
  by (cases x) simp_all

lemma total_case_prod [intro]: "(\<And>a b. total_action (f a b)) \<Longrightarrow> total_action (case x of (a, b) \<Rightarrow> f a b)"
  by (cases x) simp

lemma total_let [intro]: "total_action (f x) \<Longrightarrow> total_action (let y = x in f y)"
  by simp

lemma total_of_result [intro, simp]: "total_action (of_result (Inr x))"
  by (simp add: total_action_def of_result_def)

lemma total_if [intro]: "total_action f \<Longrightarrow> total_action g \<Longrightarrow> total_action (if c then f else g)"
  by simp

lemma total_no_raise: "total_action m \<Longrightarrow> m w \<noteq> (Inl e, w')"
  by (metis Inl_Inr_False total_action_def prod.inject)

section \<open>Dictionaries in insertion order\<close>

type_synonym ('k, 'v) dict = "('k \<times> 'v) list"

abbreviation dict_get :: "('k, 'v) dict \<Rightarrow> 'k \<Rightarrow> 'v option" where
  "dict_get d k \<equiv> map_of d k"

abbreviation dict_set :: "'k \<Rightarrow> 'v \<Rightarrow> ('k, 'v) dict \<Rightarrow> ('k, 'v) dict" where
  "dict_set k v d \<equiv> AList.update k v d"

text \<open>\<open>{f(x): g(x) for x in xs}\<close>: later items overwrite earlier ones.\<close>

definition dict_of :: "('k \<times> 'v) list \<Rightarrow> ('k, 'v) dict" where
  "dict_of kvs = fold (\<lambda>(k, v) d. dict_set k v d) kvs []"

lemma dict_of_append: "dict_of (xs @ [(k, v)]) = dict_set k v (dict_of xs)"
  by (simp add: dict_of_def)

lemma dict_of_get: "dict_get (dict_of kvs) k = map_of (rev kvs) k"
proof (induction kvs rule: rev_induct)
  case Nil
  then show ?case by (simp add: dict_of_def)
next
  case (snoc x xs)
  then show ?case by (cases x) (simp add: dict_of_append update_conv)
qed

lemma distinct_dict_of: "distinct (map fst (dict_of kvs))"
proof (induction kvs rule: rev_induct)
  case Nil
  then show ?case by (simp add: dict_of_def)
next
  case (snoc x xs)
  then show ?case by (cases x) (simp add: dict_of_append distinct_update)
qed

text \<open>\<open>dict.fromkeys\<close> as an ordered set: the keys in order of first insertion.\<close>

definition add_key :: "'k \<Rightarrow> 'k list \<Rightarrow> 'k list" where
  "add_key k ks = (if k \<in> set ks then ks else ks @ [k])"

lemma set_add_key [simp]: "set (add_key k ks) = insert k (set ks)"
  by (auto simp: add_key_def)

lemma distinct_add_key [simp]: "distinct ks \<Longrightarrow> distinct (add_key k ks)"
  by (auto simp: add_key_def)

text \<open>\<open>sorted(set)\<close> of Python: duplicates dropped, ascending.\<close>

definition py_sorted_set :: "'a::linorder list \<Rightarrow> 'a list" where
  "py_sorted_set xs = sort (remdups xs)"

lemma set_py_sorted_set [simp]: "set (py_sorted_set xs) = set xs"
  by (simp add: py_sorted_set_def)

lemma py_sorted_set_Nil [simp]: "py_sorted_set [] = []"
  by (simp add: py_sorted_set_def)

lemma py_sorted_set_eq_Nil [simp]: "py_sorted_set xs = [] \<longleftrightarrow> xs = []"
  by (metis set_empty set_py_sorted_set)

lemma distinct_py_sorted_set [simp]: "distinct (py_sorted_set xs)"
  by (simp add: py_sorted_set_def)

lemma sorted_py_sorted_set [simp]: "sorted (py_sorted_set xs)"
  by (simp add: py_sorted_set_def)

lemma py_sorted_set_cong: "set xs = set ys \<Longrightarrow> py_sorted_set xs = py_sorted_set ys"
  by (simp add: py_sorted_set_def sorted_distinct_set_unique)

end
