(* ===== verification/PyString.thy ===== *)
theory PyString
  imports Prelude
begin

text \<open>
  The parts of Python's \<open>str\<close> the program uses: \<open>isspace\<close>, \<open>casefold\<close>, \<open>upper\<close>,
  \<open>split()\<close>, \<open>join\<close>, \<open>strip\<close>, \<open>in\<close>, \<open>repr\<close> and integer formatting. A \<open>char\<close> is a
  code point below 256 (Latin-1) and the tables below are Python's for these code points.
  Two code points leave the range when folded or upper-cased (the micro sign, and
  \<open>y\<close> with diaeresis in \<open>upper\<close>); the model keeps them, which is an injective renaming of
  the result and so changes no comparison between texts.
\<close>

section \<open>Characters\<close>

abbreviation code :: "char \<Rightarrow> nat" where
  "code c \<equiv> of_char c"

lemma code_less [simp]: "code c < 256"
  by (rule nat_of_char_less_256)

definition py_isspace :: "char \<Rightarrow> bool" where
  "py_isspace c = (let n = code c in
     (9 \<le> n \<and> n \<le> 13) \<or> (28 \<le> n \<and> n \<le> 32) \<or> n = 133 \<or> n = 160)"

definition casefold_char :: "char \<Rightarrow> string" where
  "casefold_char c = (let n = code c in
     if n = 223 then ''ss''
     else if (65 \<le> n \<and> n \<le> 90) \<or> (192 \<le> n \<and> n \<le> 222 \<and> n \<noteq> 215) then [char_of (n + 32)]
     else [c])"

definition upper_char :: "char \<Rightarrow> string" where
  "upper_char c = (let n = code c in
     if n = 223 then ''SS''
     else if (97 \<le> n \<and> n \<le> 122) \<or> (224 \<le> n \<and> n \<le> 254 \<and> n \<noteq> 247) then [char_of (n - 32)]
     else [c])"

definition isdecimal :: "char \<Rightarrow> bool" where
  "isdecimal c = (48 \<le> code c \<and> code c \<le> 57)"

text \<open>The same classes on the bits of a character: what is evaluated.\<close>

lemma upper_char_bits [code]:
  "upper_char (Char b0 b1 b2 b3 b4 b5 b6 b7) =
     (if \<not> b6 then [Char b0 b1 b2 b3 b4 b5 b6 b7]
      else if b5 \<and> (if b7 then \<not> (b4 \<and> b2 \<and> b1 \<and> b0) else (b0 \<or> b1 \<or> b2 \<or> b3 \<or> b4) \<and> \<not> (b4 \<and> b3 \<and> (b2 \<or> b1 \<and> b0)))
      then [Char b0 b1 b2 b3 b4 False b6 b7]
      else if b7 \<and> \<not> b5 \<and> b4 \<and> b3 \<and> b2 \<and> b1 \<and> b0 then ''SS''
      else [Char b0 b1 b2 b3 b4 b5 b6 b7])"
  by (cases b0; cases b1; cases b2; cases b3; cases b4; cases b5; cases b6; cases b7; simp add: upper_char_def char_of_def bit_0)

lemma casefold_char_bits [code]:
  "casefold_char (Char b0 b1 b2 b3 b4 b5 b6 b7) =
     (if \<not> b6 \<or> b5 then [Char b0 b1 b2 b3 b4 b5 b6 b7]
      else if b7 \<and> b4 \<and> b3 \<and> b2 \<and> b1 \<and> b0 then ''ss''
      else if (if b7 then \<not> (b4 \<and> b2 \<and> b1 \<and> b0) else (b0 \<or> b1 \<or> b2 \<or> b3 \<or> b4) \<and> \<not> (b4 \<and> b3 \<and> (b2 \<or> b1 \<and> b0)))
      then [Char b0 b1 b2 b3 b4 True b6 b7]
      else [Char b0 b1 b2 b3 b4 b5 b6 b7])"
  by (cases b0; cases b1; cases b2; cases b3; cases b4; cases b5; cases b6; cases b7; simp add: casefold_char_def char_of_def bit_0)

lemma py_isspace_bits [code]:
  "py_isspace (Char b0 b1 b2 b3 b4 b5 b6 b7) =
     (if b6 then False else if b7 then (if b5 then \<not> b4 \<and> \<not> b3 \<and> \<not> b2 \<and> \<not> b1 \<and> \<not> b0 else \<not> b4 \<and> \<not> b3 \<and> b2 \<and> \<not> b1 \<and> b0)
      else if b5 then \<not> b4 \<and> \<not> b3 \<and> \<not> b2 \<and> \<not> b1 \<and> \<not> b0
      else if b4 then b3 \<and> b2 else b3 \<and> (if b2 then \<not> b1 else b1 \<or> b0))"
  by (cases b0; cases b1; cases b2; cases b3; cases b4; cases b5; cases b6; cases b7; simp add: py_isspace_def)

lemma isdecimal_bits [code]:
  "isdecimal (Char b0 b1 b2 b3 b4 b5 b6 b7) = (\<not> b7 \<and> \<not> b6 \<and> b5 \<and> b4 \<and> (if b3 then \<not> b2 \<and> \<not> b1 else True))"
  by (cases b0; cases b1; cases b2; cases b3; cases b4; cases b5; cases b6; cases b7; simp add: isdecimal_def)


lemma code_char_of: "n < 256 \<Longrightarrow> code (char_of n) = n"
  by simp

lemma code_eq_iff: "code c = code d \<longleftrightarrow> c = d"
  by simp

lemma casefold_char_not_Nil [simp]: "casefold_char c \<noteq> []"
  by (simp add: casefold_char_def Let_def)

text \<open>Folding never makes or removes white space, and folding twice changes nothing more.\<close>

lemma isspace_casefold_char: "d \<in> set (casefold_char c) \<Longrightarrow> py_isspace d = py_isspace c"
  by (auto simp: casefold_char_def py_isspace_def Let_def split: if_splits)

lemma casefold_char_idem:
  "d \<in> set (casefold_char c) \<Longrightarrow> casefold_char d = [d]"
  by (auto simp: casefold_char_def Let_def split: if_splits)

lemma casefold_char_space: "py_isspace c \<Longrightarrow> casefold_char c = [c]"
  by (auto simp: casefold_char_def py_isspace_def Let_def)

section \<open>Texts\<close>

definition py_casefold :: "string \<Rightarrow> string" where
  "py_casefold s = concat (map casefold_char s)"

definition py_upper :: "string \<Rightarrow> string" where
  "py_upper s = concat (map upper_char s)"

lemma py_casefold_append [simp]: "py_casefold (s @ t) = py_casefold s @ py_casefold t"
  by (simp add: py_casefold_def)

lemma py_casefold_Nil [simp]: "py_casefold [] = []"
  by (simp add: py_casefold_def)

lemma py_casefold_Cons: "py_casefold (c # s) = casefold_char c @ py_casefold s"
  by (simp add: py_casefold_def)

lemma py_casefold_fix: "(\<And>c. c \<in> set s \<Longrightarrow> casefold_char c = [c]) \<Longrightarrow> py_casefold s = s"
  by (induction s) (auto simp: py_casefold_def)

lemma py_casefold_idem [simp]: "py_casefold (py_casefold s) = py_casefold s"
proof (rule py_casefold_fix)
  fix c assume "c \<in> set (py_casefold s)"
  then show "casefold_char c = [c]" by (auto simp: py_casefold_def intro: casefold_char_idem)
qed

definition starts_with :: "string \<Rightarrow> string \<Rightarrow> bool" where
  "starts_with p s = (take (length p) s = p)"

lemma starts_with_code [code]:
  "starts_with [] t = True" "starts_with (c # s) [] = False"
  "starts_with (c # s) (x # t) = (if x = c then starts_with s t else False)"
  by (auto simp: starts_with_def)

lemma starts_with_iff: "starts_with p s \<longleftrightarrow> (\<exists>r. s = p @ r)"
  unfolding starts_with_def by (metis append_eq_conv_conj append_take_drop_id)

text \<open>\<open>needle in haystack\<close>\<close>

fun py_in :: "string \<Rightarrow> string \<Rightarrow> bool" where
  "py_in n [] = (n = [])"
| "py_in n (c # cs) = (starts_with n (c # cs) \<or> py_in n cs)"

lemma py_in_code [code]:
  "py_in [] t = True" "py_in (c # n) [] = False"
  "py_in (c # n) (x # t) = (if x = c then if starts_with n t then True else py_in (c # n) t else py_in (c # n) t)"
  by (cases t) (auto simp: starts_with_def)

lemma py_in_iff: "py_in n h \<longleftrightarrow> (\<exists>p q. h = p @ n @ q)"
proof (induction n h rule: py_in.induct)
  case (1 n)
  then show ?case by auto
next
  case (2 n c cs)
  then show ?case
    by (auto simp: starts_with_iff Cons_eq_append_conv)
qed

lemma py_in_refl [simp]: "py_in s s"
  unfolding py_in_iff by (metis append_Nil append_Nil2)

lemma py_in_length: "py_in n h \<Longrightarrow> length n \<le> length h"
  by (auto simp: py_in_iff)

text \<open>\<open>s.split()\<close>: the maximal runs of characters that are not white space.\<close>

function py_split :: "string \<Rightarrow> string list" where
  "py_split s = (case dropWhile py_isspace s of
       [] \<Rightarrow> []
     | c # cs \<Rightarrow> (c # takeWhile (\<lambda>d. \<not> py_isspace d) cs)
                  # py_split (dropWhile (\<lambda>d. \<not> py_isspace d) cs))"
  by pat_completeness auto
termination
proof (relation "measure length", goal_cases)
  case 1
  show ?case by simp
next
  case (2 s c cs)
  have "length (dropWhile (\<lambda>d. \<not> py_isspace d) cs) \<le> length cs"
    by (rule length_dropWhile_le)
  moreover have "length (c # cs) \<le> length s"
    using length_dropWhile_le [of py_isspace s] 2 by simp
  ultimately show ?case by simp
qed

declare py_split.simps [simp del]

definition word :: "string \<Rightarrow> bool" where
  "word w \<longleftrightarrow> w \<noteq> [] \<and> (\<forall>c \<in> set w. \<not> py_isspace c)"

lemma py_split_blank:
  assumes "dropWhile py_isspace s = []"
  shows "py_split s = []"
  unfolding py_split.simps [of s] assms by simp

lemma py_split_next:
  "dropWhile py_isspace s = c # cs \<Longrightarrow>
     py_split s = (c # takeWhile (\<lambda>d. \<not> py_isspace d) cs)
                  # py_split (dropWhile (\<lambda>d. \<not> py_isspace d) cs)"
  by (subst py_split.simps) simp

lemma py_split_Nil [simp]: "py_split [] = []"
  by (simp add: py_split_blank)

lemma dropWhile_ConsD: "dropWhile P s = c # cs \<Longrightarrow> \<not> P c \<and> set (c # cs) \<subseteq> set s"
  by (metis hd_dropWhile list.discI list.sel(1) set_dropWhileD subsetI)

lemma py_split_chars: "w \<in> set (py_split s) \<Longrightarrow> set w \<subseteq> set s"
proof (induction s rule: py_split.induct)
  case (1 s)
  show ?case
  proof (cases "dropWhile py_isspace s")
    case Nil
    with "1.prems" show ?thesis by (simp add: py_split_blank)
  next
    case (Cons c cs)
    from dropWhile_ConsD [OF Cons] have sub: "set (c # cs) \<subseteq> set s" by simp
    from "1.prems" consider "w = c # takeWhile (\<lambda>d. \<not> py_isspace d) cs"
      | "w \<in> set (py_split (dropWhile (\<lambda>d. \<not> py_isspace d) cs))"
      by (auto simp: py_split_next [OF Cons])
    then show ?thesis
    proof cases
      case 1
      with sub show ?thesis by (auto dest: set_takeWhileD)
    next
      case 2
      with "1.IH" [OF Cons] sub show ?thesis by (auto dest: set_dropWhileD)
    qed
  qed
qed

lemma py_split_space: "py_isspace c \<Longrightarrow> py_split (c # s) = py_split s"
  by (simp add: py_split.simps [of "c # s"] py_split.simps [of s])

lemma takeWhile_word: "\<forall>d \<in> set w. P d \<Longrightarrow> takeWhile P (w @ s) = w @ takeWhile P s"
  by (induction w) auto

lemma dropWhile_word: "\<forall>d \<in> set w. P d \<Longrightarrow> dropWhile P (w @ s) = dropWhile P s"
  by (induction w) auto

lemma py_split_word:
  assumes "word w" and "s = [] \<or> py_isspace (hd s)"
  shows "py_split (w @ s) = w # py_split s"
proof -
  obtain c cs where w: "w = c # cs" "\<not> py_isspace c" "\<forall>d \<in> set cs. \<not> py_isspace d"
    using assms(1) by (cases w) (auto simp: word_def)
  have "takeWhile (\<lambda>d. \<not> py_isspace d) s = []" "dropWhile (\<lambda>d. \<not> py_isspace d) s = s"
    using assms(2) by (cases s; simp)+
  then have tw: "takeWhile (\<lambda>d. \<not> py_isspace d) (cs @ s) = cs"
    and dw: "dropWhile (\<lambda>d. \<not> py_isspace d) (cs @ s) = s"
    using w(3) by (simp_all add: takeWhile_word dropWhile_word)
  have "dropWhile py_isspace (w @ s) = c # (cs @ s)" using w by simp
  from py_split_next [OF this] show ?thesis unfolding tw dw w(1) .
qed

lemma py_split_words: "\<forall>w \<in> set (py_split s). word w"
proof (induction s rule: py_split.induct)
  case (1 s)
  show ?case
  proof (cases "dropWhile py_isspace s")
    case Nil
    then show ?thesis by (simp add: py_split_blank)
  next
    case (Cons c cs)
    from dropWhile_ConsD [OF Cons] have "\<not> py_isspace c" by simp
    moreover have "\<forall>d \<in> set (takeWhile (\<lambda>d. \<not> py_isspace d) cs). \<not> py_isspace d"
      by (auto dest: set_takeWhileD)
    ultimately have "word (c # takeWhile (\<lambda>d. \<not> py_isspace d) cs)"
      unfolding word_def by (metis list.discI set_ConsD)
    with "1.IH" [OF Cons] show ?thesis unfolding py_split_next [OF Cons] by (metis set_ConsD)
  qed
qed

text \<open>\<open>sep.join(parts)\<close>\<close>

fun py_join :: "string \<Rightarrow> string list \<Rightarrow> string" where
  "py_join sep [] = []"
| "py_join sep [x] = x"
| "py_join sep (x # y # ys) = x @ sep @ py_join sep (y # ys)"

lemma split_join: "\<forall>w \<in> set ws. word w \<Longrightarrow> py_split (py_join '' '' ws) = ws"
proof (induction "'' ''" ws rule: py_join.induct)
  case 1
  then show ?case by simp
next
  case (2 x)
  then show ?case using py_split_word [of x "[]"] by simp
next
  case (3 x y ys)
  have sp: "py_isspace (CHR '' '')" by (simp add: py_isspace_def)
  have "py_split (x @ CHR '' '' # py_join '' '' (y # ys))
      = x # py_split (CHR '' '' # py_join '' '' (y # ys))"
    using "3.prems" sp by (intro py_split_word) auto
  with "3" sp show ?case by (simp add: py_split_space)
qed

text \<open>\<open>s.strip()\<close>\<close>

definition py_strip :: "string \<Rightarrow> string" where
  "py_strip s = rev (dropWhile py_isspace (rev (dropWhile py_isspace s)))"

lemma py_strip_Nil [simp]: "py_strip [] = []"
  by (simp add: py_strip_def)

lemma py_strip_id:
  assumes "s \<noteq> []" "\<not> py_isspace (hd s)" "\<not> py_isspace (last s)"
  shows "py_strip s = s"
proof -
  have "dropWhile py_isspace s = s" using assms by (cases s) auto
  moreover have "dropWhile py_isspace (rev s) = rev s"
    using assms by (cases "rev s") (auto simp: last_rev [symmetric] dest: arg_cong [where f = hd])
  ultimately show ?thesis by (simp add: py_strip_def)
qed

section \<open>Formatting\<close>

fun nat_str :: "nat \<Rightarrow> string" where
  "nat_str n = (if n < 10 then [char_of (48 + n)] else nat_str (n div 10) @ [char_of (48 + n mod 10)])"

declare nat_str.simps [simp del]

definition int_str :: "int \<Rightarrow> string" where
  "int_str i = (if i < 0 then ''-'' @ nat_str (nat (- i)) else nat_str (nat i))"

text \<open>\<open>f'{n:0wd}'\<close>: at least \<open>w\<close> digits.\<close>

definition zero_pad :: "nat \<Rightarrow> string \<Rightarrow> string" where
  "zero_pad w s = replicate (w - length s) (CHR ''0'') @ s"

definition hex_digit :: "nat \<Rightarrow> char" where
  "hex_digit n = (if n < 10 then char_of (48 + n) else char_of (87 + n))"

text \<open>
  \<open>repr(s)\<close>: single quotes unless the text has a single and no double quote; backslash,
  the quote, tab, newline, carriage return and what is not printable are escaped.
\<close>

definition py_printable :: "char \<Rightarrow> bool" where
  "py_printable c = (let n = code c in (32 \<le> n \<and> n < 127) \<or> (160 < n \<and> n \<noteq> 173))"

definition repr_char :: "char \<Rightarrow> char \<Rightarrow> string" where
  "repr_char q c = (let n = code c in
     if c = q \<or> n = 92 then [char_of (92::nat), c]
     else if n = 9 then [char_of (92::nat), CHR ''t'']
     else if n = 10 then [char_of (92::nat), CHR ''n'']
     else if n = 13 then [char_of (92::nat), CHR ''r'']
     else if py_printable c then [c]
     else [char_of (92::nat), CHR ''x'', hex_digit (n div 16), hex_digit (n mod 16)])"

definition py_repr :: "string \<Rightarrow> string" where
  "py_repr s = (let sq = char_of (39::nat); dq = char_of (34::nat);
                    q = (if sq \<in> set s \<and> dq \<notin> set s then dq else sq)
                in [q] @ concat (map (repr_char q) s) @ [q])"

text \<open>\<open>s.partition(c)\<close>: what is before and what is after the first \<open>c\<close>.\<close>

definition py_partition :: "char \<Rightarrow> string \<Rightarrow> string \<times> string" where
  "py_partition c s = (takeWhile (\<lambda>d. d \<noteq> c) s, tl (dropWhile (\<lambda>d. d \<noteq> c) s))"

section \<open>Normalised texts\<close>

text \<open>
  \<open>' '.join(value.casefold().split())\<close>, which the validation rules, the registries, the
  grounding check and the evaluation harness all use.
\<close>

definition collapse :: "string \<Rightarrow> string" where
  "collapse s = py_join '' '' (py_split s)"

lemma split_collapse [simp]: "py_split (collapse s) = py_split s"
  unfolding collapse_def by (rule split_join) (rule py_split_words)

lemma casefold_word: "word w \<Longrightarrow> word (py_casefold w)"
  by (cases w) (auto simp: word_def py_casefold_def isspace_casefold_char)

lemma casefold_join: "py_casefold (py_join '' '' ws) = py_join '' '' (map py_casefold ws)"
  by (induction "'' ''" ws rule: py_join.induct)
    (auto simp: py_casefold_Cons casefold_char_def Let_def)

lemma casefold_collapse_fold: "py_casefold (collapse (py_casefold s)) = collapse (py_casefold s)"
proof -
  have folded: "casefold_char c = [c]" if "c \<in> set (py_casefold s)" for c
    using that by (auto simp: py_casefold_def intro: casefold_char_idem)
  have "py_casefold w = w" if "w \<in> set (py_split (py_casefold s))" for w
    using py_split_chars [OF that] folded by (auto intro!: py_casefold_fix)
  then show ?thesis by (simp add: collapse_def casefold_join map_idI)
qed

end
