(* ===== verification/PyRegex.thy ===== *)
theory PyRegex
  imports PyString
begin

text \<open>
  The part of Python's \<open>re\<close> that \<open>llm/fake.py\<close> uses, as a backtracking matcher on patterns
  whose repetitions are over single characters: greedy and lazy runs, named groups, and the
  line anchors of \<open>MULTILINE\<close>. A position is the text ahead and whether a line starts there.
\<close>

datatype atom =
    Ch "char \<Rightarrow> bool"          \<comment> \<open>one character of a class\<close>
  | Many nat "char \<Rightarrow> bool"    \<comment> \<open>greedy run of at least so many\<close>
  | Lazy nat "char \<Rightarrow> bool"    \<comment> \<open>lazy run of at least so many\<close>
  | Open string                    \<comment> \<open>start of a group\<close>
  | Close string                   \<comment> \<open>end of a group\<close>
  | Bol                            \<comment> \<open>start of a line\<close>
  | Eol                            \<comment> \<open>end of a line\<close>

definition newline :: char where
  "newline = char_of (10::nat)"

type_synonym captures = "(string \<times> string) list"

text \<open>\<open>Open g\<close> records the text ahead, \<open>Close g\<close> cuts it at the text then ahead.\<close>

definition close_group :: "string \<Rightarrow> string \<Rightarrow> captures \<Rightarrow> captures" where
  "close_group g s c = (case map_of c g of
     None \<Rightarrow> c | Some r \<Rightarrow> (g, take (length r - length s) r) # c)"

fun rmatch :: "atom list \<Rightarrow> bool \<Rightarrow> string \<Rightarrow> captures \<Rightarrow> (captures \<times> bool \<times> string) option" where
  "rmatch [] b s c = Some (c, b, s)"
| "rmatch (Ch p # as) b [] c = None"
| "rmatch (Ch p # as) b (x # xs) c = (if p x then rmatch as (x = newline) xs c else None)"
| "rmatch (Many n p # as) b [] c = (if n = 0 then rmatch as b [] c else None)"
| "rmatch (Many n p # as) b (x # xs) c =
     (case (if p x then rmatch (Many (n - 1) p # as) (x = newline) xs c else None) of
        Some r \<Rightarrow> Some r
      | None \<Rightarrow> if n = 0 then rmatch as b (x # xs) c else None)"
| "rmatch (Lazy n p # as) b [] c = (if n = 0 then rmatch as b [] c else None)"
| "rmatch (Lazy n p # as) b (x # xs) c =
     (case (if n = 0 then rmatch as b (x # xs) c else None) of
        Some r \<Rightarrow> Some r
      | None \<Rightarrow> if p x then rmatch (Lazy (n - 1) p # as) (x = newline) xs c else None)"
| "rmatch (Open g # as) b s c = rmatch as b s ((g, s) # c)"
| "rmatch (Close g # as) b s c = rmatch as b s (close_group g s c)"
| "rmatch (Bol # as) b s c = (if b then rmatch as b s c else None)"
| "rmatch (Eol # as) b s c = (if s = [] \<or> hd s = newline then rmatch as b s c else None)"

text \<open>\<open>m.group(g)\<close> of a match.\<close>

definition group :: "string \<Rightarrow> captures \<Rightarrow> string" where
  "group g c = (case map_of c g of None \<Rightarrow> [] | Some v \<Rightarrow> v)"

text \<open>\<open>re.search\<close>: the first position that matches, with the text skipped before it.\<close>

fun rsearch ::
  "atom list \<Rightarrow> bool \<Rightarrow> string \<Rightarrow> (string \<times> captures \<times> bool \<times> string) option" where
  "rsearch as b s =
     (case rmatch as b s [] of
        Some (c, b', s') \<Rightarrow> Some ([], c, b', s')
      | None \<Rightarrow> (case s of
          [] \<Rightarrow> None
        | x # xs \<Rightarrow> (case rsearch as (x = newline) xs of
            None \<Rightarrow> None
          | Some (skipped, r) \<Rightarrow> Some (x # skipped, r))))"

declare rsearch.simps [simp del]

text \<open>\<open>re.finditer\<close> and \<open>re.sub\<close>, for patterns that never match the empty string.\<close>

function finditer :: "atom list \<Rightarrow> bool \<Rightarrow> string \<Rightarrow> captures list" where
  "finditer as b s =
     (case rsearch as b s of
        None \<Rightarrow> []
      | Some (skipped, c, b', s') \<Rightarrow> if length s' < length s then c # finditer as b' s' else [])"
  by pat_completeness auto

termination by (relation "measure (\<lambda>(as, b, s). length s)") auto

declare finditer.simps [simp del]

function rsub :: "atom list \<Rightarrow> string \<Rightarrow> bool \<Rightarrow> string \<Rightarrow> string" where
  "rsub as r b s =
     (case rsearch as b s of
        None \<Rightarrow> s
      | Some (skipped, c, b', s') \<Rightarrow>
          if length s' < length s then skipped @ r @ rsub as r b' s' else s)"
  by pat_completeness auto

termination by (relation "measure (\<lambda>(as, r, b, s). length s)") auto

declare rsub.simps [simp del]

text \<open>\<open>re.fullmatch\<close>, for patterns of fixed length: the match must use all the text.\<close>

definition rfull :: "atom list \<Rightarrow> string \<Rightarrow> captures option" where
  "rfull as s = (case rmatch as True s [] of Some (c, b, []) \<Rightarrow> Some c | _ \<Rightarrow> None)"

section \<open>Character classes\<close>

definition lit :: "char \<Rightarrow> char \<Rightarrow> bool" where
  "lit c = (\<lambda>x. x = c)"

definition ascii_lower :: "char \<Rightarrow> char" where
  "ascii_lower c = (let n = code c in if 65 \<le> n \<and> n \<le> 90 then char_of (n + 32) else c)"

lemma ascii_lower_bits [code]:
  "ascii_lower (Char b0 b1 b2 b3 b4 b5 b6 b7) =
     (if \<not> b7 \<and> b6 \<and> \<not> b5 \<and> (b0 \<or> b1 \<or> b2 \<or> b3 \<or> b4) \<and> \<not> (b4 \<and> b3 \<and> (b2 \<or> b1 \<and> b0))
      then Char b0 b1 b2 b3 b4 True b6 b7 else Char b0 b1 b2 b3 b4 b5 b6 b7)"
  by (cases b0; cases b1; cases b2; cases b3; cases b4; cases b5; cases b6; cases b7; simp add: ascii_lower_def char_of_def bit_0)

text \<open>A literal letter under \<open>IGNORECASE\<close>.\<close>

definition lit_ci :: "char \<Rightarrow> char \<Rightarrow> bool" where
  "lit_ci c = (\<lambda>x. ascii_lower x = ascii_lower c)"

definition lits :: "string \<Rightarrow> atom list" where
  "lits s = map (\<lambda>c. Ch (lit c)) s"

definition lits_ci :: "string \<Rightarrow> atom list" where
  "lits_ci s = map (\<lambda>c. Ch (lit_ci c)) s"

definition dot :: "char \<Rightarrow> bool" where
  "dot x \<longleftrightarrow> x \<noteq> newline"

section \<open>Matches are pieces of the text\<close>

text \<open>The text ahead after a match is a suffix of the text before it.\<close>

definition suffix_of :: "string \<Rightarrow> string \<Rightarrow> bool" where
  "suffix_of s t \<longleftrightarrow> (\<exists>p. t = p @ s)"

lemma suffix_of_refl [simp]: "suffix_of s s"
  by (simp add: suffix_of_def)

lemma suffix_of_Cons: "suffix_of s t \<Longrightarrow> suffix_of s (x # t)"
  by (auto simp: suffix_of_def)

lemma suffix_of_trans: "suffix_of s t \<Longrightarrow> suffix_of t u \<Longrightarrow> suffix_of s u"
  by (auto simp: suffix_of_def)

lemma suffix_of_length: "suffix_of s t \<Longrightarrow> length s \<le> length t"
  by (auto simp: suffix_of_def)

lemma rmatch_suffix: "rmatch as b s c = Some (c', b', s') \<Longrightarrow> suffix_of s' s"
  by (induction as b s c rule: rmatch.induct)
    (auto split: if_splits option.splits intro: suffix_of_Cons)

lemma rsearch_suffix: "rsearch as b s = Some (k, c, b', s') \<Longrightarrow> suffix_of s' s"
proof (induction s arbitrary: b k)
  case Nil
  then show ?case by (auto simp: rsearch.simps [of as b "[]"] split: option.splits dest: rmatch_suffix)
next
  case (Cons x s)
  then show ?case
    by (auto simp: rsearch.simps [of as b "x # s"] split: option.splits
        dest: rmatch_suffix intro: suffix_of_Cons)
qed

text \<open>
  A capture is an infix of the text, and holds only characters of its class when the group is a
  single run.
\<close>

definition infix_of :: "string \<Rightarrow> string \<Rightarrow> bool" where
  "infix_of v t \<longleftrightarrow> (\<exists>p q. t = p @ v @ q)"

definition caps_in :: "string \<Rightarrow> captures \<Rightarrow> bool" where
  "caps_in t c \<longleftrightarrow> (\<forall>(g, v) \<in> set c. infix_of v t)"

lemma suffix_infix: "suffix_of s t \<Longrightarrow> infix_of s t"
  by (auto simp: suffix_of_def infix_of_def) (metis append_Nil2)

lemma infix_take: "infix_of v t \<Longrightarrow> infix_of (take n v) t"
  by (auto simp: infix_of_def) (metis append_assoc append_take_drop_id)

lemma caps_in_close: "caps_in t c \<Longrightarrow> caps_in t (close_group g s c)"
  by (auto simp: caps_in_def close_group_def split: option.splits
      intro!: infix_take dest!: map_of_SomeD)

lemma rmatch_caps:
  "rmatch as b s c = Some (c', b', s') \<Longrightarrow> suffix_of s t \<Longrightarrow> caps_in t c \<Longrightarrow> caps_in t c'"
proof (induction as b s c rule: rmatch.induct)
  case (8 g as b s c)
  then show ?case using suffix_infix by (auto simp: caps_in_def)
next
  case (9 g as b s c)
  then show ?case using caps_in_close by simp
qed (auto split: if_splits option.splits simp: suffix_of_def)

lemma rsearch_caps: "rsearch as b s = Some (k, c, b', s') \<Longrightarrow> suffix_of s t \<Longrightarrow> caps_in t c"
proof (induction s arbitrary: b k)
  case Nil
  then show ?case
    by (auto simp: rsearch.simps [of as b "[]"] split: option.splits dest!: rmatch_caps)
      (simp add: caps_in_def)
next
  case (Cons x s)
  show ?case
  proof (cases "rmatch as b (x # s) []")
    case None
    then obtain k' where "rsearch as (x = newline) s = Some (k', c, b', s')"
      using Cons.prems(1) by (auto simp: rsearch.simps [of as b "x # s"] split: option.splits)
    moreover have "suffix_of s t" using Cons.prems(2) by (auto simp: suffix_of_def)
    ultimately show ?thesis using Cons.IH by blast
  next
    case (Some r)
    then have "rmatch as b (x # s) [] = Some (c, b', s')"
      using Cons.prems(1) by (auto simp: rsearch.simps [of as b "x # s"])
    then show ?thesis using rmatch_caps Cons.prems(2) by (fastforce simp: caps_in_def)
  qed
qed

lemma group_infix: "caps_in t c \<Longrightarrow> infix_of (group g c) t"
  by (auto simp: group_def caps_in_def infix_of_def split: option.splits dest!: map_of_SomeD)

lemma finditer_caps: "c \<in> set (finditer as b s) \<Longrightarrow> suffix_of s t \<Longrightarrow> caps_in t c"
proof (induction as b s rule: finditer.induct)
  case (1 as b s)
  obtain k c0 b' s' where r: "rsearch as b s = Some (k, c0, b', s')" "length s' < length s"
    "c = c0 \<or> c \<in> set (finditer as b' s')"
    using "1.prems"(1)
    by (cases "rsearch as b s") (auto simp: finditer.simps [of as b s] split: if_splits)
  have "suffix_of s' t" using rsearch_suffix [OF r(1)] "1.prems"(2) suffix_of_trans by blast
  then show ?case using r "1.IH" [OF r(1) refl refl refl r(2)] rsearch_caps [OF r(1) "1.prems"(2)] by blast
qed

end
