(* ===== verification/PyFloat.thy ===== *)
theory PyFloat
  imports Complex_Main "HOL-Library.Log_Nat" PyString
begin

text \<open>
  Python floats. A finite double is the rational it denotes; \<open>fl\<close> rounds a rational to
  the nearest double, ties to even, with 53 significant bits and the subnormal
  granularity \<open>2\<^sup>-\<^sup>1\<^sup>0\<^sup>7\<^sup>4\<close>, so \<open>fl (a + b)\<close> is the program's \<open>a + b\<close>. Overflow to
  infinity is outside the model: the program's floats are ratios, confidences and
  parsed percentages. \<open>py_round4\<close> is \<open>round(x, 4)\<close>, \<open>fmt_fixed d\<close> the \<open>.df\<close> format.
\<close>

section \<open>Rounding to an integer\<close>

definition rhe :: "rat \<Rightarrow> int" where
  "rhe x = (let f = \<lfloor>x\<rfloor>; d = x - of_int f
            in if d < 1 / 2 then f else if 1 / 2 < d then f + 1 else if even f then f else f + 1)"

lemma rhe_of_int [simp]: "rhe (of_int i) = i"
  by (simp add: rhe_def)

lemma rhe_bounds: "\<lfloor>x\<rfloor> \<le> rhe x" "rhe x \<le> \<lfloor>x\<rfloor> + 1"
  by (simp_all add: rhe_def Let_def)

lemma rhe_mono: "x \<le> y \<Longrightarrow> rhe x \<le> rhe y"
proof -
  assume le: "x \<le> y"
  show ?thesis
  proof (cases "\<lfloor>x\<rfloor> = \<lfloor>y\<rfloor>")
    case True
    with le show ?thesis by (auto simp: rhe_def Let_def)
  next
    case False
    with le have "\<lfloor>x\<rfloor> + 1 \<le> \<lfloor>y\<rfloor>" using floor_mono [OF le] by linarith
    then show ?thesis using rhe_bounds [of x] rhe_bounds [of y] by linarith
  qed
qed

lemma rhe_le_int: "x \<le> of_int i \<Longrightarrow> rhe x \<le> i"
  using rhe_mono [of x "of_int i"] by simp

lemma rhe_ge_int: "of_int i \<le> x \<Longrightarrow> i \<le> rhe x"
  using rhe_mono [of "of_int i" x] by simp

lemma rhe_evalI: "of_int k - 1 / 2 < x \<Longrightarrow> x < of_int k + 1 / 2 \<Longrightarrow> rhe x = k"
proof -
  assume b: "of_int k - 1 / 2 < x" "x < of_int k + 1 / 2"
  then consider "\<lfloor>x\<rfloor> = k" | "\<lfloor>x\<rfloor> = k - 1" by linarith
  then show ?thesis using b by cases (auto simp: rhe_def Let_def)
qed

section \<open>Binary exponents\<close>

definition pow2 :: "int \<Rightarrow> rat" where
  "pow2 e = (if 0 \<le> e then 2 ^ nat e else 1 / 2 ^ nat (- e))"

lemma pow2_pos [simp]: "0 < pow2 e"
  by (simp add: pow2_def)

lemma pow2_nonzero [simp]: "pow2 e \<noteq> 0"
  using pow2_pos [of e] by linarith

lemma pow2_powi: "pow2 e = 2 powi e"
  by (simp add: pow2_def power_int_def inverse_eq_divide power_one_over)

lemma pow2_add: "pow2 (a + b) = pow2 a * pow2 b"
  by (simp add: pow2_powi power_int_add)

lemma pow2_nonneg [simp]: "0 \<le> pow2 e"
  using pow2_pos [of e] by linarith

lemma pow2_less [simp]: "pow2 a < pow2 b \<longleftrightarrow> a < b"
proof -
  have "pow2 a < pow2 b" if "a < b" for a b
    unfolding pow2_powi using that by (intro power_int_strict_increasing) auto
  then show ?thesis by (metis linorder_neq_iff order_less_asym)
qed

lemma pow2_le [simp]: "pow2 a \<le> pow2 b \<longleftrightarrow> a \<le> b"
  by (meson linorder_not_less pow2_less)

lemma pow2_scale_mono: "x \<le> y \<Longrightarrow> x / pow2 p \<le> y / pow2 p"
  by (rule divide_right_mono) simp_all

lemma pow2_div: "pow2 a / pow2 b = pow2 (a - b)"
  by (simp add: pow2_powi power_int_diff)

lemma pow2_int: "0 \<le> e \<Longrightarrow> pow2 e = of_int (2 ^ nat e)"
  by (simp add: pow2_def)

text \<open>The exponent of the leading bit of a positive rational.\<close>

definition expo :: "rat \<Rightarrow> int" where
  "expo x = (case quotient_of x of (n, d) \<Rightarrow>
     let e = int (floorlog 2 (nat n)) - int (floorlog 2 (nat d))
     in if pow2 e \<le> x then e else e - 1)"

lemma floorlog2_bounds:
  assumes "0 < n"
  shows "pow2 (int (floorlog 2 (nat n)) - 1) \<le> of_int n" "of_int n < pow2 (int (floorlog 2 (nat n)))"
proof -
  let ?k = "floorlog 2 (nat n)"
  have b: "nat n < 2 ^ ?k" "2 ^ (?k - 1) \<le> nat n"
    using floorlog_bounds [of "nat n" 2] assms by auto
  have k: "0 < ?k" using assms by (simp add: floorlog_def)
  from b(1) have "n < 2 ^ ?k" using assms by (simp add: nat_less_iff)
  then have "(of_int n :: rat) < of_int (2 ^ ?k)" by (simp only: of_int_less_iff)
  then show "of_int n < pow2 (int ?k)" by (simp add: pow2_def)
  from b(2) have "(2 ^ (?k - 1) :: int) \<le> n" using assms by (simp add: le_nat_iff)
  then have "(of_int (2 ^ (?k - 1)) :: rat) \<le> of_int n" by (simp only: of_int_le_iff)
  then show "pow2 (int ?k - 1) \<le> of_int n" using k by (simp add: pow2_def nat_diff_distrib)
qed

lemma expo_bounds:
  assumes "0 < x"
  shows "pow2 (expo x) \<le> x" "x < pow2 (expo x + 1)"
proof -
  obtain n d where q: "quotient_of x = (n, d)" by (cases "quotient_of x")
  then have d: "0 < d" by (rule quotient_of_denom_pos)
  have x: "x = of_int n / of_int d" using q by (rule quotient_of_div)
  with assms d have n: "0 < n" by (simp add: zero_less_divide_iff)
  let ?a = "int (floorlog 2 (nat n))" and ?b = "int (floorlog 2 (nat d))"
  have "x < pow2 ?a / pow2 (?b - 1)"
    unfolding x using floorlog2_bounds [OF n] floorlog2_bounds [OF d] d n
    by (intro frac_less) auto
  then have up: "x < pow2 (?a - ?b + 1)" by (simp add: pow2_div algebra_simps)
  have "pow2 (?a - 1) / pow2 ?b \<le> x"
    unfolding x using floorlog2_bounds [OF n] floorlog2_bounds [OF d] d n
    by (intro frac_le) auto
  then have lo: "pow2 (?a - ?b - 1) \<le> x" by (simp add: pow2_div algebra_simps)
  show "pow2 (expo x) \<le> x" "x < pow2 (expo x + 1)"
    using up lo by (auto simp: expo_def q Let_def)
qed

text \<open>Evaluated on integers, so that long fractions do not become unary numbers.\<close>

function bit_len :: "int \<Rightarrow> int" where
  "bit_len n = (if n \<le> 0 then 0 else bit_len (n div 2) + 1)"
  by pat_completeness auto

termination by (relation "measure nat") auto

declare bit_len.simps [simp del]

lemma bit_len_floorlog: "bit_len n = int (floorlog 2 (nat n))"
proof (induction n rule: bit_len.induct)
  case (1 n)
  show ?case
  proof (cases "n \<le> 0")
    case True
    then show ?thesis by (simp add: bit_len.simps [of n] floorlog_def)
  next
    case False
    then have "floorlog 2 (nat n) = floorlog 2 (nat n div 2) + 1" by (subst compute_floorlog) simp
    moreover have "nat (n div 2) = nat n div 2" by (simp add: nat_div_distrib)
    ultimately show ?thesis using 1 False by (simp add: bit_len.simps [of n])
  qed
qed

lemma expo_code [code]:
  "expo x = (case quotient_of x of (n, d) \<Rightarrow>
     let e = bit_len n - bit_len d in if pow2 e \<le> x then e else e - 1)"
  by (simp add: expo_def bit_len_floorlog)

lemma expo_mono: "0 < x \<Longrightarrow> x \<le> y \<Longrightarrow> expo x \<le> expo y"
  by (metis expo_bounds less_le_trans linorder_not_less order_le_less_trans pow2_less zless_add1_eq
      order_less_le)

section \<open>Rounding to a double\<close>

definition ulp_expo :: "rat \<Rightarrow> int" where
  "ulp_expo x = max (expo x - 52) (- 1074)"

definition fl_pos :: "rat \<Rightarrow> rat" where
  "fl_pos x = (let u = pow2 (ulp_expo x) in of_int (rhe (x / u)) * u)"

definition fl :: "rat \<Rightarrow> rat" where
  "fl x = (if x = 0 then 0 else if x < 0 then - fl_pos (- x) else fl_pos x)"

lemma fl_0 [simp]: "fl 0 = 0"
  by (simp add: fl_def)

lemma fl_pos_nonneg: "0 < x \<Longrightarrow> 0 \<le> fl_pos x"
  unfolding fl_pos_def Let_def by (intro mult_nonneg_nonneg) (simp_all add: rhe_ge_int)

lemma fl_pos_le_pow2:
  assumes "x \<le> pow2 e" and "ulp_expo x \<le> e"
  shows "fl_pos x \<le> pow2 e"
proof -
  let ?p = "ulp_expo x"
  have "x / pow2 ?p \<le> pow2 e / pow2 ?p" using assms(1) by (rule pow2_scale_mono)
  also have "\<dots> = of_int (2 ^ nat (e - ?p))" using assms(2) by (simp add: pow2_div pow2_int)
  finally have "rhe (x / pow2 ?p) \<le> 2 ^ nat (e - ?p)" by (rule rhe_le_int)
  then have "(of_int (rhe (x / pow2 ?p)) :: rat) \<le> of_int (2 ^ nat (e - ?p))"
    by (simp only: of_int_le_iff)
  also have "\<dots> = pow2 (e - ?p)" using assms(2) by (simp add: pow2_int)
  finally have "of_int (rhe (x / pow2 ?p)) * pow2 ?p \<le> pow2 (e - ?p) * pow2 ?p"
    by (simp add: mult_right_mono)
  then show ?thesis by (simp add: fl_pos_def Let_def pow2_add [symmetric])
qed

lemma fl_pos_ge_pow2:
  assumes "pow2 e \<le> x" and "ulp_expo x \<le> e"
  shows "pow2 e \<le> fl_pos x"
proof -
  let ?p = "ulp_expo x"
  have "of_int (2 ^ nat (e - ?p)) = pow2 e / pow2 ?p" using assms(2) by (simp add: pow2_div pow2_int)
  also have "\<dots> \<le> x / pow2 ?p" using assms(1) by (rule pow2_scale_mono)
  finally have "2 ^ nat (e - ?p) \<le> rhe (x / pow2 ?p)" by (rule rhe_ge_int)
  then have "(of_int (2 ^ nat (e - ?p)) :: rat) \<le> of_int (rhe (x / pow2 ?p))"
    by (simp only: of_int_le_iff)
  then have "pow2 (e - ?p) \<le> of_int (rhe (x / pow2 ?p))" using assms(2) by (simp add: pow2_int)
  then have "pow2 (e - ?p) * pow2 ?p \<le> of_int (rhe (x / pow2 ?p)) * pow2 ?p"
    by (simp add: mult_right_mono)
  then show ?thesis by (simp add: fl_pos_def Let_def pow2_add [symmetric])
qed

lemma fl_pos_mono:
  assumes "0 < x" and "x \<le> y"
  shows "fl_pos x \<le> fl_pos y"
proof -
  have e: "expo x \<le> expo y" by (rule expo_mono) fact+
  show ?thesis
  proof (cases "ulp_expo x = ulp_expo y")
    case True
    have "rhe (x / pow2 (ulp_expo x)) \<le> rhe (y / pow2 (ulp_expo x))"
      using assms(2) by (intro rhe_mono pow2_scale_mono)
    then show ?thesis using True by (simp add: fl_pos_def Let_def mult_right_mono)
  next
    case False
    with e have q: "ulp_expo y = expo y - 52" "ulp_expo x < ulp_expo y" "expo x < expo y"
      by (auto simp: ulp_expo_def max_def split: if_splits)
    have "x \<le> pow2 (expo x + 1)" using expo_bounds [OF assms(1)] by simp
    also have "\<dots> \<le> pow2 (expo y)" using q(3) by simp
    finally have "fl_pos x \<le> pow2 (expo y)" using q by (intro fl_pos_le_pow2) auto
    also have "\<dots> \<le> fl_pos y"
      using q expo_bounds(1) [of y] assms by (intro fl_pos_ge_pow2) auto
    finally show ?thesis .
  qed
qed

lemma fl_mono: "x \<le> y \<Longrightarrow> fl x \<le> fl y"
  using fl_pos_mono [of x y] fl_pos_mono [of "- y" "- x"] fl_pos_nonneg [of y]
    fl_pos_nonneg [of "- x"]
  by (auto simp: fl_def)

lemma fl_nonneg: "0 \<le> x \<Longrightarrow> 0 \<le> fl x"
  using fl_mono [of 0 x] by simp

lemma fl_1 [simp]: "fl 1 = 1"
  by code_simp

lemma fl_le_1: "x \<le> 1 \<Longrightarrow> fl x \<le> 1"
  using fl_mono [of x 1] by simp

text \<open>
  Evaluation at a constant: the exponent is found once, the rest is arithmetic on numerals.
\<close>

lemma expo_eqI:
  assumes "0 < x" "pow2 e \<le> x" "x < pow2 (e + 1)"
  shows "expo x = e"
proof -
  have "e < expo x + 1" using assms(2) expo_bounds(2) [OF assms(1)]
    by (metis order_le_less_trans pow2_less)
  moreover have "expo x < e + 1" using assms(3) expo_bounds(1) [OF assms(1)]
    by (metis order_le_less_trans pow2_less)
  ultimately show ?thesis by linarith
qed

lemma fl_evalI:
  assumes "0 < x" "pow2 e \<le> x" "x < pow2 (e + 1)" "- 1022 \<le> e"
    and "of_int k - 1 / 2 < x * pow2 (52 - e)" "x * pow2 (52 - e) < of_int k + 1 / 2"
  shows "fl x = of_int k * pow2 (e - 52)"
proof -
  have "ulp_expo x = e - 52" using expo_eqI [OF assms(1-3)] assms(4) by (simp add: ulp_expo_def)
  moreover have "x / pow2 (e - 52) = x * pow2 (52 - e)"
    using pow2_add [of "e - 52" "52 - e"] by (simp add: field_simps pow2_def)
  ultimately show ?thesis
    using assms(1) rhe_evalI [OF assms(5,6)] by (simp add: fl_def fl_pos_def Let_def)
qed

section \<open>Decimal rounding and formatting\<close>

definition py_round4 :: "rat \<Rightarrow> rat" where
  "py_round4 x = fl (of_int (rhe (x * 10000)) / 10000)"

lemma py_round4_mono: "x \<le> y \<Longrightarrow> py_round4 x \<le> py_round4 y"
  unfolding py_round4_def by (intro fl_mono divide_right_mono) (simp_all add: rhe_mono)

lemma py_round4_0 [simp]: "py_round4 0 = 0"
  using rhe_of_int [of 0] by (simp add: py_round4_def)

lemma py_round4_1 [simp]: "py_round4 1 = 1"
  using rhe_of_int [of 10000] by (simp add: py_round4_def)

definition fmt_fixed :: "nat \<Rightarrow> rat \<Rightarrow> string" where
  "fmt_fixed d x =
     (let n = nat (rhe (\<bar>x\<bar> * 10 ^ d))
      in (if x < 0 then ''-'' else []) @ nat_str (n div 10 ^ d) @ ''.''
         @ zero_pad d (nat_str (n mod 10 ^ d)))"

end
