(* ===== verification/PyDate.thy ===== *)
theory PyDate
  imports PyString
begin

text \<open>
  \<open>datetime.date\<close>: valid dates, their order, \<open>isoformat\<close> and \<open>fromisoformat\<close>
  (CPython's: \<open>YYYY-MM-DD\<close>, \<open>YYYYMMDD\<close> and the ISO week forms, chosen by the length of
  the text, with what follows a complete date ignored). A text that is no date is \<open>None\<close>,
  where Python raises \<open>ValueError\<close>.
\<close>

datatype date = Date (year: nat) (month: nat) (day: nat)

definition is_leap :: "nat \<Rightarrow> bool" where
  "is_leap y \<longleftrightarrow> y mod 4 = 0 \<and> (y mod 100 \<noteq> 0 \<or> y mod 400 = 0)"

definition days_in_month :: "nat \<Rightarrow> nat \<Rightarrow> nat" where
  "days_in_month y m =
     (if m = 2 then (if is_leap y then 29 else 28)
      else if m \<in> {4, 6, 9, 11} then 30 else 31)"

definition valid_date :: "nat \<Rightarrow> nat \<Rightarrow> nat \<Rightarrow> bool" where
  "valid_date y m d \<longleftrightarrow> 1 \<le> y \<and> y \<le> 9999 \<and> 1 \<le> m \<and> m \<le> 12 \<and> 1 \<le> d \<and> d \<le> days_in_month y m"

text \<open>The constructor \<open>date(y, m, d)\<close>.\<close>

definition mk_date :: "nat \<Rightarrow> nat \<Rightarrow> nat \<Rightarrow> date option" where
  "mk_date y m d = (if valid_date y m d then Some (Date y m d) else None)"

definition wf_date :: "date \<Rightarrow> bool" where
  "wf_date x = valid_date (year x) (month x) (day x)"

instantiation date :: linorder
begin

definition less_eq_date :: "date \<Rightarrow> date \<Rightarrow> bool" where
  "less_eq_date x y \<longleftrightarrow> year x < year y \<or> (year x = year y \<and>
     (month x < month y \<or> (month x = month y \<and> day x \<le> day y)))"

definition less_date :: "date \<Rightarrow> date \<Rightarrow> bool" where
  "less_date (x::date) y \<longleftrightarrow> x \<le> y \<and> \<not> y \<le> x"

instance
  by standard (auto simp: less_eq_date_def less_date_def date.expand)

end

section \<open>Texts and dates\<close>

definition isoformat :: "date \<Rightarrow> string" where
  "isoformat x = zero_pad 4 (nat_str (year x)) @ ''-'' @ zero_pad 2 (nat_str (month x))
     @ ''-'' @ zero_pad 2 (nat_str (day x))"

text \<open>\<open>parse_digits n s\<close>: exactly \<open>n\<close> decimal digits, then the rest.\<close>

fun parse_digits :: "nat \<Rightarrow> nat \<Rightarrow> string \<Rightarrow> (nat \<times> string) option" where
  "parse_digits 0 acc s = Some (acc, s)"
| "parse_digits (Suc n) acc [] = None"
| "parse_digits (Suc n) acc (c # s) =
     (if isdecimal c then parse_digits n (acc * 10 + (code c - 48)) s else None)"

text \<open>\<open>weekday(y, 1, 1)\<close> with Monday 0, and the day of the year (from 0) of a date.\<close>

definition jan1_weekday :: "nat \<Rightarrow> nat" where
  "jan1_weekday y = (let p = y - 1 in (p + p div 4 - p div 100 + p div 400) mod 7)"

definition days_in_year :: "nat \<Rightarrow> nat" where
  "days_in_year y = (if is_leap y then 366 else 365)"

fun month_day :: "nat \<Rightarrow> nat list \<Rightarrow> nat \<Rightarrow> nat \<times> nat" where
  "month_day y [] n = (12, n + 1)"
| "month_day y (m # ms) n =
     (if n < days_in_month y m then (m, n + 1) else month_day y ms (n - days_in_month y m))"

definition of_year_day :: "nat \<Rightarrow> nat \<Rightarrow> date" where
  "of_year_day y n = (case month_day y [1..<13] n of (m, d) \<Rightarrow> Date y m d)"

text \<open>
  \<open>iso_to_ymd\<close>: the Monday of week 1 lies up to three days before or after 1 January.
\<close>

definition iso_to_ymd :: "nat \<Rightarrow> nat \<Rightarrow> nat \<Rightarrow> date option" where
  "iso_to_ymd y w d =
     (let wd = jan1_weekday y;
          long = (wd = 3 \<or> (wd = 2 \<and> is_leap y));
          off = (if wd \<le> 3 then - int wd else 7 - int wd) + (int w - 1) * 7 + int d - 1
      in if y < 1 \<or> 9999 < y \<or> w = 0 \<or> 53 < w \<or> (w = 53 \<and> \<not> long) \<or> d = 0 \<or> 7 < d then None
         else if off < 0 then
           (if y = 1 then None else Some (of_year_day (y - 1) (nat (int (days_in_year (y - 1)) + off))))
         else if int (days_in_year y) \<le> off then
           (if y = 9999 then None else Some (of_year_day (y + 1) (nat (off - int (days_in_year y)))))
         else Some (of_year_day y (nat off)))"

definition fromisoformat :: "string \<Rightarrow> date option" where
  "fromisoformat s =
     (if length s \<notin> {7, 8, 10} then None
      else case parse_digits 4 0 s of None \<Rightarrow> None | Some (y, r) \<Rightarrow>
        (let sep = (r \<noteq> [] \<and> hd r = CHR ''-''); r = (if sep then tl r else r)
         in if r \<noteq> [] \<and> hd r = CHR ''W''
            then (case parse_digits 2 0 (tl r) of None \<Rightarrow> None | Some (w, r1) \<Rightarrow>
              if r1 = [] then iso_to_ymd y w 1
              else if sep \<and> hd r1 \<noteq> CHR ''-'' then None
              else (case parse_digits 1 0 (if sep then tl r1 else r1) of None \<Rightarrow> None
                | Some (d, _) \<Rightarrow> iso_to_ymd y w d))
            else (case parse_digits 2 0 r of None \<Rightarrow> None | Some (m, r1) \<Rightarrow>
              if sep \<and> (r1 = [] \<or> hd r1 \<noteq> CHR ''-'') then None
              else (case parse_digits 2 0 (if sep then tl r1 else r1) of None \<Rightarrow> None
                | Some (d, _) \<Rightarrow> mk_date y m d))))"

section \<open>Round trip\<close>

lemma parse_digits_append:
  "parse_digits n acc s = Some (v, r) \<Longrightarrow> parse_digits n acc (s @ t) = Some (v, r @ t)"
  by (induction n acc s rule: parse_digits.induct) (auto split: if_splits)

definition digit :: "nat \<Rightarrow> char" where
  "digit n = char_of (48 + n)"

lemma digit_facts [simp]: "n < 10 \<Longrightarrow> isdecimal (digit n) \<and> code (digit n) = 48 + n"
  by (simp add: digit_def isdecimal_def)

lemma nat_str_1: "n < 10 \<Longrightarrow> nat_str n = [digit n]"
  by (simp add: nat_str.simps [of n] digit_def)

lemma nat_str_step: "10 \<le> n \<Longrightarrow> nat_str n = nat_str (n div 10) @ [digit (n mod 10)]"
  by (simp add: nat_str.simps [of n] digit_def)

lemma nat_str_2: "10 \<le> n \<Longrightarrow> n < 100 \<Longrightarrow> nat_str n = [digit (n div 10), digit (n mod 10)]"
  by (simp add: nat_str_step [of n] nat_str_1)

lemma nat_str_3: "100 \<le> n \<Longrightarrow> n < 1000 \<Longrightarrow>
    nat_str n = [digit (n div 100), digit (n div 10 mod 10), digit (n mod 10)]"
  by (simp add: nat_str_step [of n] nat_str_2 div_mult2_eq [symmetric])

lemma nat_str_4: "1000 \<le> n \<Longrightarrow> n < 10000 \<Longrightarrow>
    nat_str n = [digit (n div 1000), digit (n div 100 mod 10), digit (n div 10 mod 10), digit (n mod 10)]"
  by (simp add: nat_str_step [of n] nat_str_3 div_mult2_eq [symmetric])

lemma zero_char: "CHR ''0'' = digit 0"
  by code_simp

lemma pad_2: "n < 100 \<Longrightarrow> zero_pad 2 (nat_str n) = [digit (n div 10), digit (n mod 10)]"
  by (cases "n < 10") (simp_all add: zero_pad_def nat_str_1 nat_str_2 zero_char)

lemma pad_4:
  assumes "n < 10000"
  shows "zero_pad 4 (nat_str n) =
    [digit (n div 1000), digit (n div 100 mod 10), digit (n div 10 mod 10), digit (n mod 10)]"
proof -
  consider "n < 10" | "10 \<le> n" "n < 100" | "100 \<le> n" "n < 1000" | "1000 \<le> n" by linarith
  then show ?thesis
  proof cases
    case 1
    then show ?thesis by (simp add: zero_pad_def nat_str_1 zero_char numeral_3_eq_3)
  next
    case 2
    then show ?thesis by (simp add: zero_pad_def nat_str_2 zero_char numeral_2_eq_2)
  next
    case 3
    then show ?thesis by (simp add: zero_pad_def nat_str_3 zero_char)
  next
    case 4
    with assms show ?thesis by (simp add: zero_pad_def nat_str_4)
  qed
qed

lemma parse_digit: "k < 10 \<Longrightarrow> parse_digits (Suc n) acc (digit k # s) = parse_digits n (acc * 10 + k) s"
  by simp

lemma parse_pad_2: "n < 100 \<Longrightarrow> parse_digits 2 0 (zero_pad 2 (nat_str n) @ r) = Some (n, r)"
proof -
  assume n: "n < 100"
  show ?thesis unfolding pad_2 [OF n] unfolding numeral_2_eq_2 using n by simp
qed

lemma parse_pad_4: "n < 10000 \<Longrightarrow> parse_digits 4 0 (zero_pad 4 (nat_str n) @ r) = Some (n, r)"
proof -
  assume n: "n < 10000"
  have four: "(4::nat) = Suc (Suc (Suc (Suc 0)))" by simp
  have d1: "(0 * 10 + n div 1000) * 10 + n div 100 mod 10 = n div 100"
    using div_mult_mod_eq [of "n div 100" 10] by (simp add: div_mult2_eq [symmetric])
  have d2: "n div 100 * 10 + n div 10 mod 10 = n div 10"
    using div_mult_mod_eq [of "n div 10" 10] by (simp add: div_mult2_eq [symmetric])
  have d3: "n div 10 * 10 + n mod 10 = n" by simp
  have "n div 1000 < 10" using n by simp
  then show ?thesis
    unfolding pad_4 [OF n] unfolding four append_Cons append_Nil
    by (simp only: parse_digit parse_digits.simps(1) mod_less_divisor zero_less_numeral d1 d2 d3)
qed

lemma valid_date_bounds: "valid_date y m d \<Longrightarrow> y < 10000 \<and> m < 100 \<and> d < 100"
  by (auto simp: valid_date_def days_in_month_def split: if_splits)

lemma digit_not_W [simp]: "n < 10 \<Longrightarrow> digit n \<noteq> CHR ''W''"
  by (auto dest: arg_cong [where f = code])

lemma hd_pad_2: "m < 100 \<Longrightarrow> hd (zero_pad 2 (nat_str m) @ r) \<noteq> CHR ''W''"
  by (simp add: pad_2)

lemma length_isoformat: "wf_date x \<Longrightarrow> length (isoformat x) = 10"
  using valid_date_bounds [of "year x" "month x" "day x"]
  by (simp add: wf_date_def isoformat_def pad_2 pad_4)

lemma fromisoformat_isoformat:
  assumes "wf_date x"
  shows "fromisoformat (isoformat x) = Some x"
proof -
  obtain y m d where x: "x = Date y m d" by (cases x)
  with assms have v: "valid_date y m d" by (simp add: wf_date_def)
  note b = valid_date_bounds [OF v]
  let ?m = "zero_pad 2 (nat_str m)" and ?d = "zero_pad 2 (nat_str d)"
  have iso: "isoformat x = zero_pad 4 (nat_str y) @ CHR ''-'' # ?m @ CHR ''-'' # ?d"
    by (simp add: isoformat_def x)
  have "parse_digits 4 0 (isoformat x) = Some (y, CHR ''-'' # ?m @ CHR ''-'' # ?d)"
    using b by (simp add: iso parse_pad_4)
  moreover have "parse_digits 2 0 (?m @ CHR ''-'' # ?d) = Some (m, CHR ''-'' # ?d)"
    using b by (simp add: parse_pad_2)
  moreover have "parse_digits 2 0 ?d = Some (d, [])"
    using b parse_pad_2 [of d "[]"] by simp
  moreover have "hd (?m @ CHR ''-'' # ?d) \<noteq> CHR ''W''" "?m @ CHR ''-'' # ?d \<noteq> []"
    using b by (simp_all add: hd_pad_2)
  ultimately show ?thesis
    using length_isoformat [OF assms] v by (simp add: fromisoformat_def mk_date_def x)
qed

end
