(* ===== verification/Schemas.thy ===== *)
theory Schemas
  imports PyFloat PyDate
begin

text \<open>
  The Pydantic models and enums of \<open>kyc_agent/schemas\<close> and \<open>rules/ids.py\<close>.
  Enums are datatypes with their string value, models are records, optional fields are
  options. \<open>RuleFlag.rule_id\<close> and \<open>Decision.reason_codes\<close> are declared as strings; every
  construction in the sources passes a \<open>RuleId\<close>, so their type here is the enum. Field
  bounds (\<open>ge\<close>, \<open>le\<close>, \<open>min_length\<close>) are the \<open>wf_\<close> predicates. The wall-clock fields
  \<open>ProcessingError.timestamp\<close> and \<open>AuditEvent.ts\<close> are left out: nothing reads them in the
  pipeline.
\<close>

section \<open>schemas/documents.py\<close>

datatype document_type =
  ID_DOCUMENT | PROOF_OF_ADDRESS | BUSINESS_REGISTRATION | UBO_DECLARATION | UNKNOWN

fun document_type_value :: "document_type \<Rightarrow> string" where
  "document_type_value ID_DOCUMENT = ''id_document''"
| "document_type_value PROOF_OF_ADDRESS = ''proof_of_address''"
| "document_type_value BUSINESS_REGISTRATION = ''business_registration''"
| "document_type_value UBO_DECLARATION = ''ubo_declaration''"
| "document_type_value UNKNOWN = ''unknown''"

lemma document_type_value_inj: "document_type_value a = document_type_value b \<longleftrightarrow> a = b"
  by (cases a; cases b) simp_all

text \<open>A \<open>StrEnum\<close> is ordered by its values.\<close>

instantiation document_type :: linorder
begin

definition less_eq_document_type :: "document_type \<Rightarrow> document_type \<Rightarrow> bool" where
  "less_eq_document_type a b \<longleftrightarrow> document_type_value a \<le> document_type_value b"

definition less_document_type :: "document_type \<Rightarrow> document_type \<Rightarrow> bool" where
  "less_document_type a b \<longleftrightarrow> document_type_value a < document_type_value b"

instance
  by standard
    (auto simp: less_eq_document_type_def less_document_type_def document_type_value_inj [symmetric])

end

record input_document =
  document_id :: string
  file_name :: string
  text_content :: string

record classified_document =
  cd_document_id :: string
  cd_doc_type :: document_type
  classifier_confidence :: rat

fun required_fields_by_type :: "document_type \<Rightarrow> string list" where
  "required_fields_by_type ID_DOCUMENT =
     [''full_name'', ''date_of_birth'', ''document_number'', ''expiry_date'']"
| "required_fields_by_type PROOF_OF_ADDRESS = [''full_name'', ''address'']"
| "required_fields_by_type BUSINESS_REGISTRATION = [''company_name'', ''registration_number'']"
| "required_fields_by_type UBO_DECLARATION = [''company_name'', ''beneficial_owners'']"
| "required_fields_by_type UNKNOWN = []"

section \<open>schemas/case.py\<close>

datatype customer_type = INDIVIDUAL | BUSINESS

fun customer_type_value :: "customer_type \<Rightarrow> string" where
  "customer_type_value INDIVIDUAL = ''individual''"
| "customer_type_value BUSINESS = ''business''"

datatype case_status = RECEIVED | PROCESSING | AWAITING_HUMAN_REVIEW | COMPLETED | FAILED

text \<open>
  \<open>decimal.Decimal\<close>: sign, coefficient and exponent of ten, so that \<open>str\<close> keeps the
  trailing zeros and the scientific notation of the input.
\<close>

record py_decimal =
  dec_neg :: bool
  dec_coeff :: nat
  dec_exp :: int

definition dec_value :: "py_decimal \<Rightarrow> rat" where
  "dec_value x = (let m = (if 0 \<le> dec_exp x then of_nat (dec_coeff x) * 10 ^ nat (dec_exp x)
                           else of_nat (dec_coeff x) / 10 ^ nat (- dec_exp x))
                  in if dec_neg x then - m else m)"

definition dec_of_nat :: "nat \<Rightarrow> py_decimal" where
  "dec_of_nat n = \<lparr>dec_neg = False, dec_coeff = n, dec_exp = 0\<rparr>"

lemma dec_value_of_nat [simp]: "dec_value (dec_of_nat n) = of_nat n"
  by (simp add: dec_value_def dec_of_nat_def)

definition dec_str :: "py_decimal \<Rightarrow> string" where
  "dec_str x =
     (let ds = nat_str (dec_coeff x); len = int (length ds); left = dec_exp x + len;
          dotplace = (if dec_exp x \<le> 0 \<and> - 6 < left then left else 1);
          body = (if dotplace \<le> 0 then ''0.'' @ replicate (nat (- dotplace)) (CHR ''0'') @ ds
                  else if len \<le> dotplace then ds @ replicate (nat (dotplace - len)) (CHR ''0'')
                  else take (nat dotplace) ds @ ''.'' @ drop (nat dotplace) ds);
          e = left - dotplace
      in (if dec_neg x then ''-'' else []) @ body
         @ (if e = 0 then [] else ''E'' @ (if 0 \<le> e then ''+'' else []) @ int_str e))"

record applicant_declared =
  full_name :: string
  date_of_birth :: "date option"
  address :: string
  company_name :: "string option"
  registration_number :: "string option"
  expected_monthly_volume_eur :: py_decimal

record kyc_package =
  customer_type :: customer_type
  applicant :: applicant_declared
  documents :: "input_document list"

definition wf_package :: "kyc_package \<Rightarrow> bool" where
  "wf_package p \<longleftrightarrow> documents p \<noteq> [] \<and> 0 \<le> dec_value (expected_monthly_volume_eur (applicant p))"

fun required_docs_by_customer :: "customer_type \<Rightarrow> document_type list" where
  "required_docs_by_customer INDIVIDUAL = [ID_DOCUMENT, PROOF_OF_ADDRESS]"
| "required_docs_by_customer BUSINESS = [BUSINESS_REGISTRATION, UBO_DECLARATION]"

section \<open>rules/ids.py\<close>

datatype rule_id =
    INCOMPLETE_PACKAGE | DOC_EXPIRED | NAME_MISMATCH | DOB_MISMATCH | ADDRESS_MISMATCH
  | COMPANY_NAME_MISMATCH | REG_NUMBER_MISMATCH | EXTRACTION_INCOMPLETE | EVALUATOR_DISCREPANCY
  | SANCTIONS_HIT | PEP_MATCH | HIGH_VOLUME | LOW_CONFIDENCE | CRITICAL_MISMATCH
  | REGISTRY_UNAVAILABLE | UBO_SANCTIONS_OR_PEP
  | DOCUMENT_EXPIRED | ALL_CHECKS_PASSED | DEGRADED_TO_MANUAL | UNREADABLE_DOCUMENT

fun rule_id_value :: "rule_id \<Rightarrow> string" where
  "rule_id_value INCOMPLETE_PACKAGE = ''INCOMPLETE_PACKAGE''"
| "rule_id_value DOC_EXPIRED = ''DOC_EXPIRED''"
| "rule_id_value NAME_MISMATCH = ''NAME_MISMATCH''"
| "rule_id_value DOB_MISMATCH = ''DOB_MISMATCH''"
| "rule_id_value ADDRESS_MISMATCH = ''ADDRESS_MISMATCH''"
| "rule_id_value COMPANY_NAME_MISMATCH = ''COMPANY_NAME_MISMATCH''"
| "rule_id_value REG_NUMBER_MISMATCH = ''REG_NUMBER_MISMATCH''"
| "rule_id_value EXTRACTION_INCOMPLETE = ''EXTRACTION_INCOMPLETE''"
| "rule_id_value EVALUATOR_DISCREPANCY = ''EVALUATOR_DISCREPANCY''"
| "rule_id_value SANCTIONS_HIT = ''SANCTIONS_HIT''"
| "rule_id_value PEP_MATCH = ''PEP_MATCH''"
| "rule_id_value HIGH_VOLUME = ''HIGH_VOLUME''"
| "rule_id_value LOW_CONFIDENCE = ''LOW_CONFIDENCE''"
| "rule_id_value CRITICAL_MISMATCH = ''CRITICAL_MISMATCH''"
| "rule_id_value REGISTRY_UNAVAILABLE = ''REGISTRY_UNAVAILABLE''"
| "rule_id_value UBO_SANCTIONS_OR_PEP = ''UBO_SANCTIONS_OR_PEP''"
| "rule_id_value DOCUMENT_EXPIRED = ''DOCUMENT_EXPIRED''"
| "rule_id_value ALL_CHECKS_PASSED = ''ALL_CHECKS_PASSED''"
| "rule_id_value DEGRADED_TO_MANUAL = ''DEGRADED_TO_MANUAL''"
| "rule_id_value UNREADABLE_DOCUMENT = ''UNREADABLE_DOCUMENT''"

lemma rule_id_value_inj: "rule_id_value a = rule_id_value b \<longleftrightarrow> a = b"
  by (cases a; cases b) simp_all

instantiation rule_id :: linorder
begin

definition less_eq_rule_id :: "rule_id \<Rightarrow> rule_id \<Rightarrow> bool" where
  "less_eq_rule_id a b \<longleftrightarrow> rule_id_value a \<le> rule_id_value b"

definition less_rule_id :: "rule_id \<Rightarrow> rule_id \<Rightarrow> bool" where
  "less_rule_id a b \<longleftrightarrow> rule_id_value a < rule_id_value b"

instance
  by standard (auto simp: less_eq_rule_id_def less_rule_id_def rule_id_value_inj [symmetric])

end

definition critical_mismatch_sources :: "rule_id list" where
  "critical_mismatch_sources =
     [NAME_MISMATCH, DOB_MISMATCH, COMPANY_NAME_MISMATCH, REG_NUMBER_MISMATCH, EVALUATOR_DISCREPANCY]"

section \<open>schemas/decisions.py\<close>

datatype severity = WARNING | CRITICAL

fun severity_value :: "severity \<Rightarrow> string" where
  "severity_value WARNING = ''warning''"
| "severity_value CRITICAL = ''critical''"

record rule_flag =
  rule_id :: rule_id
  severity :: severity
  details :: string

record field_check =
  field :: string
  declared :: "string option"
  extracted :: "string option"
  field_match :: bool
  critical :: bool

text \<open>JSON values: what \<open>dict[str, Any]\<close> holds.\<close>

datatype jval =
    JNull
  | JBool bool
  | JFloat rat
  | JStr string
  | JList "jval list"
  | JObj "(string \<times> jval) list"

record extraction_result =
  er_document_id :: string
  er_doc_type :: document_type
  er_fields :: "(string, jval) dict"
  field_confidence :: "(string, rat) dict"
  extraction_error :: "string option"

record validation_report =
  field_checks :: "field_check list"
  rule_flags :: "rule_flag list"
  overall_confidence :: rat
  evaluator_notes :: string

definition wf_report :: "validation_report \<Rightarrow> bool" where
  "wf_report r \<longleftrightarrow> 0 \<le> overall_confidence r \<and> overall_confidence r \<le> 1"

datatype registry_name = SANCTIONS | PEP

fun registry_value :: "registry_name \<Rightarrow> string" where
  "registry_value SANCTIONS = ''sanctions''"
| "registry_value PEP = ''pep''"

record registry_hit =
  registry :: registry_name
  matched_name :: string
  score :: rat
  list_entry :: string

definition wf_hit :: "registry_hit \<Rightarrow> bool" where
  "wf_hit h \<longleftrightarrow> 0 \<le> score h \<and> score h \<le> 1"

datatype risk_level = LOW | MEDIUM | HIGH

record risk_assessment =
  level :: risk_level
  triggered_rules :: "rule_flag list"
  sanctions_hits :: "registry_hit list"
  pep_hits :: "registry_hit list"
  risk_rationale :: string

datatype decision_outcome = APPROVE | REJECT | ESCALATE

datatype decided_by = SYSTEM | HUMAN

record decision =
  outcome :: decision_outcome
  decided_by :: decided_by
  reason_codes :: "rule_id list"
  rationale :: string
  reviewer :: "string option"

datatype human_outcome = HApprove | HReject

fun decision_outcome_of :: "human_outcome \<Rightarrow> decision_outcome" where
  "decision_outcome_of HApprove = APPROVE"
| "decision_outcome_of HReject = REJECT"

record human_decision =
  h_outcome :: human_outcome
  h_reviewer :: string
  h_comment :: string

record processing_error =
  pe_node :: string
  error_type :: string
  message :: string
  attempt :: nat

text \<open>
  \<open>HumanDecision.model_validate\<close>: a JSON object with the two literals, a reviewer string
  and an optional comment string; otherwise the number of validation errors.
\<close>

fun jv_outcome :: "jval option \<Rightarrow> human_outcome option" where
  "jv_outcome (Some (JStr s)) =
     (if s = ''approve'' then Some HApprove else if s = ''reject'' then Some HReject else None)"
| "jv_outcome _ = None"

fun jv_str :: "jval option \<Rightarrow> string option" where
  "jv_str (Some (JStr s)) = Some s"
| "jv_str _ = None"

definition validate_human_decision :: "jval \<Rightarrow> nat + human_decision" where
  "validate_human_decision v = (case v of
     JObj d \<Rightarrow>
       (let out = jv_outcome (map_of d ''outcome'');
            rev = jv_str (map_of d ''reviewer'');
            com = (if map_of d ''comment'' = None then Some [] else jv_str (map_of d ''comment''))
        in case (out, rev, com) of
             (Some o1, Some r, Some c) \<Rightarrow> Inr \<lparr>h_outcome = o1, h_reviewer = r, h_comment = c\<rparr>
           | _ \<Rightarrow> Inl ((if out = None then 1 else 0) + (if rev = None then 1 else 0)
                       + (if com = None then 1 else 0)))
   | _ \<Rightarrow> Inl 1)"

text \<open>\<open>decision.model_dump()\<close>, what the review endpoint resumes the graph with.\<close>

definition dump_human_decision :: "human_decision \<Rightarrow> jval" where
  "dump_human_decision h = JObj
     [(''outcome'', JStr (case h_outcome h of HApprove \<Rightarrow> ''approve'' | HReject \<Rightarrow> ''reject'')),
      (''reviewer'', JStr (h_reviewer h)), (''comment'', JStr (h_comment h))]"

lemma validate_dump: "validate_human_decision (dump_human_decision h) = Inr h"
  by (cases h; cases "h_outcome h") (simp_all add: validate_human_decision_def dump_human_decision_def)

lemma decision_outcome_of_not_escalate [simp]: "decision_outcome_of o1 \<noteq> ESCALATE"
  by (cases o1) simp_all

end
