(* ===== verification/Resilience.thy ===== *)
theory Resilience
  imports Schemas
begin

text \<open>
  \<open>llm/resilience.py\<close> and the step names of \<open>llm/base.py\<close>: bounded retry with one fallback
  attempt. \<open>run_resilient\<close> never raises anything but \<open>StepExhaustedError\<close>, so its result is
  a sum of that error and the value with the errors seen. Its specification is
  \<open>first_success\<close>: the first call of the budget that returns.
\<close>

datatype pipeline_step = ROUTER | EXTRACTOR | VALIDATOR | RISK

fun step_value :: "pipeline_step \<Rightarrow> string" where
  "step_value ROUTER = ''router''"
| "step_value EXTRACTOR = ''extractor''"
| "step_value VALIDATOR = ''validator''"
| "step_value RISK = ''risk''"

fun temperature_by_step :: "pipeline_step \<Rightarrow> rat" where
  "temperature_by_step ROUTER = 0"
| "temperature_by_step EXTRACTOR = 0"
| "temperature_by_step VALIDATOR = 0"
| "temperature_by_step RISK = 0"

datatype step_exhausted = StepExhausted (se_step: pipeline_step) (se_errors: "processing_error list")

definition step_exhausted_msg :: "step_exhausted \<Rightarrow> string" where
  "step_exhausted_msg x = ''step '' @ step_value (se_step x) @ '' exhausted retry budget after ''
     @ nat_str (length (se_errors x)) @ '' attempts''"

definition perr :: "string \<Rightarrow> exn \<Rightarrow> string \<Rightarrow> nat \<Rightarrow> processing_error" where
  "perr node e prefix att =
     \<lparr>pe_node = node, error_type = exn_type e, message = prefix @ exn_msg e, attempt = att\<rparr>"

text \<open>The \<open>for\<close> loop: attempts left, attempts made, errors so far.\<close>

fun primary_loop ::
  "string \<Rightarrow> ('w, 'a) action \<Rightarrow> nat \<Rightarrow> nat \<Rightarrow> processing_error list \<Rightarrow> 'w
    \<Rightarrow> (nat \<times> processing_error list + 'a \<times> processing_error list) \<times> 'w" where
  "primary_loop node primary 0 att errs w = (Inl (att, errs), w)"
| "primary_loop node primary (Suc n) att errs w =
     (case primary w of
        (Inr x, w') \<Rightarrow> (Inr (x, errs), w')
      | (Inl e, w') \<Rightarrow> primary_loop node primary n (att + 1) (errs @ [perr node e [] (att + 1)]) w')"

definition run_resilient ::
  "pipeline_step \<Rightarrow> string \<Rightarrow> ('w, 'a) action \<Rightarrow> ('w, 'a) action option \<Rightarrow> int \<Rightarrow> 'w
    \<Rightarrow> (step_exhausted + 'a \<times> processing_error list) \<times> 'w" where
  "run_resilient step node primary fallback max_retries w =
     (case primary_loop node primary (nat (1 + max_retries)) 0 [] w of
        (Inr r, w') \<Rightarrow> (Inr r, w')
      | (Inl (att, errs), w') \<Rightarrow>
         (case fallback of
            None \<Rightarrow> (Inl (StepExhausted step errs), w')
          | Some fb \<Rightarrow>
             (case fb w' of
                (Inr x, w'') \<Rightarrow> (Inr (x, errs), w'')
              | (Inl e, w'') \<Rightarrow>
                  (Inl (StepExhausted step (errs @ [perr node e ''fallback failed: '' (att + 1)])), w''))))"

section \<open>Specification: the first call of the budget that returns\<close>

fun first_success :: "('w, 'a) action list \<Rightarrow> 'w \<Rightarrow> (exn list \<times> 'a option) \<times> 'w" where
  "first_success [] w = (([], None), w)"
| "first_success (m # ms) w =
     (case m w of
        (Inr x, w') \<Rightarrow> (([], Some x), w')
      | (Inl e, w') \<Rightarrow> (case first_success ms w' of ((es, r), w'') \<Rightarrow> ((e # es, r), w'')))"

definition budget :: "('w, 'a) action \<Rightarrow> ('w, 'a) action option \<Rightarrow> int \<Rightarrow> ('w, 'a) action list" where
  "budget primary fallback max_retries =
     replicate (nat (1 + max_retries)) primary @ (case fallback of None \<Rightarrow> [] | Some fb \<Rightarrow> [fb])"

text \<open>The error history of the failed calls of the primary, numbered from \<open>k + 1\<close>.\<close>

fun history :: "string \<Rightarrow> nat \<Rightarrow> exn list \<Rightarrow> processing_error list" where
  "history node k [] = []"
| "history node k (e # es) = perr node e [] (k + 1) # history node (k + 1) es"

lemma history_append: "history node k (xs @ ys) = history node k xs @ history node (k + length xs) ys"
  by (induction xs arbitrary: k) simp_all

lemma length_history [simp]: "length (history node k es) = length es"
  by (induction es arbitrary: k) simp_all

lemma history_attempts: "map attempt (history node k es) = [Suc k..<Suc k + length es]"
  by (induction es arbitrary: k) (simp_all add: perr_def upt_rec)

lemma history_node: "e \<in> set (history node k es) \<Longrightarrow> pe_node e = node"
  by (induction es arbitrary: k) (auto simp: perr_def)

lemma primary_loop_eq:
  "primary_loop node m n k errs w =
     (case first_success (replicate n m) w of
        ((es, None), w') \<Rightarrow> (Inl (k + n, errs @ history node k es), w')
      | ((es, Some x), w') \<Rightarrow> (Inr (x, errs @ history node k es), w'))"
  by (induction n arbitrary: k errs w) (auto split: prod.splits sum.splits option.splits)

lemma first_success_append:
  "first_success (ms @ ns) w =
     (case first_success ms w of
        ((es, Some x), w') \<Rightarrow> ((es, Some x), w')
      | ((es, None), w') \<Rightarrow> (case first_success ns w' of ((es', r), w'') \<Rightarrow> ((es @ es', r), w'')))"
  by (induction ms arbitrary: w) (auto split: prod.splits sum.splits option.splits)

lemma first_success_None_length: "first_success ms w = ((es, None), w') \<Longrightarrow> length es = length ms"
  by (induction ms arbitrary: w es w') (auto split: prod.splits sum.splits)

lemma first_success_Some_length: "first_success ms w = ((es, Some x), w') \<Longrightarrow> length es < length ms"
  by (induction ms arbitrary: w es w') (fastforce split: prod.splits sum.splits)+

lemma first_success_SomeD:
  "first_success ms w = ((es, Some x), w') \<Longrightarrow> \<exists>m \<in> set ms. \<exists>w0. m w0 = (Inr x, w')"
  by (induction ms arbitrary: w es) (fastforce split: prod.splits sum.splits)+

lemma first_success_all_fail:
  assumes "\<And>w. \<exists>e w'. p w = (Inl e, w')"
  shows "\<exists>es w'. first_success (replicate n p) w = ((es, None), w')"
proof (induction n arbitrary: w)
  case (Suc n)
  obtain e w1 where "p w = (Inl e, w1)" using assms by blast
  moreover obtain es w2 where "first_success (replicate n p) w1 = ((es, None), w2)" using Suc by blast
  ultimately show ?case by simp
qed simp

definition resilient_errors :: "string \<Rightarrow> int \<Rightarrow> exn list \<Rightarrow> processing_error list" where
  "resilient_errors node max_retries es =
     (let n = nat (1 + max_retries)
      in history node 0 (take n es) @ map (\<lambda>e. perr node e ''fallback failed: '' (n + 1)) (drop n es))"

lemma run_resilient_eq:
  "run_resilient step node primary fallback mr w =
     (case first_success (budget primary fallback mr) w of
        ((es, Some x), w') \<Rightarrow> (Inr (x, resilient_errors node mr es), w')
      | ((es, None), w') \<Rightarrow> (Inl (StepExhausted step (resilient_errors node mr es)), w'))"
proof -
  let ?n = "nat (1 + mr)"
  obtain es r w1 where p: "first_success (replicate ?n primary) w = ((es, r), w1)"
    by (metis surj_pair)
  show ?thesis
  proof (cases r)
    case None
    then have "length es = ?n" using first_success_None_length p by fastforce
    then show ?thesis using p None
      by (cases fallback) (auto simp: run_resilient_def primary_loop_eq budget_def
          first_success_append resilient_errors_def split: prod.splits sum.splits)
  next
    case (Some x)
    then have "length es < ?n" using first_success_Some_length p by fastforce
    then show ?thesis using p Some
      by (simp add: run_resilient_def primary_loop_eq budget_def first_success_append
          resilient_errors_def)
  qed
qed

section \<open>Consequences used by the nodes\<close>

lemma length_budget: "length (budget p f mr) = nat (1 + mr) + (if f = None then 0 else 1)"
  by (simp add: budget_def split: option.splits)

lemma length_resilient_errors [simp]: "length (resilient_errors node mr es) = length es"
  by (simp add: resilient_errors_def Let_def)

lemma resilient_errors_node: "e \<in> set (resilient_errors node mr es) \<Longrightarrow> pe_node e = node"
  by (auto simp: resilient_errors_def Let_def perr_def dest: history_node)

lemma resilient_errors_attempts:
  assumes "length es \<le> nat (1 + mr) + 1"
  shows "map attempt (resilient_errors node mr es) = [1..<Suc (length es)]"
proof (cases "length es \<le> nat (1 + mr)")
  case True
  then show ?thesis by (simp add: resilient_errors_def history_attempts)
next
  case False
  then have "length es = Suc (nat (1 + mr))" using assms by simp
  then obtain ys y where "es = ys @ [y]" "length ys = nat (1 + mr)"
    by (metis length_Suc_conv_rev)
  then show ?thesis by (simp add: resilient_errors_def history_attempts perr_def)
qed

text \<open>What holds of every value the two implementations return holds of the result.\<close>

lemma run_resilient_result:
  assumes "run_resilient step node p f mr w = (Inr (x, errs), w')"
    and "\<And>w x w'. p w = (Inr x, w') \<Longrightarrow> P x"
    and "\<And>fb w x w'. f = Some fb \<Longrightarrow> fb w = (Inr x, w') \<Longrightarrow> P x"
  shows "P x"
proof -
  obtain es r w1 where fs: "first_success (budget p f mr) w = ((es, r), w1)" by (metis surj_pair)
  then have "r = Some x" "w1 = w'"
    using assms(1) by (simp_all add: run_resilient_eq split: option.splits)
  then have "\<exists>m \<in> set (budget p f mr). \<exists>w0. m w0 = (Inr x, w')"
    using fs by (intro first_success_SomeD) simp
  then obtain m w0 where m: "m \<in> set (budget p f mr)" "m w0 = (Inr x, w')" by (elim bexE exE)
  have "set (budget p f mr) \<subseteq> insert p (set_option f)" by (auto simp: budget_def split: option.splits)
  then have "m = p \<or> f = Some m" using m(1) by (auto simp: elem_set)
  then show ?thesis
  proof
    assume "m = p"
    then show ?thesis using assms(2) [of w0 x w'] m(2) by simp
  next
    assume "f = Some m"
    then show ?thesis using assms(3) [of m w0 x w'] m(2) by simp
  qed
qed

text \<open>With a fallback that always returns (the offline services) the step never exhausts.\<close>

lemma run_resilient_total_fallback:
  assumes "total_action fb"
  shows "\<exists>x errs w'. run_resilient step node p (Some fb) mr w = (Inr (x, errs), w')"
proof -
  obtain es r w1 where p: "first_success (replicate (nat (1 + mr)) p) w = ((es, r), w1)"
    by (metis surj_pair)
  then show ?thesis
    using total_actionD [OF assms, of w1]
    by (cases r) (auto simp: run_resilient_eq budget_def first_success_append)
qed

lemma run_resilient_total_primary:
  assumes "total_action p" and "0 \<le> mr"
  shows "\<exists>x w'. p w = (Inr x, w') \<and> run_resilient step node p f mr w = (Inr (x, []), w')"
proof -
  obtain k where "nat (1 + mr) = Suc k"
    using assms(2) by (metis Suc_nat_eq_nat_zadd1)
  then show ?thesis using total_actionD [OF assms(1), of w]
    by (auto simp: run_resilient_def)
qed

lemma run_resilient_always_fails:
  assumes "\<And>w. \<exists>e w'. p w = (Inl e, w')"
  shows "\<exists>errs w'. run_resilient step node p None mr w = (Inl (StepExhausted step errs), w')"
proof -
  obtain es w' where "first_success (replicate (nat (1 + mr)) p) w = ((es, None), w')"
    using first_success_all_fail [of p "nat (1 + mr)" w] assms by blast
  then show ?thesis by (simp add: run_resilient_eq budget_def)
qed

section \<open>Properties\<close>

text \<open>C21: the retry loop is equivalent to its specification. \<open>run_resilient\<close> returns the value of
  the first call of its budget - the primary step \<open>1 + max_retries\<close> times, then the fallback once -
  that returns, with the history of the failed calls before it, and raises \<open>StepExhaustedError\<close>
  with the whole history only when every call of the budget fails.\<close>

theorem resilient_first_success:
  "run_resilient step node primary fb mr w =
     (case first_success (budget primary fb mr) w of
        ((es, Some x), w') \<Rightarrow> (Inr (x, resilient_errors node mr es), w')
      | ((es, None), w') \<Rightarrow> (Inl (StepExhausted step (resilient_errors node mr es)), w'))"
  by (rule run_resilient_eq)

text \<open>C22: the error history of a step is bounded and numbered. A success leaves fewer errors than the
  budget has calls, exhaustion exactly as many; the errors carry the name of the node and the
  attempts 1, 2, ... in order.\<close>

theorem resilient_history:
  assumes "run_resilient step node primary fb mr w = (r, w')"
    and "errs = (case r of Inl x \<Rightarrow> se_errors x | Inr (y, es) \<Rightarrow> es)"
  shows "map attempt errs = [1..<Suc (length errs)] \<and> (\<forall>e \<in> set errs. pe_node e = node)
    \<and> (case r of Inl x \<Rightarrow> se_step x = step \<and> length errs = nat (1 + mr) + (if fb = None then 0 else 1)
        | Inr _ \<Rightarrow> length errs < nat (1 + mr) + (if fb = None then 0 else 1))"
proof -
  obtain es o1 w1 where f: "first_success (budget primary fb mr) w = ((es, o1), w1)"
    by (metis prod.exhaust)
  have len: "length es \<le> nat (1 + mr) + (if fb = None then 0 else 1)"
    using first_success_None_length [of "budget primary fb mr" w es]
      first_success_Some_length [of "budget primary fb mr" w es] f
    by (cases o1) (force simp: length_budget)+
  then have num: "map attempt (resilient_errors node mr es) = [1..<Suc (length es)]"
    by (intro resilient_errors_attempts) (simp split: if_splits)
  show ?thesis
  proof (cases o1)
    case None
    then have "r = Inl (StepExhausted step (resilient_errors node mr es))"
      using assms(1) f by (simp add: run_resilient_eq)
    then show ?thesis
      using assms(2) num first_success_None_length [OF f [unfolded None]] resilient_errors_node
      by (auto simp: length_budget)
  next
    case (Some x)
    then have "r = Inr (x, resilient_errors node mr es)" using assms(1) f by (simp add: run_resilient_eq)
    then show ?thesis
      using assms(2) num first_success_Some_length [OF f [unfolded Some]] resilient_errors_node
      by (auto simp: length_budget)
  qed
qed

lemma resilient_history_witness:
  "map attempt (se_errors (StepExhausted ROUTER [perr ''router'' (Exn ''E'' ''m'') [] 1,
      perr ''router'' (Exn ''E'' ''m'') [] 2])) = [1, 2]"
proof -
  let ?p = "(\<lambda>w. (Inl (Exn ''E'' ''m''), w)) :: (unit, unit) action"
  have "run_resilient ROUTER ''router'' ?p None 1 () =
      (Inl (StepExhausted ROUTER [perr ''router'' (Exn ''E'' ''m'') [] 1, perr ''router'' (Exn ''E'' ''m'') [] 2]), ())"
    by (simp add: run_resilient_def eval_nat_numeral)
  from resilient_history [OF this refl] show ?thesis by (simp add: upt_rec)
qed

end
