(* ===== verification/AuditSink.thy ===== *)
theory AuditSink
  imports Schemas "HOL-Library.Sublist" "HOL-Library.Multiset"
begin

text \<open>
  \<open>audit/sink.py\<close> and the sink of \<open>persistence/db.py\<close>. An event carries its payload as
  keyword arguments; the payload values keep the objects the nodes pass (their
  \<open>model_dump\<close> is their JSON form). A sink is a pair
  of operations on its own store; the locale \<open>audit_sink\<close> states what the pipeline relies on
  (an emitted event is the last one of its case, other cases are untouched) and holds for both
  sinks; \<open>safe_emit\<close> never raises whatever its inner sink does.
\<close>

datatype pval =
    PStr string
  | PStrs "string list"
  | PJson jval
  | PBool bool
  | PNum rat
  | PNat nat
  | PNone
  | PCustomer customer_type
  | PDocType document_type
  | PClassified "classified_document list"
  | PErrors "processing_error list"
  | PFields "(string, jval) dict"
  | PConfidences "(string, rat) dict"
  | PRule rule_id
  | PRules "rule_id list"
  | PSeverity severity
  | PChecks "field_check list"
  | PFlags "rule_flag list"
  | PHits "registry_hit list"
  | PRegistry registry_name
  | PLevel risk_level
  | POutcome decision_outcome
  | PDecidedBy decided_by

record audit_event =
  ev_case_id :: string
  ev_ts :: nat
  ev_node :: string
  event_type :: string
  payload :: "(string \<times> pval) list"

text \<open>The wrapper the nodes call; \<open>now\<close> is the clock that stamps a new event.\<close>

definition emit ::
  "('w \<Rightarrow> nat \<times> 'w) \<Rightarrow> (audit_event \<Rightarrow> ('w, unit) action) \<Rightarrow> string \<Rightarrow> string \<Rightarrow> string
    \<Rightarrow> (string \<times> pval) list \<Rightarrow> ('w, unit) action" where
  "emit now sink case_id node ty args =
     abind (pure_st now) (\<lambda>t. sink \<lparr>ev_case_id = case_id, ev_ts = t, ev_node = node,
                                    event_type = ty, payload = args\<rparr>)"

lemma total_emit [intro]: "(\<And>e. total_action (sink e)) \<Longrightarrow> total_action (emit now sink c n t args)"
  unfolding emit_def by (intro total_abind) auto

section \<open>SafeAuditSink\<close>

text \<open>Write failures are logged and swallowed; reads go to the inner sink.\<close>

definition safe_emit :: "(audit_event \<Rightarrow> ('w, unit) action) \<Rightarrow> audit_event \<Rightarrow> ('w, unit) action" where
  "safe_emit inner e = (\<lambda>w. case inner e w of (Inl _, w') \<Rightarrow> (Inr (), w') | (Inr _, w') \<Rightarrow> (Inr (), w'))"

lemma safe_emit_snd: "safe_emit inner e w = (Inr (), snd (inner e w))"
  by (simp add: safe_emit_def split: prod.splits sum.splits)

lemma total_safe_emit [intro, simp]: "total_action (safe_emit inner e)"
  by (simp add: total_action_def safe_emit_snd)

section \<open>What the pipeline relies on\<close>

text \<open>
  \<open>upto s t\<close>: no event of the store is later than \<open>t\<close>. An event not earlier than the store
  is either appended to the events of its case or not stored at all.
\<close>

definition appended :: "(string \<Rightarrow> 's \<Rightarrow> audit_event list) \<Rightarrow> audit_event \<Rightarrow> 's \<Rightarrow> 's \<Rightarrow> bool" where
  "appended events e s s' \<longleftrightarrow>
     (\<forall>c. events c s' = events c s @ (if c = ev_case_id e then [e] else []))"

definition unchanged :: "(string \<Rightarrow> 's \<Rightarrow> audit_event list) \<Rightarrow> 's \<Rightarrow> 's \<Rightarrow> bool" where
  "unchanged events s s' \<longleftrightarrow> (\<forall>c. events c s' = events c s)"

text \<open>The store after a run of emits, failed ones included.\<close>

definition emit_all :: "(audit_event \<Rightarrow> ('s, unit) action) \<Rightarrow> audit_event list \<Rightarrow> 's \<Rightarrow> 's" where
  "emit_all sink es s = fold (\<lambda>e s. snd (sink e s)) es s"

lemma emit_all_simps [simp]:
  "emit_all sink [] s = s" "emit_all sink (e # es) s = emit_all sink es (snd (sink e s))"
  "emit_all sink (es @ fs) s = emit_all sink fs (emit_all sink es s)"
  by (simp_all add: emit_all_def)

locale audit_sink =
  fixes sink :: "audit_event \<Rightarrow> ('s, unit) action"
    and events :: "string \<Rightarrow> 's \<Rightarrow> audit_event list"
    and upto :: "'s \<Rightarrow> nat \<Rightarrow> bool"
  assumes stores: "upto s (ev_ts e) \<Longrightarrow> appended events e s (snd (sink e s)) \<or> unchanged events s (snd (sink e s))"
    and upto_emit: "upto s (ev_ts e) \<Longrightarrow> upto (snd (sink e s)) (ev_ts e)"
    and upto_mono: "upto s t \<Longrightarrow> t \<le> t' \<Longrightarrow> upto s t'"
begin

text \<open>Events none of which is earlier than the store it is emitted to.\<close>

fun in_order :: "'s \<Rightarrow> audit_event list \<Rightarrow> bool" where
  "in_order s [] \<longleftrightarrow> True"
| "in_order s (e # es) \<longleftrightarrow> upto s (ev_ts e) \<and> in_order (snd (sink e s)) es"

lemma in_order_append: "in_order s (es @ fs) \<longleftrightarrow> in_order s es \<and> in_order (emit_all sink es s) fs"
  by (induction es arbitrary: s) auto

lemma in_order_sorted:
  "sorted (map ev_ts es) \<Longrightarrow> es = [] \<or> upto s (ev_ts (hd es)) \<Longrightarrow> in_order s es"
proof (induction es arbitrary: s)
  case (Cons e es)
  then have "upto (snd (sink e s)) (ev_ts e)" by (simp add: upto_emit)
  then have "es = [] \<or> upto (snd (sink e s)) (ev_ts (hd es))" using Cons.prems(1) upto_mono by (cases es) auto
  then show ?case using Cons by simp
qed simp

text \<open>The trail of a case only grows, at its end.\<close>

lemma trail:
  assumes "in_order s es"
  shows "prefix (events c s) (events c (emit_all sink es s))"
  using assms
proof (induction es arbitrary: s)
  case (Cons e es)
  have "upto s (ev_ts e)" using Cons.prems by simp
  from stores [OF this] have "prefix (events c s) (events c (snd (sink e s)))"
    by (auto simp: appended_def unchanged_def)
  also have "prefix \<dots> (events c (emit_all sink (e # es) s))"
    using Cons.IH Cons.prems by simp
  finally show ?case .
qed simp

end

text \<open>A sink that says so when it did not store.\<close>

locale honest_sink = audit_sink +
  assumes returned: "upto s (ev_ts e) \<Longrightarrow> sink e s = (Inr u, s') \<Longrightarrow> appended events e s s'"
    and raised: "sink e s = (Inl x, s') \<Longrightarrow> unchanged events s s'"
begin

lemma all_returned:
  assumes "in_order s es" and "\<And>e s. \<exists>s'. sink e s = (Inr (), s')"
  shows "events c (emit_all sink es s) = events c s @ filter (\<lambda>e. ev_case_id e = c) es"
  using assms(1)
proof (induction es arbitrary: s)
  case (Cons e es)
  obtain s' where s': "sink e s = (Inr (), s')" using assms(2) by blast
  have "upto s (ev_ts e)" using Cons.prems by simp
  from returned [OF this s'] show ?case using Cons.IH [of s'] Cons.prems s' by (simp add: appended_def)
qed simp

end

text \<open>The decorator of an honest sink is a sink.\<close>

sublocale honest_sink \<subseteq> safe: audit_sink "safe_emit sink" events upto
  by unfold_locales (auto simp: safe_emit_snd stores upto_emit intro: upto_mono)

section \<open>InMemoryAuditSink\<close>

definition mem_emit :: "audit_event \<Rightarrow> (audit_event list, unit) action" where
  "mem_emit e = (\<lambda>es. (Inr (), es @ [e]))"

definition mem_events :: "string \<Rightarrow> audit_event list \<Rightarrow> audit_event list" where
  "mem_events case_id es = filter (\<lambda>e. ev_case_id e = case_id) es"

interpretation mem: honest_sink mem_emit mem_events "\<lambda>_ _. True"
  by unfold_locales (auto simp: mem_emit_def mem_events_def appended_def unchanged_def)

lemma mem_in_order: "mem.in_order s es"
  by (induction es arbitrary: s) simp_all

lemma total_mem_emit [intro, simp]: "total_action (mem_emit e)"
  by (simp add: total_action_def mem_emit_def)

section \<open>PostgresAuditSink\<close>

text \<open>
  The \<open>audit_events\<close> table: rows in insertion order with a serial id. The database is a
  parameter only in its availability: \<open>up\<close> tells for each statement whether it executes; a
  statement that does not raises and changes nothing.
\<close>

record audit_row =
  row_id :: nat
  row_event :: audit_event

record pg_state =
  pg_rows :: "audit_row list"
  pg_next_id :: nat
  pg_statements :: nat

definition pg_error :: exn where
  "pg_error = Exn ''OperationalError'' ''connection failed''"

definition pg_emit :: "(nat \<Rightarrow> bool) \<Rightarrow> audit_event \<Rightarrow> (pg_state, unit) action" where
  "pg_emit up e = (\<lambda>s.
     if up (pg_statements s)
     then (Inr (), s\<lparr>pg_rows := pg_rows s @ [\<lparr>row_id = pg_next_id s, row_event = e\<rparr>],
                     pg_next_id := pg_next_id s + 1, pg_statements := pg_statements s + 1\<rparr>)
     else (Inl pg_error, s\<lparr>pg_statements := pg_statements s + 1\<rparr>))"

text \<open>\<open>SELECT ... WHERE case_id = %s ORDER BY ts, id\<close>: two stable sorts.\<close>

definition pg_select :: "string \<Rightarrow> pg_state \<Rightarrow> audit_event list" where
  "pg_select case_id s =
     map row_event (sort_key (\<lambda>r. ev_ts (row_event r)) (sort_key row_id
       (filter (\<lambda>r. ev_case_id (row_event r) = case_id) (pg_rows s))))"

definition pg_events :: "(nat \<Rightarrow> bool) \<Rightarrow> string \<Rightarrow> (pg_state, audit_event list) action" where
  "pg_events up case_id = (\<lambda>s.
     (if up (pg_statements s) then Inr (pg_select case_id s) else Inl pg_error,
      s\<lparr>pg_statements := pg_statements s + 1\<rparr>))"

text \<open>Serial ids are fresh, and rows in insertion order are in order of time.\<close>

definition pg_upto :: "pg_state \<Rightarrow> nat \<Rightarrow> bool" where
  "pg_upto s t \<longleftrightarrow> sorted (map row_id (pg_rows s)) \<and> (\<forall>r \<in> set (pg_rows s). row_id r < pg_next_id s)
     \<and> sorted (map (\<lambda>r. ev_ts (row_event r)) (pg_rows s)) \<and> (\<forall>r \<in> set (pg_rows s). ev_ts (row_event r) \<le> t)"

lemma pg_select_in_order:
  assumes "sorted (map row_id (pg_rows s))" and "sorted (map (\<lambda>r. ev_ts (row_event r)) (pg_rows s))"
  shows "pg_select c s = map row_event (filter (\<lambda>r. ev_case_id (row_event r) = c) (pg_rows s))"
proof -
  have f: "sorted (map k (filter P xs))" if "sorted (map k xs)" for P xs and k :: "audit_row \<Rightarrow> nat"
    using that by (rule sorted_filter)
  show ?thesis
    unfolding pg_select_def using f [OF assms(1)] f [OF assms(2)] by (simp add: sort_key_id_if_sorted)
qed

lemma pg_upto_emit:
  assumes "pg_upto s (ev_ts e)"
  shows "pg_upto (snd (pg_emit up e s)) (ev_ts e)"
  using assms by (force simp: pg_upto_def pg_emit_def sorted_append less_Suc_eq)

lemma pg_returned:
  assumes "pg_upto s (ev_ts e)" and "pg_emit up e s = (Inr u, s')"
  shows "appended pg_select e s s'"
proof -
  have s': "s' = snd (pg_emit up e s)" and up: "up (pg_statements s)"
    using assms(2) by (auto simp: pg_emit_def split: if_splits)
  then have rows: "pg_rows s' = pg_rows s @ [\<lparr>row_id = pg_next_id s, row_event = e\<rparr>]"
    by (simp add: pg_emit_def)
  have "pg_upto s' (ev_ts e)" using pg_upto_emit [OF assms(1)] s' by simp
  then show ?thesis using assms(1) by (simp add: appended_def pg_select_in_order pg_upto_def rows)
qed

lemma pg_raised: "pg_emit up e s = (Inl x, s') \<Longrightarrow> unchanged pg_select s s'"
  by (auto simp: pg_emit_def unchanged_def pg_select_def split: if_splits)

lemma pg_stores:
  assumes "pg_upto s (ev_ts e)"
  shows "appended pg_select e s (snd (pg_emit up e s)) \<or> unchanged pg_select s (snd (pg_emit up e s))"
proof (cases "pg_emit up e s")
  case (Pair r s')
  then show ?thesis using pg_returned [OF assms] pg_raised by (cases r) fastforce+
qed

interpretation pg: honest_sink "pg_emit up" pg_select pg_upto for up
proof unfold_locales
  show "pg_upto s t \<Longrightarrow> t \<le> t' \<Longrightarrow> pg_upto s t'" for s t t' by (auto simp: pg_upto_def)
qed (fact pg_stores pg_upto_emit pg_returned pg_raised)+

text \<open>A database that is down from the start: the decorated sink keeps running and stores nothing.\<close>

lemma pg_down: "(\<And>i. \<not> up i) \<Longrightarrow> pg_select c (snd (safe_emit (pg_emit up) e s)) = pg_select c s"
  by (simp add: safe_emit_snd pg_emit_def pg_select_def)

text \<open>Whatever the clock did: the rows after a run of emits are the old ones and, in the order of the
  emits, those whose statement was executed, and the sort is stable.\<close>

definition serial :: "pg_state \<Rightarrow> bool" where
  "serial s \<longleftrightarrow> sorted (map row_id (pg_rows s)) \<and> (\<forall>r \<in> set (pg_rows s). row_id r < pg_next_id s)"

definition executed :: "(nat \<Rightarrow> bool) \<Rightarrow> nat \<Rightarrow> audit_event list \<Rightarrow> audit_event list" where
  "executed up n es = map snd (filter (\<lambda>(i, e). up i) (enumerate n es))"

lemma executed_simps [simp]:
  "executed up n [] = []" "executed up n (e # es) = (if up n then [e] else []) @ executed up (Suc n) es"
  by (simp_all add: executed_def)

lemma pg_emit_rows:
  assumes "serial s"
  shows "serial (snd (pg_emit up e s)) \<and> pg_statements (snd (pg_emit up e s)) = Suc (pg_statements s)
    \<and> map row_event (pg_rows (snd (pg_emit up e s))) =
        map row_event (pg_rows s) @ (if up (pg_statements s) then [e] else [])"
  using assms by (force simp: serial_def pg_emit_def sorted_append less_Suc_eq)

lemma pg_rows_after:
  "serial s \<Longrightarrow> serial (emit_all (safe_emit (pg_emit up)) es s)
    \<and> map row_event (pg_rows (emit_all (safe_emit (pg_emit up)) es s)) =
        map row_event (pg_rows s) @ executed up (pg_statements s) es"
proof (induction es arbitrary: s)
  case (Cons e es)
  note step = pg_emit_rows [OF Cons.prems, of up e]
  from Cons.IH [of "snd (pg_emit up e s)"] step show ?case by (simp add: safe_emit_snd)
qed simp

lemma map_sort_key: "map f (sort_key (\<lambda>x. g (f x)) xs) = sort_key g (map f xs)"
proof -
  have ins: "map f (insort_key (\<lambda>x. g (f x)) x xs) = insort_key g (f x) (map f xs)" for x xs
    by (induction xs) simp_all
  show ?thesis by (induction xs) (simp_all add: ins)
qed

lemma pg_select_serial:
  assumes "serial s"
  shows "pg_select c s = sort_key ev_ts (filter (\<lambda>e. ev_case_id e = c) (map row_event (pg_rows s)))"
proof -
  let ?rows = "filter (\<lambda>r. ev_case_id (row_event r) = c) (pg_rows s)"
  have "sorted (map row_id ?rows)" using assms by (auto simp: serial_def intro: sorted_filter)
  then have "sort_key row_id ?rows = ?rows" by (rule sort_key_id_if_sorted)
  then show ?thesis by (simp add: pg_select_def map_sort_key filter_map comp_def)
qed

lemma sort_key_append_sorted: "sort_key k (sort_key k xs @ ys) = sort_key k (xs @ ys)"
proof (rule properties_for_sort_key)
  have eq: "(\<lambda>y. k x = k y) = (\<lambda>y. k y = k x)" for x by auto
  show "filter (\<lambda>y. k x = k y) (sort_key k (xs @ ys)) = filter (\<lambda>y. k x = k y) (sort_key k xs @ ys)" for x
    unfolding eq by (simp add: sort_key_stable)
qed simp_all

section \<open>Properties\<close>

text \<open>C27: the audit trail in the database. On a table with serial ids, whatever statements fail and
  whatever the clock does, no emit of the decorated sink raises, and the trail of a case is read as
  the old trail followed by the emitted events of the case whose insert was executed - all of them,
  once each, and no others -, put in order of their timestamps with ties in the order of the inserts.
  When the timestamps come in order, that is the old trail with the stored events appended.\<close>

theorem database_trail:
  assumes "sorted (map row_id (pg_rows s))" "\<forall>r \<in> set (pg_rows s). row_id r < pg_next_id s"
  shows "let s' = fold (\<lambda>e s. snd (safe_emit (pg_emit up) e s)) es s;
      stored = map snd (filter (\<lambda>(i, e). up i) (enumerate (pg_statements s) es));
      trail = pg_select c s @ filter (\<lambda>e. ev_case_id e = c) stored
    in pg_select c s' = sort_key ev_ts trail
      \<and> (sorted (map ev_ts trail) \<longrightarrow> pg_select c s' = trail)
      \<and> fst (safe_emit (pg_emit up) e w) = Inr ()"
proof -
  have s: "serial s" using assms by (simp add: serial_def)
  let ?s = "emit_all (safe_emit (pg_emit up)) es s"
  let ?trail = "pg_select c s @ filter (\<lambda>e. ev_case_id e = c) (executed up (pg_statements s) es)"
  have "pg_select c ?s = sort_key ev_ts ?trail"
    using pg_rows_after [OF s, of up es] by (simp add: pg_select_serial s sort_key_append_sorted)
  then show ?thesis
    unfolding emit_all_def executed_def by (simp add: Let_def safe_emit_snd sort_key_id_if_sorted)
qed

lemma database_trail_witness:
  "let ev = \<lambda>t n. \<lparr>ev_case_id = ''a'', ev_ts = t, ev_node = n, event_type = ''t'', payload = []\<rparr>;
      s = \<lparr>pg_rows = [\<lparr>row_id = 1, row_event = ev 5 ''old''\<rparr>], pg_next_id = 2, pg_statements = 0\<rparr>;
      es = [ev 7 ''kept'', ev 8 ''lost'', ev 6 ''late'']
    in pg_select ''a'' (fold (\<lambda>e s. snd (safe_emit (pg_emit (\<lambda>i. i \<noteq> 1)) e s)) es s) =
         [ev 5 ''old'', ev 6 ''late'', ev 7 ''kept'']"
proof -
  let ?ev = "\<lambda>t n. \<lparr>ev_case_id = ''a'', ev_ts = t, ev_node = n, event_type = ''t'', payload = []\<rparr>"
  let ?s = "\<lparr>pg_rows = [\<lparr>row_id = 1, row_event = ?ev 5 ''old''\<rparr>], pg_next_id = 2, pg_statements = 0\<rparr>"
  let ?es = "[?ev 7 ''kept'', ?ev 8 ''lost'', ?ev 6 ''late'']"
  have ids: "sorted (map row_id (pg_rows ?s))" "\<forall>r \<in> set (pg_rows ?s). row_id r < pg_next_id ?s" by simp_all
  have "pg_select ''a'' ?s = [?ev 5 ''old'']" by (simp add: pg_select_def)
  with database_trail [OF ids, where up = "\<lambda>i. i \<noteq> 1" and es = ?es and c = "''a''"]
  have "pg_select ''a'' (fold (\<lambda>e s. snd (safe_emit (pg_emit (\<lambda>i. i \<noteq> 1)) e s)) ?es ?s) =
      sort_key ev_ts [?ev 5 ''old'', ?ev 7 ''kept'', ?ev 6 ''late'']" by (simp add: Let_def del: fold_simps)
  then show ?thesis by (simp add: Let_def del: fold_simps)
qed

end
