(* ===== verification/Difflib.thy ===== *)
theory Difflib
  imports PyFloat "HOL-Library.Multiset"
begin

text \<open>
  \<open>difflib.SequenceMatcher(None, a, b).ratio()\<close> of the standard library, which the name
  and address checks and the mock registries call: the index \<open>b2j\<close> with the autojunk
  rule for texts of 200 and more characters, \<open>find_longest_match\<close> with its dynamic
  programming row \<open>j2len\<close> and its two extension loops, and the queue of
  \<open>get_matching_blocks\<close>. \<open>ratio\<close> sums the sizes of the blocks, which the final sort and
  merge of adjacent blocks leave unchanged.

  Lemmas: every block is a common substring inside its window, the queue terminates, the
  ratio lies between 0 and 1, equal texts have ratio 1 (also under autojunk), and texts that
  share few characters, as multisets, have a small one.
\<close>

section \<open>find_longest_match\<close>

definition popular :: "string \<Rightarrow> char \<Rightarrow> bool" where
  "popular b c \<longleftrightarrow> 200 \<le> length b \<and> length b div 100 + 1 < count_list b c"

definition b2j :: "string \<Rightarrow> char \<Rightarrow> nat list" where
  "b2j b c = (if popular b c then [] else filter (\<lambda>j. b ! j = c) [0..<length b])"

type_synonym block = "nat \<times> nat \<times> nat"

definition j2len_get :: "(nat \<rightharpoonup> nat) \<Rightarrow> nat \<Rightarrow> nat" where
  "j2len_get m j = (if j = 0 then 0 else case m (j - 1) of None \<Rightarrow> 0 | Some n \<Rightarrow> n)"

fun flm_inner :: "nat \<Rightarrow> nat \<Rightarrow> nat \<Rightarrow> (nat \<rightharpoonup> nat) \<Rightarrow> nat list \<Rightarrow> block \<Rightarrow> (nat \<rightharpoonup> nat)
    \<Rightarrow> block \<times> (nat \<rightharpoonup> nat)" where
  "flm_inner blo bhi i j2len [] best new = (best, new)"
| "flm_inner blo bhi i j2len (j # js) best new =
     (if j < blo then flm_inner blo bhi i j2len js best new
      else if bhi \<le> j then (best, new)
      else (let k = j2len_get j2len j + 1
            in flm_inner blo bhi i j2len js
                 (if snd (snd best) < k then (i + 1 - k, j + 1 - k, k) else best)
                 (new(j \<mapsto> k))))"

fun flm_outer :: "string \<Rightarrow> string \<Rightarrow> nat \<Rightarrow> nat \<Rightarrow> nat list \<Rightarrow> block \<Rightarrow> (nat \<rightharpoonup> nat) \<Rightarrow> block" where
  "flm_outer a b blo bhi [] best j2len = best"
| "flm_outer a b blo bhi (i # is) best j2len =
     (let (best', new) = flm_inner blo bhi i j2len (b2j b (a ! i)) best Map.empty
      in flm_outer a b blo bhi is best' new)"

fun extend_back :: "string \<Rightarrow> string \<Rightarrow> nat \<Rightarrow> nat \<Rightarrow> nat \<Rightarrow> nat \<Rightarrow> nat \<Rightarrow> block" where
  "extend_back a b alo blo i j k =
     (if alo < i \<and> blo < j \<and> a ! (i - 1) = b ! (j - 1)
      then extend_back a b alo blo (i - 1) (j - 1) (k + 1) else (i, j, k))"

function extend_fwd :: "string \<Rightarrow> string \<Rightarrow> nat \<Rightarrow> nat \<Rightarrow> nat \<Rightarrow> nat \<Rightarrow> nat \<Rightarrow> block" where
  "extend_fwd a b ahi bhi i j k =
     (if i + k < ahi \<and> j + k < bhi \<and> a ! (i + k) = b ! (j + k)
      then extend_fwd a b ahi bhi i j (k + 1) else (i, j, k))"
  by pat_completeness auto
termination
  by (relation "measure (\<lambda>(a, b, ahi, bhi, i, j, k). ahi - (i + k))") auto

declare extend_back.simps [simp del] extend_fwd.simps [simp del]

definition find_longest_match :: "string \<Rightarrow> string \<Rightarrow> nat \<Rightarrow> nat \<Rightarrow> nat \<Rightarrow> nat \<Rightarrow> block" where
  "find_longest_match a b alo ahi blo bhi =
     (case flm_outer a b blo bhi [alo..<ahi] (alo, blo, 0) Map.empty of (i, j, k) \<Rightarrow>
        (case extend_back a b alo blo i j k of (i', j', k') \<Rightarrow> extend_fwd a b ahi bhi i' j' k'))"

text \<open>A common substring inside the window.\<close>

definition common :: "string \<Rightarrow> string \<Rightarrow> nat \<Rightarrow> nat \<Rightarrow> nat \<Rightarrow> bool" where
  "common a b i j k \<longleftrightarrow> (\<forall>t < k. a ! (i + t) = b ! (j + t))"

definition block_ok :: "string \<Rightarrow> string \<Rightarrow> nat \<Rightarrow> nat \<Rightarrow> nat \<Rightarrow> nat \<Rightarrow> block \<Rightarrow> bool" where
  "block_ok a b alo ahi blo bhi = (\<lambda>(i, j, k).
     if k = 0 then i = alo \<and> j = blo
     else alo \<le> i \<and> i + k \<le> ahi \<and> blo \<le> j \<and> j + k \<le> bhi \<and> common a b i j k)"

definition row_ok :: "string \<Rightarrow> string \<Rightarrow> nat \<Rightarrow> nat \<Rightarrow> nat \<Rightarrow> nat \<Rightarrow> (nat \<rightharpoonup> nat) \<Rightarrow> bool" where
  "row_ok a b alo blo bhi i m \<longleftrightarrow> (\<forall>j n. m j = Some n \<longrightarrow>
     n \<le> i - alo \<and> blo \<le> j \<and> j < bhi \<and> blo + n \<le> j + 1 \<and> common a b (i - n) (j + 1 - n) n)"

lemma row_ok_empty [simp]: "row_ok a b alo blo bhi i Map.empty"
  by (simp add: row_ok_def)

lemma row_step:
  assumes row: "row_ok a b alo blo bhi i m" and "alo \<le> i" and j: "blo \<le> j" "j < bhi"
    and eq: "a ! i = b ! j" and k: "k = j2len_get m j + 1"
  shows "k \<le> Suc i - alo" "blo + k \<le> j + 1" "common a b (Suc i - k) (j + 1 - k) k" "0 < k"
proof -
  define n where "n = j2len_get m j"
  have n: "n \<le> i - alo \<and> blo + n \<le> j \<and> common a b (i - n) (j - n) n"
  proof (cases "n = 0")
    case True
    with j show ?thesis by (simp add: common_def)
  next
    case False
    then have j': "j = Suc (j - 1)" "m (j - 1) = Some n"
      by (auto simp: n_def j2len_get_def split: if_splits option.splits)
    from row j'(2) have "n \<le> i - alo \<and> blo + n \<le> j - 1 + 1 \<and> common a b (i - n) (j - 1 + 1 - n) n"
      unfolding row_ok_def by blast
    moreover have "j - 1 + 1 = j" using j'(1) by simp
    ultimately show ?thesis by (simp only:)
  qed
  have "common a b (i - n) (j - n) (n + 1)"
    unfolding common_def
  proof (intro allI impI)
    fix t assume "t < n + 1"
    then consider "t < n" | "t = n" by linarith
    then show "a ! (i - n + t) = b ! (j - n + t)"
      using n eq by cases (auto simp: common_def)
  qed
  with n \<open>alo \<le> i\<close> show "k \<le> Suc i - alo" "blo + k \<le> j + 1"
    "common a b (Suc i - k) (j + 1 - k) k" "0 < k"
    by (auto simp: k n_def [symmetric])
qed

lemma flm_inner_ok:
  assumes "flm_inner blo bhi i m js best new = (best', new')"
    and "row_ok a b alo blo bhi i m" "row_ok a b alo blo bhi (Suc i) new"
    and "block_ok a b alo ahi blo bhi best" "alo \<le> i" "i < ahi" "\<forall>j \<in> set js. b ! j = a ! i"
  shows "row_ok a b alo blo bhi (Suc i) new' \<and> block_ok a b alo ahi blo bhi best'"
  using assms
proof (induction blo bhi i m js best new rule: flm_inner.induct)
  case (1 blo bhi i m best new)
  then show ?case by simp
next
  case (2 blo bhi i m j js best new)
  consider "j < blo" | "\<not> j < blo" "bhi \<le> j" | "\<not> j < blo" "\<not> bhi \<le> j" by blast
  then show ?case
  proof cases
    case 1
    with "2.prems" show ?thesis by (intro "2.IH"(1)) auto
  next
    case 2
    with "2.prems" show ?thesis by auto
  next
    case 3
    define k where "k = j2len_get m j + 1"
    from 3 have j: "blo \<le> j" "j < bhi" by auto
    have step: "k \<le> Suc i - alo" "blo + k \<le> j + 1" "common a b (Suc i - k) (j + 1 - k) k" "0 < k"
      using row_step [OF "2.prems"(2,5) j _ k_def] "2.prems"(7) by auto
    let ?best = "if snd (snd best) < k then (i + 1 - k, j + 1 - k, k) else best"
    have new: "row_ok a b alo blo bhi (Suc i) (new(j \<mapsto> k))"
      using "2.prems"(3) step j by (auto simp: row_ok_def)
    have best: "block_ok a b alo ahi blo bhi ?best"
      using "2.prems"(4,5,6) step j by (auto simp: block_ok_def)
    have tail: "flm_inner blo bhi i m js ?best (new(j \<mapsto> k)) = (best', new')"
      using "2.prems"(1) 3 by (simp add: k_def Let_def split: if_splits)
    from "2.prems"(7) have "\<forall>j \<in> set js. b ! j = a ! i" by simp
    from "2.IH"(2) [OF 3 k_def tail "2.prems"(2) new best "2.prems"(5,6) this]
    show ?thesis .
  qed
qed

lemma b2j_eq: "j \<in> set (b2j b c) \<Longrightarrow> b ! j = c"
  by (auto simp: b2j_def split: if_splits)

lemma flm_outer_ok:
  assumes "row_ok a b alo blo bhi i m" "block_ok a b alo ahi blo bhi best" "alo \<le> i"
  shows "block_ok a b alo ahi blo bhi (flm_outer a b blo bhi [i..<ahi] best m)"
  using assms
proof (induction "ahi - i" arbitrary: i m best)
  case 0
  then show ?case by simp
next
  case (Suc n)
  then have i: "[i..<ahi] = i # [Suc i..<ahi]" "i < ahi" by (auto simp: upt_conv_Cons)
  obtain best' new where step: "flm_inner blo bhi i m (b2j b (a ! i)) best Map.empty = (best', new)"
    by (metis surj_pair)
  then have "row_ok a b alo blo bhi (Suc i) new \<and> block_ok a b alo ahi blo bhi best'"
    using Suc.prems i(2) by (intro flm_inner_ok) (auto dest: b2j_eq)
  with Suc.hyps(1) [of "Suc i" new best'] Suc.hyps(2) Suc.prems(3) show ?case
    by (simp add: i step)
qed

lemma common_back: "common a b i j k \<Longrightarrow> 0 < i \<Longrightarrow> 0 < j \<Longrightarrow> a ! (i - 1) = b ! (j - 1)
    \<Longrightarrow> common a b (i - 1) (j - 1) (k + 1)"
  unfolding common_def
proof (intro allI impI)
  fix t
  assume *: "\<forall>t < k. a ! (i + t) = b ! (j + t)" "0 < i" "0 < j" "a ! (i - 1) = b ! (j - 1)" "t < k + 1"
  show "a ! (i - 1 + t) = b ! (j - 1 + t)"
  proof (cases t)
    case (Suc s)
    with * have "a ! (i + s) = b ! (j + s)" by simp
    with Suc *(2,3) show ?thesis by simp
  qed (use * in simp)
qed

lemma common_fwd: "common a b i j k \<Longrightarrow> a ! (i + k) = b ! (j + k) \<Longrightarrow> common a b i j (k + 1)"
  by (auto simp: common_def less_Suc_eq)

lemma extend_back_ok:
  assumes "extend_back a b alo blo i j k = (i', j', k')"
    and "alo \<le> i" "i + k \<le> ahi" "blo \<le> j" "j + k \<le> bhi" "common a b i j k"
  shows "alo \<le> i' \<and> i' + k' \<le> ahi \<and> blo \<le> j' \<and> j' + k' \<le> bhi \<and> common a b i' j' k' \<and> k \<le> k'"
  using assms
proof (induction a b alo blo i j k rule: extend_back.induct)
  case (1 a b alo blo i j k)
  show ?case
  proof (cases "alo < i \<and> blo < j \<and> a ! (i - 1) = b ! (j - 1)")
    case True
    then have "alo \<le> i - 1" "i - 1 + (k + 1) \<le> ahi" "blo \<le> j - 1" "j - 1 + (k + 1) \<le> bhi"
      and "common a b (i - 1) (j - 1) (k + 1)"
      using "1.prems" common_back [of a b i j k] by auto
    moreover have "extend_back a b alo blo (i - 1) (j - 1) (k + 1) = (i', j', k')"
      using True "1.prems"(1) by (simp add: extend_back.simps [of a b alo blo i j k])
    ultimately have "alo \<le> i' \<and> i' + k' \<le> ahi \<and> blo \<le> j' \<and> j' + k' \<le> bhi \<and>
        common a b i' j' k' \<and> k + 1 \<le> k'"
      using "1.IH" [OF True] by blast
    then show ?thesis by simp
  next
    case False
    with "1.prems" show ?thesis by (auto simp: extend_back.simps [of a b alo blo i j k])
  qed
qed

lemma extend_fwd_ok:
  assumes "extend_fwd a b ahi bhi i j k = (i', j', k')"
    and "k = 0 \<or> (i + k \<le> ahi \<and> j + k \<le> bhi)" "common a b i j k"
  shows "i' = i \<and> j' = j \<and> k \<le> k' \<and> common a b i' j' k' \<and> (k' = 0 \<or> (i' + k' \<le> ahi \<and> j' + k' \<le> bhi))"
  using assms
proof (induction a b ahi bhi i j k rule: extend_fwd.induct)
  case (1 a b ahi bhi i j k)
  show ?case
  proof (cases "i + k < ahi \<and> j + k < bhi \<and> a ! (i + k) = b ! (j + k)")
    case True
    with "1.prems" "1.IH" [OF True] common_fwd [of a b i j k] show ?thesis
      by (auto simp: extend_fwd.simps [of a b ahi bhi i j k])
  next
    case False
    with "1.prems" show ?thesis by (auto simp: extend_fwd.simps [of a b ahi bhi i j k])
  qed
qed

lemma find_longest_match_ok:
  assumes "find_longest_match a b alo ahi blo bhi = (i, j, k)" and "0 < k"
  shows "alo \<le> i" "i + k \<le> ahi" "blo \<le> j" "j + k \<le> bhi" "common a b i j k"
proof -
  obtain i0 j0 k0 where o: "flm_outer a b blo bhi [alo..<ahi] (alo, blo, 0) Map.empty = (i0, j0, k0)"
    by (metis prod_cases3)
  have ok: "block_ok a b alo ahi blo bhi (i0, j0, k0)"
    unfolding o [symmetric] by (rule flm_outer_ok) (simp_all add: block_ok_def)
  obtain i1 j1 k1 where e: "extend_back a b alo blo i0 j0 k0 = (i1, j1, k1)" by (metis prod_cases3)
  have f: "extend_fwd a b ahi bhi i1 j1 k1 = (i, j, k)"
    using assms(1) by (simp add: find_longest_match_def o e)
  have "alo \<le> i1 \<and> blo \<le> j1 \<and> (k1 = 0 \<or> (i1 + k1 \<le> ahi \<and> j1 + k1 \<le> bhi)) \<and> common a b i1 j1 k1"
  proof (cases "k0 = 0")
    case True
    with ok have "i0 = alo" "j0 = blo" by (simp_all add: block_ok_def)
    with e True show ?thesis by (auto simp: extend_back.simps [of a b alo blo alo blo 0] common_def)
  next
    case False
    with ok extend_back_ok [OF e, of ahi bhi] show ?thesis by (auto simp: block_ok_def)
  qed
  with extend_fwd_ok [OF f] assms(2)
  show "alo \<le> i" "i + k \<le> ahi" "blo \<le> j" "j + k \<le> bhi" "common a b i j k" by auto
qed

lemma find_longest_match_window:
  "(i, j, k) = find_longest_match a b alo ahi blo bhi \<Longrightarrow> 0 < k \<Longrightarrow> alo \<le> i \<and> i + k \<le> ahi"
  using find_longest_match_ok [OF sym] by blast

section \<open>get_matching_blocks and ratio\<close>

type_synonym window = "nat \<times> nat \<times> nat \<times> nat"

function matching_sizes :: "string \<Rightarrow> string \<Rightarrow> window list \<Rightarrow> nat list" where
  "matching_sizes a b [] = []"
| "matching_sizes a b ((alo, ahi, blo, bhi) # q) =
     (case find_longest_match a b alo ahi blo bhi of (i, j, k) \<Rightarrow>
        if k = 0 then matching_sizes a b q
        else k # matching_sizes a b
               ((if i + k < ahi \<and> j + k < bhi then [(i + k, ahi, j + k, bhi)] else [])
                @ (if alo < i \<and> blo < j then [(alo, i, blo, j)] else []) @ q))"
  by pat_completeness auto
termination
proof (relation "measure (\<lambda>(a, b, q). \<Sum>(alo, ahi, blo, bhi) \<leftarrow> q. 2 * (ahi - alo) + 1)", goal_cases)
  case 1
  show ?case by simp
next
  case (2 a b alo ahi blo bhi q i j k)
  then show ?case by simp
next
  case 3
  then show ?case
    by (auto dest!: find_longest_match_window)
qed

declare matching_sizes.simps(2) [simp del]

lemma window_split:
  fixes alo i k ahi blo j bhi :: nat
  assumes "alo \<le> i" "i + k \<le> ahi" "blo \<le> j" "j + k \<le> bhi"
  shows "k + (min (ahi - (i + k)) (bhi - (j + k)) + min (i - alo) (j - blo)) \<le> min (ahi - alo) (bhi - blo)"
  using assms by arith

lemma matching_sizes_le:
  "sum_list (matching_sizes a b q) \<le> (\<Sum>(alo, ahi, blo, bhi) \<leftarrow> q. min (ahi - alo) (bhi - blo))"
proof (induction a b q rule: matching_sizes.induct)
  case (1 a b)
  then show ?case by simp
next
  case (2 a b alo ahi blo bhi q)
  obtain i j k where f: "find_longest_match a b alo ahi blo bhi = (i, j, k)" by (metis prod_cases3)
  show ?case
  proof (cases "k = 0")
    case True
    with "2.IH"(1) [OF f [symmetric] refl True] show ?thesis
      by (simp add: matching_sizes.simps(2) [of a b alo ahi blo bhi q] f)
  next
    case False
    note ok = find_longest_match_ok [OF f]
    let ?W = "\<lambda>q. \<Sum>(alo, ahi, blo, bhi) \<leftarrow> q. min (ahi - alo) (bhi - blo) :: nat"
    let ?r = "if i + k < ahi \<and> j + k < bhi then [(i + k, ahi, j + k, bhi)] else []"
    let ?l = "if alo < i \<and> blo < j then [(alo, i, blo, j)] else []"
    have "sum_list (matching_sizes a b (?r @ ?l @ q)) \<le> ?W (?r @ ?l @ q)"
      by (rule "2.IH"(2) [OF f [symmetric] refl False])
    also have "\<dots> = ?W ?r + ?W ?l + ?W q" by simp
    also have "?W ?r \<le> min (ahi - (i + k)) (bhi - (j + k))" by simp
    also have "?W ?l \<le> min (i - alo) (j - blo)" by simp
    finally have "k + sum_list (matching_sizes a b (?r @ ?l @ q))
        \<le> k + (min (ahi - (i + k)) (bhi - (j + k)) + min (i - alo) (j - blo) + ?W q)" by simp
    also have "\<dots> \<le> min (ahi - alo) (bhi - blo) + ?W q"
      using window_split [of alo i k ahi blo j bhi] ok False by simp
    finally show ?thesis
      using False by (simp add: matching_sizes.simps(2) [of a b alo ahi blo bhi q] f)
  qed
qed

definition matches :: "string \<Rightarrow> string \<Rightarrow> nat" where
  "matches a b = sum_list (matching_sizes a b [(0, length a, 0, length b)])"

definition sm_ratio :: "string \<Rightarrow> string \<Rightarrow> rat" where
  "sm_ratio a b = (let n = length a + length b
     in if n = 0 then 1 else fl (2 * of_nat (matches a b) / of_nat n))"

lemma matches_le: "matches a b \<le> min (length a) (length b)"
  using matching_sizes_le [of a b "[(0, length a, 0, length b)]"] by (simp add: matches_def)

lemma sm_ratio_bounds: "0 \<le> sm_ratio a b" "sm_ratio a b \<le> 1"
proof -
  let ?n = "length a + length b" and ?m = "2 * of_nat (matches a b) :: rat"
  have "2 * matches a b \<le> ?n" using matches_le [of a b] by linarith
  then have "?m \<le> of_nat ?n" by (metis of_nat_le_iff of_nat_mult of_nat_numeral)
  then have "?m / of_nat ?n \<le> 1" if "?n \<noteq> 0"
    using that by (simp add: divide_le_eq_1 del: of_nat_add)
  then show "0 \<le> sm_ratio a b" "sm_ratio a b \<le> 1"
    by (simp_all add: sm_ratio_def Let_def fl_nonneg fl_le_1)
qed

section \<open>Equal texts\<close>

text \<open>
  The length of the run of characters that are not popular and that ends at \<open>t\<close>: what the
  diagonal entry of row \<open>t\<close> holds when a text is compared with itself.
\<close>

fun run_len :: "string \<Rightarrow> nat \<Rightarrow> nat" where
  "run_len a 0 = (if popular a (a ! 0) then 0 else 1)"
| "run_len a (Suc t) = (if popular a (a ! Suc t) then 0 else run_len a t + 1)"

definition self_row :: "string \<Rightarrow> nat \<Rightarrow> (nat \<rightharpoonup> nat) \<Rightarrow> bool" where
  "self_row a i m \<longleftrightarrow> (\<forall>j v. m j = Some v \<longrightarrow> v \<le> run_len a j \<and> v \<le> run_len a i)"

definition self_prev :: "string \<Rightarrow> nat \<Rightarrow> (nat \<rightharpoonup> nat) \<Rightarrow> bool" where
  "self_prev a i m = (case i of 0 \<Rightarrow> m = Map.empty
     | Suc i' \<Rightarrow> self_row a i' m \<and> (popular a (a ! i') \<or> m i' = Some (run_len a i')))"

definition diag :: "block \<Rightarrow> bool" where
  "diag x \<longleftrightarrow> fst x = fst (snd x)"

lemma run_len_pos: "\<not> popular a (a ! t) \<Longrightarrow> 0 < run_len a t"
  by (cases t) auto

lemma self_get:
  assumes m: "self_prev a i m" and j: "a ! j = a ! i" "\<not> popular a (a ! i)"
  shows "j2len_get m j + 1 \<le> run_len a j" "j2len_get m j + 1 \<le> run_len a i"
    and "j = i \<Longrightarrow> j2len_get m j + 1 = run_len a i"
proof -
  have pj: "\<not> popular a (a ! j)" using j by simp
  consider "j = 0" | "i = 0" | j' i' where "j = Suc j'" "i = Suc i'" by (metis not0_implies_Suc)
  then have "j2len_get m j + 1 \<le> run_len a j \<and> j2len_get m j + 1 \<le> run_len a i
      \<and> (j = i \<longrightarrow> j2len_get m j + 1 = run_len a i)"
  proof cases
    case 1
    then have "j2len_get m j = 0" by (simp add: j2len_get_def)
    moreover have "run_len a 0 = 1" using pj 1 by simp
    ultimately show ?thesis using run_len_pos [OF pj] run_len_pos [OF j(2)] 1 by auto
  next
    case 2
    with m have "m = Map.empty" by (simp add: self_prev_def)
    then have "j2len_get m j = 0" by (simp add: j2len_get_def)
    moreover have "run_len a 0 = 1" using j(2) 2 by simp
    ultimately show ?thesis using run_len_pos [OF pj] run_len_pos [OF j(2)] 2 by auto
  next
    case (3 j' i')
    with m have prev: "self_row a i' m" "popular a (a ! i') \<or> m i' = Some (run_len a i')"
      by (simp_all add: self_prev_def)
    show ?thesis
    proof (cases "m j'")
      case None
      have "run_len a i' = 0" if "j' = i'"
        using prev(2) None that by (cases i') (auto split: if_splits)
      with None 3 j(2) pj show ?thesis by (auto simp: j2len_get_def)
    next
      case (Some v)
      with prev(1) have v: "v \<le> run_len a j'" "v \<le> run_len a i'" by (auto simp: self_row_def)
      moreover have "v = run_len a i'" if "j' = i'"
        using prev(2) Some that v by (cases i') (auto split: if_splits)
      ultimately show ?thesis using Some 3 j(2) pj by (auto simp: j2len_get_def)
    qed
  qed
  then show "j2len_get m j + 1 \<le> run_len a j" "j2len_get m j + 1 \<le> run_len a i"
    "j = i \<Longrightarrow> j2len_get m j + 1 = run_len a i" by auto
qed

lemma inner_self:
  assumes "flm_inner 0 n i m js best new = (best', new')"
    and "\<forall>j \<in> set js. a ! j = a ! i \<and> j < n" "\<not> popular a (a ! i)" "sorted_wrt (<) js"
    and "self_prev a i m" "self_row a i new"
    and "diag best" "\<forall>t < i. run_len a t \<le> snd (snd best)"
    and "i \<in> set js \<or> (run_len a i \<le> snd (snd best) \<and> new i = Some (run_len a i))"
  shows "diag best' \<and> self_row a i new' \<and> (\<forall>t \<le> i. run_len a t \<le> snd (snd best'))
    \<and> new' i = Some (run_len a i)"
  using assms
proof (induction "0::nat" n i m js best new rule: flm_inner.induct)
  case (1 bhi i m best new)
  then show ?case by (auto simp: le_less)
next
  case (2 n i m j js best new)
  define k where "k = j2len_get m j + 1"
  have j: "\<not> j < 0" "\<not> n \<le> j" "a ! j = a ! i" using "2.prems"(2) by auto
  note k = self_get [OF "2.prems"(5) j(3) "2.prems"(3), folded k_def]
  let ?best = "if snd (snd best) < k then (i + 1 - k, j + 1 - k, k) else best"
  have run: "flm_inner 0 n i m js ?best (new(j \<mapsto> k)) = (best', new')"
    using "2.prems"(1) j by (simp add: k_def Let_def split: if_splits)
  have row: "self_row a i (new(j \<mapsto> k))"
    using "2.prems"(6) k by (auto simp: self_row_def)
  have small: "k \<le> snd (snd best)" if "j \<noteq> i"
  proof (cases "j < i")
    case True
    with "2.prems"(8) k(1) show ?thesis by (meson le_trans)
  next
    case False
    with that "2.prems"(4) have "i \<notin> set (j # js)" by auto
    with "2.prems"(9) k(2) show ?thesis by (meson le_trans)
  qed
  have best: "diag ?best" "\<forall>t < i. run_len a t \<le> snd (snd ?best)"
  proof -
    show "diag ?best"
    proof (cases "snd (snd best) < k")
      case True
      with small have "j = i" by (meson linorder_not_less)
      with True show ?thesis by (simp add: diag_def)
    qed (use "2.prems"(7) in simp)
    have "snd (snd best) \<le> snd (snd ?best)" by simp
    with "2.prems"(8) show "\<forall>t < i. run_len a t \<le> snd (snd ?best)" by (meson le_trans)
  qed
  have rest: "i \<in> set js \<or> (run_len a i \<le> snd (snd ?best) \<and> (new(j \<mapsto> k)) i = Some (run_len a i))"
  proof (cases "j = i")
    case True
    with k(3) show ?thesis by simp
  next
    case False
    with small have "?best = best" by simp
    with False "2.prems"(9) show ?thesis by simp
  qed
  from "2.prems"(2,4) have js: "\<forall>j \<in> set js. a ! j = a ! i \<and> j < n" "sorted_wrt (<) js" by auto
  show ?case
    by (rule "2.hyps"(2) [OF j(1,2) k_def run js(1) "2.prems"(3) js(2) "2.prems"(5) row best rest])
qed

lemma outer_self:
  assumes "self_prev a i m" "diag best" "\<forall>t < i. run_len a t \<le> snd (snd best)" "i \<le> length a"
  shows "diag (flm_outer a a 0 (length a) [i..<length a] best m)"
  using assms
proof (induction "length a - i" arbitrary: i m best)
  case 0
  then show ?case by simp
next
  case (Suc d)
  let ?n = "length a"
  from Suc.hyps(2) have i: "[i..<?n] = i # [Suc i..<?n]" "i < ?n" by (auto simp: upt_conv_Cons)
  obtain best' new where step: "flm_inner 0 ?n i m (b2j a (a ! i)) best Map.empty = (best', new)"
    by (metis surj_pair)
  have "self_prev a (Suc i) new \<and> diag best' \<and> (\<forall>t < Suc i. run_len a t \<le> snd (snd best'))"
  proof (cases "popular a (a ! i)")
    case True
    then have "best' = best" "new = Map.empty" using step by (auto simp: b2j_def)
    moreover have "run_len a i = 0" using True by (cases i) auto
    ultimately show ?thesis
      using Suc.prems True by (auto simp: self_prev_def self_row_def less_Suc_eq)
  next
    case False
    have "diag best' \<and> self_row a i new \<and> (\<forall>t \<le> i. run_len a t \<le> snd (snd best'))
        \<and> new i = Some (run_len a i)"
      using False Suc.prems i(2)
      by (intro inner_self [OF step]) (auto simp: b2j_def self_row_def sorted_wrt_filter)
    then show ?thesis by (auto simp: self_prev_def less_Suc_eq_le)
  qed
  with Suc.hyps(1) [of "Suc i" new best'] Suc.hyps(2) i show ?case by (simp add: step)
qed

lemma extend_back_self: "extend_back a a 0 0 i i k = (0, 0, k + i)"
  by (induction i arbitrary: k) (simp_all add: extend_back.simps [of a a 0 0])

lemma extend_fwd_self: "k \<le> length a \<Longrightarrow> extend_fwd a a (length a) (length a) 0 0 k = (0, 0, length a)"
proof (induction "length a - k" arbitrary: k)
  case 0
  then show ?case by (simp add: extend_fwd.simps [of a a _ _ 0 0])
next
  case (Suc d)
  then have "extend_fwd a a (length a) (length a) 0 0 (k + 1) = (0, 0, length a)" by simp
  moreover have "k < length a" using Suc.hyps(2) by simp
  ultimately show ?case by (simp add: extend_fwd.simps [of a a _ _ 0 0 k])
qed

lemma find_longest_match_self: "find_longest_match a a 0 (length a) 0 (length a) = (0, 0, length a)"
proof -
  obtain i j k where o: "flm_outer a a 0 (length a) [0..<length a] (0, 0, 0) Map.empty = (i, j, k)"
    by (metis prod_cases3)
  have "diag (i, j, k)"
    unfolding o [symmetric] by (rule outer_self) (auto simp: self_prev_def diag_def)
  then have ij: "j = i" by (simp add: diag_def)
  have "block_ok a a 0 (length a) 0 (length a) (i, j, k)"
    unfolding o [symmetric] by (rule flm_outer_ok) (simp_all add: block_ok_def)
  then have "k + i \<le> length a" by (auto simp: block_ok_def split: if_splits)
  then show ?thesis
    by (simp add: find_longest_match_def o ij extend_back_self extend_fwd_self)
qed

lemma matches_self: "matches a a = length a"
proof (cases "length a = 0")
  case True
  then show ?thesis using matches_le [of a a] by simp
next
  case False
  then show ?thesis
    using matching_sizes.simps(2) [of a a 0 "length a" 0 "length a" "[]"]
    by (simp add: matches_def find_longest_match_self)
qed

lemma sm_ratio_self [simp]: "sm_ratio a a = 1"
proof (cases "length a = 0")
  case False
  then have "(2 * of_nat (length a) :: rat) / of_nat (length a + length a) = 1" by simp
  with False show ?thesis unfolding sm_ratio_def Let_def matches_self by simp
qed (simp add: sm_ratio_def)

section \<open>An upper bound that needs no matching\<close>

text \<open>No more characters match than the two texts have in common, counted with multiplicity.\<close>

definition slice :: "nat \<Rightarrow> nat \<Rightarrow> string \<Rightarrow> string" where
  "slice l h s = take (h - l) (drop l s)"

lemma slice_split: "l \<le> i \<Longrightarrow> i + k \<le> h \<Longrightarrow> slice l h s = slice l i s @ slice i (i + k) s @ slice (i + k) h s"
proof -
  assume h: "l \<le> i" "i + k \<le> h"
  have "h - l = (i - l) + (k + (h - (i + k)))" "l + (i - l) = i" "k + i = i + k" using h by simp_all
  then show ?thesis by (simp only: slice_def take_add drop_drop add_diff_cancel_left' append_assoc) (simp add: add.commute)
qed

lemma slice_common:
  assumes "common a b i j k" "i + k \<le> length a" "j + k \<le> length b"
  shows "slice i (i + k) a = slice j (j + k) b \<and> length (slice i (i + k) a) = k"
  using assms by (auto simp: slice_def common_def intro!: nth_equalityI)

definition shared :: "string \<Rightarrow> string \<Rightarrow> window \<Rightarrow> nat" where
  "shared a b = (\<lambda>(alo, ahi, blo, bhi). size (mset (slice alo ahi a) \<inter># mset (slice blo bhi b)))"

lemma shared_split:
  "size (A1 \<inter># B1) + size K + size (A3 \<inter># B3) \<le> size ((A1 + (K + A3)) \<inter># (B1 + (K + B3)))"
proof -
  have "A1 \<inter># B1 + (K + A3 \<inter># B3) \<subseteq># (A1 + (K + A3)) \<inter># (B1 + (K + B3))"
    by (intro subset_mset.inf_greatest subset_mset.add_mono) simp_all
  then have "size (A1 \<inter># B1 + (K + A3 \<inter># B3)) \<le> size ((A1 + (K + A3)) \<inter># (B1 + (K + B3)))"
    by (rule size_mset_mono)
  then show ?thesis by simp
qed

lemma shared_window:
  assumes "alo \<le> i" "i + k \<le> ahi" "blo \<le> j" "j + k \<le> bhi" "common a b i j k" "ahi \<le> length a" "bhi \<le> length b"
  shows "k + (shared a b (i + k, ahi, j + k, bhi) + shared a b (alo, i, blo, j)) \<le> shared a b (alo, ahi, blo, bhi)"
proof -
  have "slice i (i + k) a = slice j (j + k) b \<and> length (slice i (i + k) a) = k"
    by (rule slice_common [OF assms(5) order_trans [OF assms(2,6)] order_trans [OF assms(4,7)]])
  then have c: "slice i (i + k) a = slice j (j + k) b" "length (slice j (j + k) b) = k" by metis+
  show ?thesis
    using shared_split [of "mset (slice alo i a)" "mset (slice blo j b)" "mset (slice i (i + k) a)"
        "mset (slice (i + k) ahi a)" "mset (slice (j + k) bhi b)"]
    by (simp add: shared_def slice_split [OF assms(1,2)] slice_split [OF assms(3,4)] c)
qed

lemma matching_sizes_shared:
  assumes "\<forall>(alo, ahi, blo, bhi) \<in> set q. ahi \<le> length a \<and> bhi \<le> length b"
  shows "sum_list (matching_sizes a b q) \<le> sum_list (map (shared a b) q)"
  using assms
proof (induction a b q rule: matching_sizes.induct)
  case (1 a b)
  then show ?case by simp
next
  case (2 a b alo ahi blo bhi q)
  obtain i j k where f: "find_longest_match a b alo ahi blo bhi = (i, j, k)" by (metis prod_cases3)
  show ?case
  proof (cases "k = 0")
    case True
    with "2.IH"(1) [OF f [symmetric] refl True] "2.prems" show ?thesis
      by (simp add: matching_sizes.simps(2) [of a b alo ahi blo bhi q] f)
  next
    case False
    note ok = find_longest_match_ok [OF f]
    let ?S = "\<lambda>q. sum_list (map (shared a b) q)"
    let ?r = "if i + k < ahi \<and> j + k < bhi then [(i + k, ahi, j + k, bhi)] else []"
    let ?l = "if alo < i \<and> blo < j then [(alo, i, blo, j)] else []"
    have "sum_list (matching_sizes a b (?r @ ?l @ q)) \<le> ?S (?r @ ?l @ q)"
      using "2.prems" ok False by (intro "2.IH"(2) [OF f [symmetric] refl False]) auto
    also have "\<dots> = ?S ?r + ?S ?l + ?S q" by simp
    also have "?S ?r \<le> shared a b (i + k, ahi, j + k, bhi)" by simp
    also have "?S ?l \<le> shared a b (alo, i, blo, j)" by simp
    finally have "k + sum_list (matching_sizes a b (?r @ ?l @ q))
        \<le> k + (shared a b (i + k, ahi, j + k, bhi) + shared a b (alo, i, blo, j)) + ?S q" by simp
    also have "\<dots> \<le> shared a b (alo, ahi, blo, bhi) + ?S q"
      using shared_window [of alo i k ahi blo j bhi a b] ok False "2.prems" by simp
    finally show ?thesis
      using False by (simp add: matching_sizes.simps(2) [of a b alo ahi blo bhi q] f)
  qed
qed

fun shared_chars :: "string \<Rightarrow> string \<Rightarrow> nat" where
  "shared_chars [] b = 0"
| "shared_chars (c # a) b = (if c \<in> set b then Suc (shared_chars a (remove1 c b)) else shared_chars a b)"

lemma shared_chars_eq: "size (mset a \<inter># mset b) = shared_chars a b"
proof (induction a arbitrary: b)
  case (Cons c a)
  show ?case
  proof (cases "c \<in> set b")
    case True
    then show ?thesis using Cons.IH [of "remove1 c b"] by (simp add: inter_add_left2)
  next
    case False
    then have "\<not> c \<in># mset b" by simp
    from inter_add_left1 [OF this, of "mset a"] show ?thesis using Cons.IH [of b] False by simp
  qed
qed simp

text \<open>Two texts that share at most two fifths of their characters are not similar.\<close>

lemma sm_ratio_dissimilar:
  assumes "5 * shared_chars a b \<le> 2 * (length a + length b)" "0 < length a + length b"
  shows "sm_ratio a b \<le> fl (4 / 5)"
proof -
  have "matches a b \<le> shared_chars a b"
    using matching_sizes_shared [of "[(0, length a, 0, length b)]" a b] shared_chars_eq [of a b]
    by (simp add: matches_def shared_def slice_def)
  then have "5 * (2 * matches a b) \<le> 4 * (length a + length b)" using assms(1) by linarith
  then have "(5 * (2 * of_nat (matches a b)) :: rat) \<le> 4 * of_nat (length a + length b)"
    by (metis (mono_tags) of_nat_le_iff of_nat_mult of_nat_numeral)
  moreover have "(0 :: rat) < of_nat (length a + length b)" using assms(2) by (simp only: of_nat_0_less_iff)
  ultimately have "2 * of_nat (matches a b) / of_nat (length a + length b) \<le> (4 / 5 :: rat)"
    by (simp add: field_simps del: of_nat_add)
  then have "fl (2 * of_nat (matches a b) / of_nat (length a + length b)) \<le> fl (4 / 5)" by (rule fl_mono)
  moreover have "length a + length b \<noteq> 0" using assms(2) by (simp only: neq0_conv)
  ultimately show ?thesis by (simp only: sm_ratio_def Let_def if_False)
qed

end
