(* ===== verification/Validation.thy ===== *)
theory Validation
  imports Schemas Difflib
begin

text \<open>
  \<open>rules/validation.py\<close>: the deterministic half of the evaluator. The checks are translated
  one by one; \<open>run_validation_rules\<close> is a result because the sources call string methods and
  \<open>date.fromisoformat\<close> on field values of unchecked type, outside any \<open>try\<close>.
  The lemmas say when each check raises which flag, that checks never raise flags outside their
  rule, and that equal names (up to case and spacing) are never flagged.
\<close>

section \<open>Text normalisation and similarity\<close>

record match_thresholds =
  name_critical :: rat
  name_warning :: rat
  address_threshold :: rat

definition default_match_thresholds :: match_thresholds where
  "default_match_thresholds =
     \<lparr>name_critical = fl (85 / 100), name_warning = fl (95 / 100), address_threshold = fl (70 / 100)\<rparr>"

definition normalize_text :: "string \<Rightarrow> string" where
  "normalize_text v = py_join '' '' (py_split (py_casefold v))"

definition fuzzy_ratio :: "string \<Rightarrow> string \<Rightarrow> rat" where
  "fuzzy_ratio a b = sm_ratio (normalize_text a) (normalize_text b)"

lemma normalize_text_collapse: "normalize_text v = collapse (py_casefold v)"
  by (simp add: normalize_text_def collapse_def)

lemma normalize_text_idem [simp]: "normalize_text (normalize_text v) = normalize_text v"
  by (simp add: normalize_text_collapse casefold_collapse_fold) (simp add: collapse_def split_join py_split_words)

lemma fuzzy_ratio_bounds: "0 \<le> fuzzy_ratio a b" "fuzzy_ratio a b \<le> 1"
  by (simp_all add: fuzzy_ratio_def sm_ratio_bounds)

lemma fuzzy_ratio_same: "normalize_text a = normalize_text b \<Longrightarrow> fuzzy_ratio a b = 1"
  by (simp add: fuzzy_ratio_def)

section \<open>The checks\<close>

definition check_package_completeness ::
  "customer_type \<Rightarrow> document_type list \<Rightarrow> rule_flag option" where
  "check_package_completeness ct present =
     (let missing = filter (\<lambda>t. t \<notin> set present) (required_docs_by_customer ct)
      in if missing = [] then None
         else Some \<lparr>rule_id = INCOMPLETE_PACKAGE, severity = CRITICAL,
                details = ''missing required documents: ''
                          @ py_join '', '' (map document_type_value (py_sorted_set missing))\<rparr>)"

definition check_document_expiry :: "date option \<Rightarrow> date \<Rightarrow> rule_flag option" where
  "check_document_expiry expiry today = (case expiry of
     None \<Rightarrow> None
   | Some d \<Rightarrow>
       if today \<le> d then None
       else Some \<lparr>rule_id = DOC_EXPIRED, severity = CRITICAL,
                details = ''document expired on '' @ isoformat d\<rparr>)"

text \<open>The attribute errors of a field value that is not a string.\<close>

fun jtype :: "jval \<Rightarrow> string" where
  "jtype JNull = ''NoneType''"
| "jtype (JBool _) = ''bool''"
| "jtype (JFloat _) = ''float''"
| "jtype (JStr _) = ''str''"
| "jtype (JList _) = ''list''"
| "jtype (JObj _) = ''dict''"

definition not_a_str :: "jval \<Rightarrow> exn" where
  "not_a_str v = Exn ''AttributeError'' (py_repr (jtype v) @ '' object has no attribute '' @ py_repr ''casefold'')"

text \<open>\<open>fields.get(name)\<close> used as \<open>str | None\<close>.\<close>

fun opt_str :: "jval option \<Rightarrow> exn + string option" where
  "opt_str None = Inr None"
| "opt_str (Some JNull) = Inr None"
| "opt_str (Some (JStr s)) = Inr (Some s)"
| "opt_str (Some v) = Inl (not_a_str v)"

definition check_name ::
  "string \<Rightarrow> string option \<Rightarrow> match_thresholds \<Rightarrow> rule_id \<Rightarrow> string \<Rightarrow> field_check \<times> rule_flag option"
where
  "check_name decl extr th rid fld = (case extr of
     None \<Rightarrow> (\<lparr>field = fld, declared = Some decl, extracted = None, field_match = False,
               critical = False\<rparr>, None)
   | Some e \<Rightarrow>
       (let ratio = fuzzy_ratio decl e in
        if name_warning th \<le> ratio
        then (\<lparr>field = fld, declared = Some decl, extracted = Some e, field_match = True,
               critical = False\<rparr>, None)
        else let sev = (if ratio < name_critical th then CRITICAL else WARNING)
             in (\<lparr>field = fld, declared = Some decl, extracted = Some e, field_match = False,
                  critical = (sev = CRITICAL)\<rparr>,
                 Some \<lparr>rule_id = rid, severity = sev,
                   details = fld @ '': declared='' @ py_repr decl @ '' extracted='' @ py_repr e
                             @ '' ratio='' @ fmt_fixed 2 ratio\<rparr>)))"

definition check_exact ::
  "string option \<Rightarrow> string option \<Rightarrow> rule_id \<Rightarrow> string \<Rightarrow> bool
    \<Rightarrow> field_check option \<times> rule_flag option" where
  "check_exact decl extr rid fld nrm = (case (decl, extr) of
     (Some d, Some e) \<Rightarrow>
       (let left = (if nrm then normalize_text d else d);
            right = (if nrm then normalize_text e else e)
        in if left = right
           then (Some \<lparr>field = fld, declared = Some d, extracted = Some e, field_match = True,
                   critical = False\<rparr>, None)
           else (Some \<lparr>field = fld, declared = Some d, extracted = Some e, field_match = False,
                   critical = True\<rparr>,
                 Some \<lparr>rule_id = rid, severity = CRITICAL,
                   details = fld @ '': declared='' @ py_repr d @ '' extracted='' @ py_repr e\<rparr>))
   | _ \<Rightarrow> (None, None))"

definition check_address ::
  "string \<Rightarrow> string option \<Rightarrow> match_thresholds \<Rightarrow> field_check option \<times> rule_flag option" where
  "check_address decl extr th = (case extr of
     None \<Rightarrow> (None, None)
   | Some e \<Rightarrow>
       (let ratio = fuzzy_ratio decl e in
        if address_threshold th \<le> ratio
        then (Some \<lparr>field = ''address'', declared = Some decl, extracted = Some e,
                field_match = True, critical = False\<rparr>, None)
        else (Some \<lparr>field = ''address'', declared = Some decl, extracted = Some e,
                field_match = False, critical = False\<rparr>,
              Some \<lparr>rule_id = ADDRESS_MISMATCH, severity = WARNING,
                details = ''address: declared='' @ py_repr decl @ '' extracted='' @ py_repr e
                          @ '' ratio='' @ fmt_fixed 2 ratio\<rparr>)))"

definition missing_field :: "jval option \<Rightarrow> bool" where
  "missing_field v \<longleftrightarrow> v \<in> {None, Some JNull, Some (JStr []), Some (JList [])}"

definition incomplete_flag :: "extraction_result \<Rightarrow> string \<Rightarrow> rule_flag" where
  "incomplete_flag e fld =
     \<lparr>rule_id = EXTRACTION_INCOMPLETE, severity = WARNING,
      details = document_type_value (er_doc_type e) @ ''/'' @ er_document_id e
                @ '': required field '' @ py_repr fld @ '' not extracted''\<rparr>"

definition check_extraction_completeness :: "extraction_result \<Rightarrow> rule_flag list" where
  "check_extraction_completeness e =
     map (incomplete_flag e)
       (filter (\<lambda>fld. missing_field (dict_get (er_fields e) fld))
         (required_fields_by_type (er_doc_type e)))"

section \<open>The validation pass\<close>

type_synonym findings = "field_check list \<times> rule_flag list"

text \<open>Appending the outcome of one check, as the loop body does.\<close>

definition add_check :: "field_check option \<times> rule_flag option \<Rightarrow> findings \<Rightarrow> findings" where
  "add_check = (\<lambda>(c, f) (cs, fs). (cs @ (case c of None \<Rightarrow> [] | Some x \<Rightarrow> [x]),
                                   fs @ (case f of None \<Rightarrow> [] | Some x \<Rightarrow> [x])))"

definition some_check :: "field_check \<times> rule_flag option \<Rightarrow> field_check option \<times> rule_flag option"
where
  "some_check = (\<lambda>(c, f). (Some c, f))"

text \<open>\<open>date.fromisoformat(expiry_raw) if expiry_raw else None\<close>.\<close>

fun truthy :: "jval option \<Rightarrow> bool" where
  "truthy None = False"
| "truthy (Some JNull) = False"
| "truthy (Some (JBool b)) = b"
| "truthy (Some (JFloat x)) = (x \<noteq> 0)"
| "truthy (Some (JStr s)) = (s \<noteq> [])"
| "truthy (Some (JList l)) = (l \<noteq> [])"
| "truthy (Some (JObj d)) = (d \<noteq> [])"

definition parse_expiry :: "jval option \<Rightarrow> exn + date option" where
  "parse_expiry v =
     (if \<not> truthy v then Inr None
      else case v of
        Some (JStr s) \<Rightarrow>
          (case fromisoformat s of
             None \<Rightarrow> Inl (Exn ''ValueError'' (''Invalid isoformat string: '' @ py_repr s))
           | Some d \<Rightarrow> Inr (Some d))
      | _ \<Rightarrow> Inl (Exn ''TypeError'' ''fromisoformat: argument must be str''))"

definition validate_id_document ::
  "applicant_declared \<Rightarrow> date \<Rightarrow> match_thresholds \<Rightarrow> (string, jval) dict \<Rightarrow> findings
    \<Rightarrow> exn + findings" where
  "validate_id_document a today th flds acc =
     (case opt_str (dict_get flds ''full_name'') of Inl e \<Rightarrow> Inl e | Inr name \<Rightarrow>
      (let acc1 = add_check (some_check (check_name (full_name a) name th NAME_MISMATCH ''full_name'')) acc
       in case (if date_of_birth a = None then Inr None else opt_str (dict_get flds ''date_of_birth''))
            of Inl e \<Rightarrow> Inl e | Inr dob \<Rightarrow>
      (let acc2 = add_check (check_exact (map_option isoformat (date_of_birth a)) dob DOB_MISMATCH
                     ''date_of_birth'' True) acc1
       in case parse_expiry (dict_get flds ''expiry_date'') of Inl e \<Rightarrow> Inl e | Inr expiry \<Rightarrow>
      Inr (add_check (None, check_document_expiry expiry today) acc2))))"

definition validate_proof_of_address ::
  "applicant_declared \<Rightarrow> match_thresholds \<Rightarrow> (string, jval) dict \<Rightarrow> findings \<Rightarrow> exn + findings" where
  "validate_proof_of_address a th flds acc =
     (case opt_str (dict_get flds ''address'') of Inl e \<Rightarrow> Inl e | Inr addr \<Rightarrow>
      Inr (add_check (check_address (address a) addr th) acc))"

definition validate_registration ::
  "applicant_declared \<Rightarrow> match_thresholds \<Rightarrow> (string, jval) dict \<Rightarrow> findings \<Rightarrow> exn + findings" where
  "validate_registration a th flds acc =
     (case (if company_name a \<in> {None, Some []} then Inr acc
            else case opt_str (dict_get flds ''company_name'') of Inl e \<Rightarrow> Inl e | Inr name \<Rightarrow>
              Inr (add_check (some_check (check_name (the (company_name a)) name th
                     COMPANY_NAME_MISMATCH ''company_name'')) acc))
      of Inl e \<Rightarrow> Inl e | Inr acc1 \<Rightarrow>
      (case (if registration_number a = None then Inr None
             else opt_str (dict_get flds ''registration_number''))
       of Inl e \<Rightarrow> Inl e | Inr reg \<Rightarrow>
       Inr (add_check (check_exact (registration_number a) reg REG_NUMBER_MISMATCH
              ''registration_number'' True) acc1)))"

definition validate_extraction ::
  "applicant_declared \<Rightarrow> date \<Rightarrow> match_thresholds \<Rightarrow> extraction_result \<Rightarrow> findings \<Rightarrow> exn + findings"
where
  "validate_extraction a today th e acc =
     (if extraction_error e \<noteq> None then Inr acc
      else let acc1 = (fst acc, snd acc @ check_extraction_completeness e); flds = er_fields e
           in case er_doc_type e of
                ID_DOCUMENT \<Rightarrow> validate_id_document a today th flds acc1
              | PROOF_OF_ADDRESS \<Rightarrow> validate_proof_of_address a th flds acc1
              | BUSINESS_REGISTRATION \<Rightarrow> validate_registration a th flds acc1
              | _ \<Rightarrow> Inr acc1)"

fun validate_all ::
  "applicant_declared \<Rightarrow> date \<Rightarrow> match_thresholds \<Rightarrow> extraction_result list \<Rightarrow> findings \<Rightarrow> exn + findings"
where
  "validate_all a today th [] acc = Inr acc"
| "validate_all a today th (e # es) acc = (case validate_extraction a today th e acc of
     Inl x \<Rightarrow> Inl x | Inr acc' \<Rightarrow> validate_all a today th es acc')"

definition run_validation_rules ::
  "applicant_declared \<Rightarrow> extraction_result list \<Rightarrow> date \<Rightarrow> match_thresholds \<Rightarrow> exn + findings" where
  "run_validation_rules a es today th = validate_all a today th es ([], [])"


section \<open>What each check promises\<close>

lemma completeness_None_iff:
  "check_package_completeness ct present = None \<longleftrightarrow> set (required_docs_by_customer ct) \<subseteq> set present"
  by (auto simp: check_package_completeness_def Let_def filter_empty_conv)

lemma completeness_SomeD:
  "check_package_completeness ct present = Some f \<Longrightarrow> rule_id f = INCOMPLETE_PACKAGE \<and> severity f = CRITICAL"
  by (auto simp: check_package_completeness_def Let_def split: if_splits)

lemma completeness_cong:
  "set xs = set ys \<Longrightarrow> check_package_completeness ct xs = check_package_completeness ct ys"
  by (simp add: check_package_completeness_def)

lemma expiry_flag_iff:
  "check_document_expiry x today \<noteq> None \<longleftrightarrow> (\<exists>d. x = Some d \<and> d < today)"
  by (cases x) (auto simp: check_document_expiry_def not_le [symmetric])

lemma expiry_SomeD: "check_document_expiry x today = Some f \<Longrightarrow> rule_id f = DOC_EXPIRED \<and> severity f = CRITICAL"
  by (auto simp: check_document_expiry_def split: option.splits if_splits)

text \<open>Names that agree up to case and spacing are a match, whatever the thresholds up to one.\<close>

lemma check_name_same:
  assumes "normalize_text d = normalize_text e" and "name_warning th \<le> 1"
  shows "check_name d (Some e) th rid fld =
    (\<lparr>field = fld, declared = Some d, extracted = Some e, field_match = True, critical = False\<rparr>, None)"
  using assms by (simp add: check_name_def fuzzy_ratio_same)

lemma check_name_flag_iff:
  "snd (check_name d x th rid fld) \<noteq> None \<longleftrightarrow> (\<exists>e. x = Some e \<and> fuzzy_ratio d e < name_warning th)"
  by (cases x) (simp_all add: check_name_def Let_def not_le)

lemma check_name_flagD:
  "snd (check_name d x th rid fld) = Some f \<Longrightarrow>
     rule_id f = rid \<and> (\<exists>e. x = Some e \<and> (severity f = CRITICAL \<longleftrightarrow> fuzzy_ratio d e < name_critical th))"
  by (cases x) (auto simp: check_name_def Let_def split: if_splits)

lemma check_exact_flag_iff:
  "snd (check_exact d x rid fld True) \<noteq> None \<longleftrightarrow>
     (\<exists>l r. d = Some l \<and> x = Some r \<and> normalize_text l \<noteq> normalize_text r)"
  by (cases d; cases x) (simp_all add: check_exact_def Let_def)

lemma check_exact_flagD:
  "snd (check_exact d x rid fld n) = Some f \<Longrightarrow> rule_id f = rid \<and> severity f = CRITICAL"
  by (cases d; cases x) (auto simp: check_exact_def Let_def split: if_splits)

lemma check_address_flagD:
  "snd (check_address d x th) = Some f \<Longrightarrow> rule_id f = ADDRESS_MISMATCH \<and> severity f = WARNING"
  by (cases x) (auto simp: check_address_def Let_def split: if_splits)

lemma incomplete_flags:
  "f \<in> set (check_extraction_completeness e) \<Longrightarrow>
     rule_id f = EXTRACTION_INCOMPLETE \<and> severity f = WARNING"
  by (auto simp: check_extraction_completeness_def incomplete_flag_def)

lemma length_incomplete_le: "length (check_extraction_completeness e) \<le> 4"
proof -
  have "length (required_fields_by_type t) \<le> 4" for t by (cases t) simp_all
  then show ?thesis
    unfolding check_extraction_completeness_def length_map
    by (meson le_trans length_filter_le)
qed

section \<open>The pass as a concatenation\<close>

text \<open>
  The specification of one document: the exception it raises, or the checks and flags it
  contributes, independent of the documents before it.
\<close>

definition str_field :: "(string, jval) dict \<Rightarrow> string \<Rightarrow> string option" where
  "str_field flds k = (case dict_get flds k of Some (JStr s) \<Rightarrow> Some s | _ \<Rightarrow> None)"

definition opt_list :: "'a option \<Rightarrow> 'a list" where
  "opt_list x = (case x of None \<Rightarrow> [] | Some y \<Rightarrow> [y])"

lemma set_opt_list [simp]: "y \<in> set (opt_list x) \<longleftrightarrow> x = Some y"
  by (cases x) (auto simp: opt_list_def)

lemma opt_list_simps [simp]: "opt_list None = []" "opt_list (Some y) = [y]"
  by (simp_all add: opt_list_def)

fun first_raise :: "(exn + 'a) list \<Rightarrow> exn option" where
  "first_raise [] = None"
| "first_raise (Inl e # xs) = Some e"
| "first_raise (Inr x # xs) = first_raise xs"

definition doc_raises :: "applicant_declared \<Rightarrow> extraction_result \<Rightarrow> exn option" where
  "doc_raises a e =
     (let get = (\<lambda>k. map_sum id (\<lambda>_. ()) (opt_str (dict_get (er_fields e) k)));
          only_if = (\<lambda>c r. if c then r else Inr ())
      in if extraction_error e \<noteq> None then None
         else first_raise (case er_doc_type e of
             ID_DOCUMENT \<Rightarrow> [get ''full_name'', only_if (date_of_birth a \<noteq> None) (get ''date_of_birth''),
                             map_sum id (\<lambda>_. ()) (parse_expiry (dict_get (er_fields e) ''expiry_date''))]
           | PROOF_OF_ADDRESS \<Rightarrow> [get ''address'']
           | BUSINESS_REGISTRATION \<Rightarrow>
               [only_if (company_name a \<notin> {None, Some []}) (get ''company_name''),
                only_if (registration_number a \<noteq> None) (get ''registration_number'')]
           | _ \<Rightarrow> []))"

definition expiry_of :: "(string, jval) dict \<Rightarrow> date option" where
  "expiry_of flds = (case str_field flds ''expiry_date'' of
     None \<Rightarrow> None | Some s \<Rightarrow> if s = [] then None else fromisoformat s)"

definition doc_findings ::
  "applicant_declared \<Rightarrow> date \<Rightarrow> match_thresholds \<Rightarrow> extraction_result
    \<Rightarrow> (field_check option \<times> rule_flag option) list" where
  "doc_findings a today th e =
     (let get = str_field (er_fields e) in
      case er_doc_type e of
        ID_DOCUMENT \<Rightarrow>
          [some_check (check_name (full_name a) (get ''full_name'') th NAME_MISMATCH ''full_name''),
           check_exact (map_option isoformat (date_of_birth a)) (get ''date_of_birth'') DOB_MISMATCH
             ''date_of_birth'' True,
           (None, check_document_expiry (expiry_of (er_fields e)) today)]
      | PROOF_OF_ADDRESS \<Rightarrow> [check_address (address a) (get ''address'') th]
      | BUSINESS_REGISTRATION \<Rightarrow>
          (case company_name a of
             None \<Rightarrow> []
           | Some c \<Rightarrow> if c = [] then []
               else [some_check (check_name c (get ''company_name'') th COMPANY_NAME_MISMATCH ''company_name'')])
          @ [check_exact (registration_number a) (get ''registration_number'') REG_NUMBER_MISMATCH
               ''registration_number'' True]
      | _ \<Rightarrow> [])"

definition doc_checks ::
  "applicant_declared \<Rightarrow> date \<Rightarrow> match_thresholds \<Rightarrow> extraction_result \<Rightarrow> field_check list" where
  "doc_checks a today th e =
     (if extraction_error e \<noteq> None then [] else concat (map (opt_list \<circ> fst) (doc_findings a today th e)))"

definition doc_flags ::
  "applicant_declared \<Rightarrow> date \<Rightarrow> match_thresholds \<Rightarrow> extraction_result \<Rightarrow> rule_flag list" where
  "doc_flags a today th e =
     (if extraction_error e \<noteq> None then []
      else check_extraction_completeness e @ concat (map (opt_list \<circ> snd) (doc_findings a today th e)))"

lemma add_check_eq:
  "add_check cf acc = (fst acc @ opt_list (fst cf), snd acc @ opt_list (snd cf))"
  by (simp add: add_check_def opt_list_def split: prod.splits)

lemma opt_str_Inr: "opt_str v = Inr x \<Longrightarrow> x = (case v of Some (JStr s) \<Rightarrow> Some s | _ \<Rightarrow> None)"
  by (cases v rule: opt_str.cases) auto

lemma str_field_opt: "opt_str (dict_get flds k) = Inr x \<Longrightarrow> str_field flds k = x"
  using opt_str_Inr [of "dict_get flds k" x] by (simp add: str_field_def)

lemma expiry_of_parse: "parse_expiry (dict_get flds ''expiry_date'') = Inr x \<Longrightarrow> expiry_of flds = x"
  by (auto simp: expiry_of_def parse_expiry_def str_field_def
      split: option.splits jval.splits if_splits)

lemma get_sum: "map_sum id (\<lambda>_. ()) r = (case r of Inl e \<Rightarrow> Inl e | Inr _ \<Rightarrow> Inr ())"
  by (cases r) simp_all

lemma check_exact_None [simp]: "check_exact None x rid fld n = (None, None)"
  by (simp add: check_exact_def)

lemma validate_id_eq:
  assumes "er_doc_type e = ID_DOCUMENT" and "extraction_error e = None"
  shows "validate_id_document a today th (er_fields e) (cs, fs) =
    (case doc_raises a e of Some x \<Rightarrow> Inl x
     | None \<Rightarrow> Inr (cs @ doc_checks a today th e,
                    fs @ concat (map (opt_list \<circ> snd) (doc_findings a today th e))))"
proof (cases "opt_str (dict_get (er_fields e) ''full_name'')")
  case (Inl x)
  then show ?thesis using assms by (simp add: validate_id_document_def doc_raises_def get_sum)
next
  case name: (Inr name)
  show ?thesis
  proof (cases "parse_expiry (dict_get (er_fields e) ''expiry_date'')")
    case (Inl x)
    then show ?thesis using assms name
      by (auto simp: validate_id_document_def doc_raises_def get_sum Let_def split: sum.splits)
  next
    case (Inr y)
    then show ?thesis using assms name str_field_opt [OF name] expiry_of_parse [OF Inr]
      by (cases "opt_str (dict_get (er_fields e) ''date_of_birth'')")
        (auto simp: validate_id_document_def doc_raises_def get_sum Let_def doc_checks_def
          doc_findings_def add_check_eq str_field_opt)
  qed
qed

lemma validate_address_eq:
  assumes "er_doc_type e = PROOF_OF_ADDRESS" and "extraction_error e = None"
  shows "validate_proof_of_address a th (er_fields e) (cs, fs) =
    (case doc_raises a e of Some x \<Rightarrow> Inl x
     | None \<Rightarrow> Inr (cs @ doc_checks a today th e,
                    fs @ concat (map (opt_list \<circ> snd) (doc_findings a today th e))))"
  using assms
  by (cases "opt_str (dict_get (er_fields e) ''address'')")
    (auto simp: validate_proof_of_address_def doc_raises_def get_sum Let_def doc_checks_def
      doc_findings_def add_check_eq str_field_opt)

lemma validate_registration_eq:
  assumes "er_doc_type e = BUSINESS_REGISTRATION" and "extraction_error e = None"
  shows "validate_registration a th (er_fields e) (cs, fs) =
    (case doc_raises a e of Some x \<Rightarrow> Inl x
     | None \<Rightarrow> Inr (cs @ doc_checks a today th e,
                    fs @ concat (map (opt_list \<circ> snd) (doc_findings a today th e))))"
  using assms
  by (cases "opt_str (dict_get (er_fields e) ''company_name'')";
      cases "opt_str (dict_get (er_fields e) ''registration_number'')"; cases "company_name a")
    (auto simp: validate_registration_def doc_raises_def get_sum Let_def doc_checks_def
      doc_findings_def add_check_eq str_field_opt)

lemma validate_extraction_eq:
  "validate_extraction a today th e (cs, fs) =
    (case doc_raises a e of Some x \<Rightarrow> Inl x
     | None \<Rightarrow> Inr (cs @ doc_checks a today th e, fs @ doc_flags a today th e))"
proof (cases "extraction_error e = None")
  case True
  show ?thesis
  proof (cases "er_doc_type e")
    case ID_DOCUMENT
    with True show ?thesis
      by (cases "doc_raises a e")
        (simp_all add: validate_extraction_def validate_id_eq [where today = today] doc_flags_def)
  next
    case PROOF_OF_ADDRESS
    with True show ?thesis
      by (cases "doc_raises a e")
        (simp_all add: validate_extraction_def validate_address_eq [where today = today] doc_flags_def)
  next
    case BUSINESS_REGISTRATION
    with True show ?thesis
      by (cases "doc_raises a e")
        (simp_all add: validate_extraction_def validate_registration_eq [where today = today] doc_flags_def)
  next
    case UBO_DECLARATION
    with True show ?thesis
      by (simp add: validate_extraction_def doc_raises_def doc_checks_def doc_flags_def doc_findings_def)
  next
    case UNKNOWN
    with True show ?thesis
      by (simp add: validate_extraction_def doc_raises_def doc_checks_def doc_flags_def doc_findings_def)
  qed
next
  case False
  then show ?thesis by (auto simp: validate_extraction_def doc_raises_def doc_checks_def doc_flags_def)
qed

definition first_some :: "('a \<Rightarrow> 'b option) \<Rightarrow> 'a list \<Rightarrow> 'b option" where
  "first_some f xs = fold (\<lambda>x r. if r = None then f x else r) xs None"

lemma first_some_stay: "r \<noteq> None \<Longrightarrow> fold (\<lambda>x r. if r = None then f x else r) xs r = r"
  by (induction xs) auto

lemma first_some_simps [simp]:
  "first_some f [] = None"
  "first_some f (x # xs) = (case f x of None \<Rightarrow> first_some f xs | Some y \<Rightarrow> Some y)"
  by (auto simp: first_some_def first_some_stay split: option.splits)

lemma first_some_None_iff: "first_some f xs = None \<longleftrightarrow> (\<forall>x \<in> set xs. f x = None)"
  by (induction xs) (auto split: option.splits)

lemma validate_all_eq:
  "validate_all a today th es (cs, fs) =
    (case first_some (doc_raises a) es of Some x \<Rightarrow> Inl x
     | None \<Rightarrow> Inr (cs @ concat (map (doc_checks a today th) es),
                    fs @ concat (map (doc_flags a today th) es)))"
  by (induction es arbitrary: cs fs) (auto simp: validate_extraction_eq split: option.splits)

lemma run_validation_rules_eq:
  "run_validation_rules a es today th =
    (case first_some (doc_raises a) es of Some x \<Rightarrow> Inl x
     | None \<Rightarrow> Inr (concat (map (doc_checks a today th) es), concat (map (doc_flags a today th) es)))"
  by (cases "first_some (doc_raises a) es") (simp_all add: run_validation_rules_def validate_all_eq)

lemma first_raise_None: "first_raise rs = None \<longleftrightarrow> (\<forall>r \<in> set rs. \<exists>y. r = Inr y)"
  by (induction rs rule: first_raise.induct) auto

section \<open>Properties\<close>

text \<open>C23: the validation pass is equivalent to its specification document by document. It raises
  what the first document with an ill-typed field or a malformed date raises, and otherwise reports
  the checks and the flags of every readable document in the order of the documents.\<close>

theorem rules_by_document:
  "run_validation_rules a es td th =
    (case first_some (doc_raises a) es of Some x \<Rightarrow> Inl x
     | None \<Rightarrow> Inr (concat (map (doc_checks a td th) es), concat (map (doc_flags a td th) es)))"
  by (rule run_validation_rules_eq)

end
