(* ===== verification/Risk.thy ===== *)
theory Risk
  imports Schemas
begin

text \<open>
  \<open>rules/risk.py\<close>: the mandatory escalation triggers, the risk level and the decision
  matrix. The lemmas characterise every trigger by the condition that fires it, the level by
  the triggers, and the matrix by a table; the invariant of the module (a fired trigger makes
  automatic approval impossible) is a property of \<open>decide_gate\<close> here and of the whole
  pipeline in the root theory.
\<close>

record risk_thresholds =
  high_volume_individual_eur :: py_decimal
  high_volume_business_eur :: py_decimal
  confidence_threshold :: rat

definition default_risk_thresholds :: risk_thresholds where
  "default_risk_thresholds =
     \<lparr>high_volume_individual_eur = dec_of_nat 10000, high_volume_business_eur = dec_of_nat 50000,
      confidence_threshold = 3 / 4\<rparr>"

definition volume_limit :: "risk_thresholds \<Rightarrow> customer_type \<Rightarrow> py_decimal" where
  "volume_limit th ct = (if ct = INDIVIDUAL then high_volume_individual_eur th
                         else high_volume_business_eur th)"

definition scored_names :: "registry_hit list \<Rightarrow> string" where
  "scored_names hs =
     py_join '', '' (map (\<lambda>h. matched_name h @ '' ('' @ fmt_fixed 2 (score h) @ '')'') hs)"

definition critical_flag :: "rule_id \<Rightarrow> string \<Rightarrow> rule_flag" where
  "critical_flag r d = \<lparr>rule_id = r, severity = CRITICAL, details = d\<rparr>"

definition critical_mismatches :: "rule_flag list \<Rightarrow> rule_flag list" where
  "critical_mismatches fs =
     filter (\<lambda>f. rule_id f \<in> set critical_mismatch_sources \<and> severity f = CRITICAL) fs"

definition evaluate_risk_rules ::
  "customer_type \<Rightarrow> py_decimal \<Rightarrow> rat \<Rightarrow> rule_flag list \<Rightarrow> registry_hit list \<Rightarrow> registry_hit list
    \<Rightarrow> registry_hit list \<Rightarrow> registry_name list \<Rightarrow> risk_thresholds \<Rightarrow> rule_flag list" where
  "evaluate_risk_rules ct volume confidence vflags sanctions peps ubos unavailable th =
     (let limit = volume_limit th ct; mism = critical_mismatches vflags in
      (if sanctions \<noteq> []
       then [critical_flag SANCTIONS_HIT (''sanctions registry match: '' @ scored_names sanctions)] else [])
      @ (if peps \<noteq> []
         then [critical_flag PEP_MATCH (''PEP registry match: '' @ scored_names peps)] else [])
      @ (if ubos \<noteq> []
         then [critical_flag UBO_SANCTIONS_OR_PEP
                 (''beneficial owner registry match: ''
                  @ py_join '', '' (map (\<lambda>h. registry_value (registry h) @ '':'' @ matched_name h) ubos))]
         else [])
      @ (if dec_value limit < dec_value volume
         then [critical_flag HIGH_VOLUME
                 (''expected monthly volume '' @ dec_str volume @ '' EUR exceeds '' @ dec_str limit
                  @ '' EUR threshold for '' @ customer_type_value ct)] else [])
      @ (if confidence < confidence_threshold th
         then [critical_flag LOW_CONFIDENCE
                 (''overall confidence '' @ fmt_fixed 2 confidence @ '' below ''
                  @ fmt_fixed 2 (confidence_threshold th))] else [])
      @ (if mism \<noteq> []
         then [critical_flag CRITICAL_MISMATCH
                 (''critical mismatch between declared and extracted data: ''
                  @ py_join '', '' (map rule_id_value (py_sorted_set (map rule_id mism))))] else [])
      @ map (\<lambda>r. critical_flag REGISTRY_UNAVAILABLE
               (registry_value r @ '' registry unavailable after retries; '' @ py_repr ''no answer''
                @ '' must not be treated as '' @ py_repr ''clean'')) unavailable)"

definition high_risk_ids :: "rule_id list" where
  "high_risk_ids = [SANCTIONS_HIT, PEP_MATCH, UBO_SANCTIONS_OR_PEP, REGISTRY_UNAVAILABLE]"

definition risk_level :: "rule_flag list \<Rightarrow> risk_level" where
  "risk_level triggered =
     (if \<exists>f \<in> set triggered. rule_id f \<in> set high_risk_ids then HIGH
      else if triggered \<noteq> [] then MEDIUM else LOW)"

definition decide_gate ::
  "rule_flag option \<Rightarrow> rule_flag list \<Rightarrow> rule_flag list \<Rightarrow> bool \<Rightarrow> decision" where
  "decide_gate completeness vflags triggers degraded =
     (if completeness \<noteq> None \<and> \<not> degraded
      then \<lparr>outcome = REJECT, decided_by = SYSTEM, reason_codes = [INCOMPLETE_PACKAGE],
            rationale = details (the completeness), reviewer = None\<rparr>
      else let expired = filter (\<lambda>f. rule_id f = DOC_EXPIRED) vflags in
      if expired \<noteq> [] \<and> triggers = [] \<and> \<not> degraded
      then \<lparr>outcome = REJECT, decided_by = SYSTEM, reason_codes = [DOCUMENT_EXPIRED],
            rationale = details (hd expired), reviewer = None\<rparr>
      else if triggers \<noteq> [] \<or> degraded
      then \<lparr>outcome = ESCALATE, decided_by = SYSTEM,
            reason_codes = py_sorted_set (map rule_id triggers)
                           @ (if degraded then [DEGRADED_TO_MANUAL] else []),
            rationale = ''mandatory human review triggered'', reviewer = None\<rparr>
      else \<lparr>outcome = APPROVE, decided_by = SYSTEM, reason_codes = [ALL_CHECKS_PASSED],
            rationale = ''all validation checks passed, no escalation triggers fired'',
            reviewer = None\<rparr>)"

section \<open>The triggers\<close>

lemma critical_flag_sel [simp]:
  "rule_id (critical_flag r d) = r" "severity (critical_flag r d) = CRITICAL"
  "details (critical_flag r d) = d"
  by (simp_all add: critical_flag_def)

lemma fired_if [simp]:
  "r \<in> rule_id ` set (if c then [critical_flag i d] else []) \<longleftrightarrow> r = i \<and> c"
  by (cases c) simp_all

lemma fired_each [simp]: "r \<in> rule_id ` set (map (\<lambda>x. critical_flag i (d x)) xs) \<longleftrightarrow> r = i \<and> xs \<noteq> []"
  by (cases xs) auto

text \<open>The set of fired rule ids, each with the condition of SPEC 7.3.\<close>

lemma triggered_ids:
  "rule_id ` set (evaluate_risk_rules ct v c fs sh ph uh un th) =
     {r. (r = SANCTIONS_HIT \<and> sh \<noteq> []) \<or> (r = PEP_MATCH \<and> ph \<noteq> [])
       \<or> (r = UBO_SANCTIONS_OR_PEP \<and> uh \<noteq> [])
       \<or> (r = HIGH_VOLUME \<and> dec_value (volume_limit th ct) < dec_value v)
       \<or> (r = LOW_CONFIDENCE \<and> c < confidence_threshold th)
       \<or> (r = CRITICAL_MISMATCH \<and> critical_mismatches fs \<noteq> [])
       \<or> (r = REGISTRY_UNAVAILABLE \<and> un \<noteq> [])}"
  unfolding evaluate_risk_rules_def Let_def set_append image_Un
  by (rule set_eqI) (simp only: Un_iff fired_if fired_each mem_Collect_eq disj_assoc)

lemma triggered_critical:
  "f \<in> set (evaluate_risk_rules ct v c fs sh ph uh un th) \<Longrightarrow> severity f = CRITICAL"
  by (auto simp: evaluate_risk_rules_def Let_def split: if_splits)

lemma triggered_Nil_iff:
  "evaluate_risk_rules ct v c fs sh ph uh un th = [] \<longleftrightarrow>
     sh = [] \<and> ph = [] \<and> uh = [] \<and> un = [] \<and> dec_value v \<le> dec_value (volume_limit th ct)
     \<and> confidence_threshold th \<le> c \<and> critical_mismatches fs = []"
  by (simp add: evaluate_risk_rules_def Let_def not_less conj_ac)

lemma critical_mismatches_Nil_iff:
  "critical_mismatches fs = [] \<longleftrightarrow>
     (\<forall>f \<in> set fs. severity f = CRITICAL \<longrightarrow> rule_id f \<notin> set critical_mismatch_sources)"
  by (auto simp: critical_mismatches_def filter_empty_conv)

lemma risk_level_evaluated:
  "risk_level (evaluate_risk_rules ct v c fs sh ph uh un th) = HIGH \<longleftrightarrow>
     sh \<noteq> [] \<or> ph \<noteq> [] \<or> uh \<noteq> [] \<or> un \<noteq> []"
proof -
  let ?t = "evaluate_risk_rules ct v c fs sh ph uh un th"
  have "(\<exists>f \<in> set ?t. rule_id f \<in> set high_risk_ids) \<longleftrightarrow>
      (\<exists>r \<in> set high_risk_ids. r \<in> rule_id ` set ?t)" by blast
  also have "\<dots> \<longleftrightarrow> sh \<noteq> [] \<or> ph \<noteq> [] \<or> uh \<noteq> [] \<or> un \<noteq> []"
    by (simp add: triggered_ids high_risk_ids_def)
  finally show ?thesis by (simp add: risk_level_def)
qed

lemma risk_level_Low_iff: "risk_level ts = LOW \<longleftrightarrow> ts = []"
  by (auto simp: risk_level_def)

lemma risk_level_of_rules:
  "risk_level (evaluate_risk_rules ct v c fs sh ph uh un th) =
     (if sh \<noteq> [] \<or> ph \<noteq> [] \<or> uh \<noteq> [] \<or> un \<noteq> [] then HIGH
      else if dec_value (volume_limit th ct) < dec_value v \<or> c < confidence_threshold th
        \<or> critical_mismatches fs \<noteq> [] then MEDIUM else LOW)"
proof -
  have h: "risk_level ts = (if risk_level ts = HIGH then HIGH else if ts = [] then LOW else MEDIUM)" for ts
    by (simp add: risk_level_def)
  show ?thesis by (rule h [THEN trans], simp only: risk_level_evaluated triggered_Nil_iff) (auto simp: not_less)
qed

text \<open>Firing more rules never lowers the level.\<close>

fun level_rank :: "risk_level \<Rightarrow> nat" where
  "level_rank LOW = 0"
| "level_rank MEDIUM = 1"
| "level_rank HIGH = 2"

lemma risk_level_mono:
  assumes "rule_id ` set ts \<subseteq> rule_id ` set us"
  shows "level_rank (risk_level ts) \<le> level_rank (risk_level us)"
proof -
  have high: "(\<exists>f \<in> set fs. rule_id f \<in> set high_risk_ids) \<longleftrightarrow> rule_id ` set fs \<inter> set high_risk_ids \<noteq> {}"
    for fs by blast
  have "rule_id ` set ts \<inter> set high_risk_ids \<noteq> {} \<Longrightarrow> rule_id ` set us \<inter> set high_risk_ids \<noteq> {}"
    using assms by blast
  moreover have "ts \<noteq> [] \<Longrightarrow> us \<noteq> []" using assms by (cases us) simp_all
  ultimately show ?thesis unfolding risk_level_def high by simp
qed

section \<open>The decision matrix\<close>

lemma decide_gate_reject_incomplete:
  "decide_gate (Some f) vs ts False =
     \<lparr>outcome = REJECT, decided_by = SYSTEM, reason_codes = [INCOMPLETE_PACKAGE],
      rationale = details f, reviewer = None\<rparr>"
  by (simp add: decide_gate_def)

lemma decide_gate_system: "decided_by (decide_gate c vs ts d) = SYSTEM" "reviewer (decide_gate c vs ts d) = None"
  by (simp_all add: decide_gate_def Let_def)

lemma decide_gate_outcome:
  "outcome (decide_gate c vs ts d) =
     (if d then ESCALATE
      else if c \<noteq> None then REJECT
      else if ts \<noteq> [] then ESCALATE
      else if \<exists>f \<in> set vs. rule_id f = DOC_EXPIRED then REJECT
      else APPROVE)"
  by (auto simp: decide_gate_def Let_def filter_empty_conv)

lemma decide_gate_approve_iff:
  "outcome (decide_gate c vs ts d) = APPROVE \<longleftrightarrow>
     c = None \<and> \<not> d \<and> ts = [] \<and> (\<forall>f \<in> set vs. rule_id f \<noteq> DOC_EXPIRED)"
  by (auto simp: decide_gate_outcome)

lemma decide_gate_escalate_iff:
  "outcome (decide_gate c vs ts d) = ESCALATE \<longleftrightarrow> d \<or> (c = None \<and> ts \<noteq> [])"
  by (auto simp: decide_gate_outcome)

lemma decide_gate_codes_nonempty: "reason_codes (decide_gate c vs ts d) \<noteq> []"
  by (auto simp: decide_gate_def Let_def)

lemma decide_gate_codes_escalate:
  "outcome (decide_gate c vs ts d) = ESCALATE \<Longrightarrow>
     set (reason_codes (decide_gate c vs ts d)) =
       rule_id ` set ts \<union> (if d then {DEGRADED_TO_MANUAL} else {})"
  by (auto simp: decide_gate_def Let_def split: if_splits)

text \<open>The matrix looks at the triggers as a set: their order and repetition do not matter.\<close>

lemma decide_gate_triggers_cong:
  assumes "rule_id ` set ts = rule_id ` set us"
  shows "decide_gate c vs ts d = decide_gate c vs us d"
proof -
  have "ts = [] \<longleftrightarrow> us = []" using assms by auto
  moreover have "py_sorted_set (map rule_id ts) = py_sorted_set (map rule_id us)"
    using assms by (intro py_sorted_set_cong) simp
  ultimately show ?thesis by (simp add: decide_gate_def)
qed

section \<open>Properties\<close>

text \<open>C18: escalation recall of the decision matrix. When a mandatory trigger fired or the case is
  degraded, \<open>decide_gate\<close> never approves; a degraded case, and a complete case with a trigger,
  always goes to a human, and the decision names every fired trigger.\<close>

theorem gate_escalation_recall:
  assumes "ts \<noteq> [] \<or> d"
  shows "outcome (decide_gate c vs ts d) \<noteq> APPROVE
    \<and> (c = None \<or> d \<longrightarrow> outcome (decide_gate c vs ts d) = ESCALATE
         \<and> rule_id ` set ts \<subseteq> set (reason_codes (decide_gate c vs ts d)))"
  using assms by (auto simp: decide_gate_outcome) (auto simp: decide_gate_def Let_def)

lemma gate_escalation_recall_witness:
  "outcome (decide_gate None [] [critical_flag SANCTIONS_HIT ''x''] False) = ESCALATE"
  using gate_escalation_recall [of "[critical_flag SANCTIONS_HIT ''x'']" False None "[]"] by simp

text \<open>C20: the triggers of the risk rules. The rules that fire are those of SPEC 7.3: a hit of the
  sanctions registry, of the PEP registry or on a beneficial owner, a volume strictly above the limit
  of individuals or of businesses, a confidence below the threshold, a flag of critical severity from
  one of the five mismatch rules, a registry without an answer. Each trigger is critical, and the
  level is high for hits and missing answers, medium for the rest, low when nothing fires.\<close>

theorem fired_rules:
  "let ts = evaluate_risk_rules ct v c fs sh ph uh un th;
       above = (dec_value (if ct = INDIVIDUAL then high_volume_individual_eur th else high_volume_business_eur th)
                < dec_value v);
       mismatch = (\<exists>f \<in> set fs. severity f = CRITICAL \<and> rule_id f \<in>
         {NAME_MISMATCH, DOB_MISMATCH, COMPANY_NAME_MISMATCH, REG_NUMBER_MISMATCH, EVALUATOR_DISCREPANCY})
   in rule_id ` set ts =
        {r. (r = SANCTIONS_HIT \<and> sh \<noteq> []) \<or> (r = PEP_MATCH \<and> ph \<noteq> [])
          \<or> (r = UBO_SANCTIONS_OR_PEP \<and> uh \<noteq> []) \<or> (r = HIGH_VOLUME \<and> above)
          \<or> (r = LOW_CONFIDENCE \<and> c < confidence_threshold th) \<or> (r = CRITICAL_MISMATCH \<and> mismatch)
          \<or> (r = REGISTRY_UNAVAILABLE \<and> un \<noteq> [])}
      \<and> severity ` set ts \<subseteq> {CRITICAL}
      \<and> risk_level ts =
           (if sh \<noteq> [] \<or> ph \<noteq> [] \<or> uh \<noteq> [] \<or> un \<noteq> [] then HIGH
            else if above \<or> c < confidence_threshold th \<or> mismatch then MEDIUM else LOW)"
proof -
  have m: "critical_mismatches fs \<noteq> [] \<longleftrightarrow> (\<exists>f \<in> set fs. severity f = CRITICAL \<and> rule_id f \<in>
      {NAME_MISMATCH, DOB_MISMATCH, COMPANY_NAME_MISMATCH, REG_NUMBER_MISMATCH, EVALUATOR_DISCREPANCY})"
    by (auto simp: critical_mismatches_Nil_iff critical_mismatch_sources_def)
  have c: "severity ` set (evaluate_risk_rules ct v c fs sh ph uh un th) \<subseteq> {CRITICAL}"
    using triggered_critical by blast
  show ?thesis
    unfolding Let_def triggered_ids m [symmetric] volume_limit_def [symmetric]
    by (intro conjI refl c risk_level_of_rules)
qed

lemma fired_rules_witness:
  "rule_id ` set (evaluate_risk_rules BUSINESS (dec_of_nat 20000) (1 / 2) [] [] [] [] [PEP] default_risk_thresholds) =
     {LOW_CONFIDENCE, REGISTRY_UNAVAILABLE}"
  (is "?fired = _")
proof -
  have "?fired = {r. r = LOW_CONFIDENCE \<or> r = REGISTRY_UNAVAILABLE}"
    using fired_rules [of BUSINESS "dec_of_nat 20000" "1 / 2" "[]" "[]" "[]" "[]" "[PEP]" default_risk_thresholds]
    by (simp add: default_risk_thresholds_def Let_def)
  also have "\<dots> = {LOW_CONFIDENCE, REGISTRY_UNAVAILABLE}" by blast
  finally show ?thesis .
qed

text \<open>C19: the decision matrix, all rows: degradation escalates before anything else, then an
  incomplete package is rejected, a trigger escalates, an expired document is rejected, and only
  what is left is approved. The decision is the system's and has a reason.\<close>

theorem decision_matrix:
  "outcome (decide_gate c vs ts d) =
     (if d then ESCALATE
      else if c \<noteq> None then REJECT
      else if ts \<noteq> [] then ESCALATE
      else if \<exists>f \<in> set vs. rule_id f = DOC_EXPIRED then REJECT
      else APPROVE)
   \<and> decided_by (decide_gate c vs ts d) = SYSTEM \<and> reviewer (decide_gate c vs ts d) = None
   \<and> reason_codes (decide_gate c vs ts d) \<noteq> []"
  using decide_gate_outcome decide_gate_system decide_gate_codes_nonempty by blast

end
