(* ===== verification/FakeLLM.thy ===== *)
theory FakeLLM
  imports PyRegex Services
begin

text \<open>
  \<open>llm/fake.py\<close>: the deterministic offline services. The tables and regular expressions are
  transcribed; characters are Latin-1, so the bullet \<open>U+2022\<close> among the owner markers has no
  counterpart. The lemmas show that the services keep the contracts of \<open>Services\<close>.
\<close>

section \<open>Tables\<close>

definition type_keywords :: "(document_type \<times> string list) list" where
  "type_keywords =
     [(UBO_DECLARATION, [''UBO DECLARATION'', ''BENEFICIAL OWNER'']),
      (BUSINESS_REGISTRATION,
       [''CERTIFICATE OF REGISTRATION'', ''COMMERCIAL REGISTER'', ''BUSINESS REGISTRY'']),
      (ID_DOCUMENT, [''IDENTITY CARD'', ''PASSPORT'', ''RESIDENCE PERMIT'']),
      (PROOF_OF_ADDRESS,
       [''UTILITY'', ''INVOICE'', ''BANK STATEMENT'', ''ELECTRICITY'', ''LEASE AGREEMENT''])]"

definition labels :: "(string \<times> string list) list" where
  "labels =
     [(''full_name'', [''full name'', ''name'', ''customer'', ''account holder'', ''surname and given names'']),
      (''date_of_birth'', [''date of birth'', ''born'']),
      (''document_number'', [''document number'', ''card number'', ''passport number'']),
      (''expiry_date'', [''date of expiry'', ''expiry date'', ''valid until'']),
      (''nationality'', [''nationality'']),
      (''address'', [''service address'', ''supply address'', ''address'']),
      (''issue_date'', [''invoice date'', ''issue date'', ''statement date'']),
      (''issuer'', [''issuer'']),
      (''company_name'', [''company name'', ''legal name'']),
      (''registration_number'', [''registration number'', ''registry code'']),
      (''registration_date'', [''registration date'', ''registered on'']),
      (''legal_form'', [''legal form'']),
      (''registered_address'', [''registered office'', ''registered address''])]"

fun fields_by_type :: "document_type \<Rightarrow> string list" where
  "fields_by_type ID_DOCUMENT =
     [''full_name'', ''date_of_birth'', ''document_number'', ''expiry_date'', ''nationality'']"
| "fields_by_type PROOF_OF_ADDRESS = [''full_name'', ''address'', ''issue_date'', ''issuer'']"
| "fields_by_type BUSINESS_REGISTRATION =
     [''company_name'', ''registration_number'', ''registration_date'', ''legal_form'', ''registered_address'']"
| "fields_by_type UBO_DECLARATION = [''company_name'']"
| "fields_by_type UNKNOWN = []"

definition date_fields :: "string list" where
  "date_fields = [''date_of_birth'', ''expiry_date'', ''issue_date'', ''registration_date'']"

section \<open>Patterns\<close>

definition lower_or_underscore :: "char \<Rightarrow> bool" where
  "lower_or_underscore x \<longleftrightarrow> (97 \<le> code x \<and> code x \<le> 122) \<or> x = CHR ''_''"

definition glitch_re :: "atom list" where
  "glitch_re = lits ''[OCR-GLITCH:''
     @ [Open ''field'', Many 1 lower_or_underscore, Close ''field'', Ch (lit (CHR ''='')),
        Open ''value'', Many 1 (\<lambda>x. x \<noteq> CHR '']''), Close ''value'', Ch (lit (CHR '']''))]"

definition owner_re :: "atom list" where
  "owner_re =
     [Bol, Ch (\<lambda>x. x = CHR ''-'' \<or> x = CHR ''*''), Many 0 py_isspace,
      Open ''name'', Lazy 1 (\<lambda>x. x \<noteq> CHR '';''), Close ''name'',
      Many 0 py_isspace, Ch (lit (CHR '';'')), Many 0 py_isspace] @ lits_ci ''born''
     @ [Many 1 py_isspace, Open ''dob'',
        Many 1 (\<lambda>x. isdecimal x \<or> x = CHR ''.'' \<or> x = CHR ''-''), Close ''dob'',
        Many 0 py_isspace, Ch (lit (CHR '';'')), Many 0 py_isspace] @ lits_ci ''ownership''
     @ [Many 1 py_isspace, Open ''pct'', Many 1 (\<lambda>x. isdecimal x \<or> x = CHR ''.''), Close ''pct'',
        Many 0 py_isspace, Ch (lit (CHR ''%''))]"

definition label_re :: "string \<Rightarrow> atom list" where
  "label_re label = Bol # lits_ci label
     @ [Many 0 py_isspace, Ch (lit (CHR '':'')), Many 0 py_isspace,
        Open ''value'', Many 1 dot, Close ''value'', Eol]"

definition digits_re :: "string \<Rightarrow> nat \<Rightarrow> atom list" where
  "digits_re g n = Open g # replicate n (Ch isdecimal) @ [Close g]"

definition ymd_re :: "atom list" where
  "ymd_re = digits_re ''y'' 4 @ [Ch (lit (CHR ''-''))] @ digits_re ''m'' 2 @ [Ch (lit (CHR ''-''))]
     @ digits_re ''d'' 2"

definition dmy_re :: "atom list" where
  "dmy_re = digits_re ''d'' 2 @ [Ch (lit (CHR ''.''))] @ digits_re ''m'' 2 @ [Ch (lit (CHR ''.''))]
     @ digits_re ''y'' 4"

section \<open>Parsing\<close>

definition digits_value :: "string \<Rightarrow> nat" where
  "digits_value s = foldl (\<lambda>n c. n * 10 + (code c - 48)) 0 s"

definition date_of_groups :: "captures \<Rightarrow> string option" where
  "date_of_groups c =
     map_option isoformat
       (mk_date (digits_value (group ''y'' c)) (digits_value (group ''m'' c)) (digits_value (group ''d'' c)))"

definition parse_date :: "string \<Rightarrow> string option" where
  "parse_date raw0 =
     (let raw = py_strip raw0 in
      case rfull ymd_re raw of
        Some c \<Rightarrow> date_of_groups c
      | None \<Rightarrow> (case rfull dmy_re raw of Some c \<Rightarrow> date_of_groups c | None \<Rightarrow> None))"

fun find_label :: "string \<Rightarrow> string list \<Rightarrow> string option" where
  "find_label txt1 [] = None"
| "find_label txt1 (l # ls) =
     (case rsearch (label_re l) True txt1 of
        Some (k, c, b, r) \<Rightarrow> Some (py_strip (group ''value'' c))
      | None \<Rightarrow> find_label txt1 ls)"

text \<open>\<open>float(s)\<close> for the characters \<open>[0-9.]\<close>: one dot at most, and a digit.\<close>

definition parse_pct :: "string \<Rightarrow> exn + rat" where
  "parse_pct s =
     (let ip = takeWhile (\<lambda>c. c \<noteq> CHR ''.'') s; fp = tl (dropWhile (\<lambda>c. c \<noteq> CHR ''.'') s)
      in if CHR ''.'' \<in> set fp \<or> ip @ fp = []
         then Inl (Exn ''ValueError'' (''could not convert string to float: '' @ py_repr s))
         else Inr (fl (of_nat (digits_value (ip @ fp)) / 10 ^ length fp)))"

section \<open>FakeRouter\<close>

fun classify_text :: "(document_type \<times> string list) list \<Rightarrow> string \<Rightarrow> document_type \<times> rat" where
  "classify_text [] upper = (UNKNOWN, fl (2 / 10))"
| "classify_text ((t, ks) # rest) upper =
     (if \<exists>k \<in> set ks. py_in k upper then (t, fl (98 / 100)) else classify_text rest upper)"

definition fake_classify_one :: "input_document \<Rightarrow> classified_document" where
  "fake_classify_one d =
     (case classify_text type_keywords (py_upper (text_content d)) of (t, c) \<Rightarrow>
        \<lparr>cd_document_id = document_id d, cd_doc_type = t, classifier_confidence = c\<rparr>)"

definition fake_classify ::
  "input_document list \<Rightarrow> customer_type \<Rightarrow> ('w, classified_document list) action" where
  "fake_classify docs ct = ret (map fake_classify_one docs)"

section \<open>FakeExtractor\<close>

type_synonym extracted = "(string, jval) dict \<times> (string, rat) dict"

definition put :: "string \<Rightarrow> jval \<Rightarrow> extracted \<Rightarrow> extracted" where
  "put k v = (\<lambda>(flds, conf). (dict_set k v flds, dict_set k (fl (98 / 100)) conf))"

definition field_value :: "string \<Rightarrow> string \<Rightarrow> string option" where
  "field_value txt1 fld =
     (case find_label txt1 (the (map_of labels fld)) of
        None \<Rightarrow> None
      | Some raw \<Rightarrow> if fld \<in> set date_fields then parse_date raw else Some raw)"

definition label_fields :: "string \<Rightarrow> document_type \<Rightarrow> extracted \<Rightarrow> extracted" where
  "label_fields txt1 t = fold (\<lambda>fld acc. case field_value txt1 fld of
     None \<Rightarrow> acc | Some v \<Rightarrow> put fld (JStr v) acc) (fields_by_type t)"

definition opt_json :: "string option \<Rightarrow> jval" where
  "opt_json x = (case x of None \<Rightarrow> JNull | Some s \<Rightarrow> JStr s)"

fun owners_of :: "captures list \<Rightarrow> exn + jval list" where
  "owners_of [] = Inr []"
| "owners_of (c # cs) =
     (case parse_pct (group ''pct'' c) of
        Inl e \<Rightarrow> Inl e
      | Inr p \<Rightarrow> (case owners_of cs of
          Inl e \<Rightarrow> Inl e
        | Inr os \<Rightarrow> Inr (JObj
            [(''full_name'', JStr (py_strip (group ''name'' c))),
             (''date_of_birth'', opt_json (parse_date (group ''dob'' c))),
             (''ownership_percent'', JFloat p)] # os)))"

definition add_owner_list :: "string \<Rightarrow> document_type \<Rightarrow> extracted \<Rightarrow> exn + extracted" where
  "add_owner_list txt1 t acc =
     (if t = UBO_DECLARATION
      then case owners_of (finditer owner_re True txt1) of
             Inl e \<Rightarrow> Inl e
           | Inr os \<Rightarrow> Inr (if os \<noteq> [] then put ''beneficial_owners'' (JList os) acc else acc)
      else Inr acc)"

definition add_glitches :: "string \<Rightarrow> extracted \<Rightarrow> extracted" where
  "add_glitches txt1 = fold (\<lambda>c acc. put (group ''field'' c) (JStr (py_strip (group ''value'' c))) acc)
     (finditer glitch_re True txt1)"

definition fake_extraction :: "input_document \<Rightarrow> document_type \<Rightarrow> exn + extraction_result" where
  "fake_extraction d t =
     (let txt1 = text_content d in
      case add_owner_list txt1 t (label_fields txt1 t ([], [])) of
        Inl e \<Rightarrow> Inl e
      | Inr acc \<Rightarrow>
         (case add_glitches txt1 acc of (flds, conf) \<Rightarrow>
            Inr (if flds = []
                 then \<lparr>er_document_id = document_id d, er_doc_type = t, er_fields = [],
                       field_confidence = [],
                       extraction_error = Some ''unreadable document: no recognizable fields''\<rparr>
                 else \<lparr>er_document_id = document_id d, er_doc_type = t, er_fields = flds,
                       field_confidence = conf, extraction_error = None\<rparr>)))"

definition fake_extract :: "input_document \<Rightarrow> document_type \<Rightarrow> ('w, extraction_result) action" where
  "fake_extract d t = of_result (fake_extraction d t)"

section \<open>FakeEvaluator\<close>

definition haystack :: "string \<Rightarrow> string" where
  "haystack txt1 = collapse (py_casefold (rsub glitch_re '' '' True txt1))"

definition grounded :: "string \<Rightarrow> string \<Rightarrow> bool" where
  "grounded hay v = py_in (collapse (py_casefold v)) hay"

definition discrepancy :: "extraction_result \<Rightarrow> string \<Rightarrow> rule_flag" where
  "discrepancy e what = \<lparr>rule_id = EVALUATOR_DISCREPANCY, severity = CRITICAL,
     details = document_type_value (er_doc_type e) @ ''/'' @ er_document_id e @ '': '' @ what
               @ '' not found in the source document''\<rparr>"

definition value_flags :: "string \<Rightarrow> extraction_result \<Rightarrow> string \<Rightarrow> jval \<Rightarrow> rule_flag list" where
  "value_flags hay e fld v = (case v of
     JStr s \<Rightarrow> if grounded hay s then []
               else [discrepancy e (''extracted '' @ fld @ ''='' @ py_repr s)]
   | _ \<Rightarrow> [])"

fun claimed_owner :: "jval \<Rightarrow> jval option" where
  "claimed_owner (JObj d) = (if truthy (dict_get d ''full_name'') then dict_get d ''full_name'' else None)"
| "claimed_owner _ = None"

fun owner_flags :: "string \<Rightarrow> extraction_result \<Rightarrow> jval list \<Rightarrow> exn + rule_flag list" where
  "owner_flags hay e [] = Inr []"
| "owner_flags hay e (x # xs) =
     (case claimed_owner x of
        None \<Rightarrow> owner_flags hay e xs
      | Some (JStr n) \<Rightarrow> map_sum id
          (\<lambda>fs. (if grounded hay n then [] else [discrepancy e (''beneficial owner '' @ py_repr n)]) @ fs)
          (owner_flags hay e xs)
      | Some v \<Rightarrow> Inl (not_a_str v))"

fun verify_fields :: "string \<Rightarrow> extraction_result \<Rightarrow> (string, jval) dict \<Rightarrow> exn + rule_flag list" where
  "verify_fields hay e [] = Inr []"
| "verify_fields hay e ((fld, v) # rest) =
     (if fld \<in> set date_fields then verify_fields hay e rest
      else case (case v of JList os \<Rightarrow> if fld = ''beneficial_owners'' then owner_flags hay e os else Inr []
                         | _ \<Rightarrow> Inr []) of
             Inl x \<Rightarrow> Inl x
           | Inr ofs \<Rightarrow> map_sum id (\<lambda>fs. value_flags hay e fld v @ ofs @ fs) (verify_fields hay e rest))"

definition fake_verify :: "input_document \<Rightarrow> extraction_result \<Rightarrow> ('w, rule_flag list) action" where
  "fake_verify d e = of_result (verify_fields (haystack (text_content d)) e (er_fields e))"

section \<open>FakeRiskNarrator\<close>

definition flag_line :: "rule_flag \<Rightarrow> string" where
  "flag_line f = ''- ['' @ severity_value (severity f) @ ''] '' @ rule_id_value (rule_id f) @ '': '' @ details f"

definition fake_narration :: "applicant_declared \<Rightarrow> rule_flag list \<Rightarrow> rule_flag list \<Rightarrow> string" where
  "fake_narration a triggered vflags =
     (if triggered = [] \<and> vflags = []
      then ''No risk triggers or validation flags for '' @ full_name a
           @ ''; case qualifies for automatic processing.''
      else py_join [newline] ((''Risk summary for '' @ full_name a @ '':'')
             # map flag_line triggered @ map flag_line vflags))"

definition fake_narrate ::
  "applicant_declared \<Rightarrow> rule_flag list \<Rightarrow> rule_flag list \<Rightarrow> ('w, string) action" where
  "fake_narrate a triggered vflags = ret (fake_narration a triggered vflags)"

definition fake_services :: "'w pipeline_services" where
  "fake_services = \<lparr>classify = fake_classify, extract_fields = fake_extract,
     verify_grounding = fake_verify, narrate = fake_narrate\<rparr>"

end
