(* ===== verification/Nodes.thy ===== *)
theory Nodes
  imports Services State
begin

text \<open>
  \<open>graph/nodes.py\<close>: every node as an action that returns its command, that is the state update
  and where to go next. A node that returns a plain update goes along the static edges. The
  audit calls, the calls of the services and their retries are made in the order of the code;
  an exception outside \<open>run_resilient\<close> is the exception of the node.
\<close>

datatype node =
    Intake | Router | Orchestrator | Extract_document | Validator | Risk_scorer
  | Decision_gate | Auto_decision | Human_review | Finalize | Handle_error

datatype goto = Static | Goto node | Send "extract_task list"

type_synonym command = "kyc_update \<times> goto"

abbreviation resilient ::
  "pipeline_step \<Rightarrow> string \<Rightarrow> ('w, 'a) action \<Rightarrow> ('w, 'a) action option \<Rightarrow> int
    \<Rightarrow> ('w, step_exhausted + 'a \<times> processing_error list) action" where
  "resilient step node p f mr \<equiv> pure_st (run_resilient step node p f mr)"

abbreviation retries :: "'w pipeline_context \<Rightarrow> int" where
  "retries ctx \<equiv> max_step_retries (cx_settings ctx)"

definition docs_by_id :: "kyc_package \<Rightarrow> (string, input_document) dict" where
  "docs_by_id p = dict_of (map (\<lambda>d. (document_id d, d)) (documents p))"

definition key_error :: "string \<Rightarrow> exn" where
  "key_error k = Exn ''KeyError'' (py_repr k)"

section \<open>intake and router\<close>

definition intake :: "'w pipeline_context \<Rightarrow> kyc_state \<Rightarrow> ('w, command) action" where
  "intake ctx st =
     abind (log_event ctx (case_id st) ''intake'' ''node_completed''
        [(''customer_type'', PCustomer (customer_type (package st))),
         (''applicant'', PStr (full_name (applicant (package st)))),
         (''documents'', PStrs (map document_id (documents (package st))))]) (\<lambda>_.
     ret (no_update\<lparr>u_status := Some PROCESSING\<rparr>, Static))"

definition router :: "'w pipeline_context \<Rightarrow> kyc_state \<Rightarrow> ('w, command) action" where
  "router ctx st =
     (let p = package st in
      abind (resilient ROUTER ''router''
               (classify (services ctx) (documents p) (customer_type p))
               (Some (classify (fallback ctx) (documents p) (customer_type p))) (retries ctx)) (\<lambda>r.
      case r of
        Inl exc \<Rightarrow>
          abind (log_event ctx (case_id st) ''router'' ''error'' [(''errors'', PErrors (se_errors exc))]) (\<lambda>_.
          ret (no_update\<lparr>u_errors := se_errors exc,
                 u_retry := [(''router'', length (se_errors exc))],
                 u_degraded := [''router failed after retries and fallback'']\<rparr>, Goto Handle_error))
      | Inr (classified, errs) \<Rightarrow>
          abind (log_event ctx (case_id st) ''router'' ''node_completed''
                   [(''classifications'', PClassified classified)]) (\<lambda>_.
          ret (no_update\<lparr>u_classified := Some classified, u_errors := errs,
                 u_retry := [(''router'', length errs + 1)]\<rparr>, Goto Orchestrator))))"

section \<open>orchestrator\<close>

definition unreadable_reason :: "classified_document \<Rightarrow> string" where
  "unreadable_reason c = ''unreadable or unclassifiable document: '' @ cd_document_id c"

text \<open>\<open>docs_by_id[c.document_id]\<close> for every classified document.\<close>

fun make_tasks ::
  "string \<Rightarrow> (string, input_document) dict \<Rightarrow> classified_document list \<Rightarrow> exn + extract_task list" where
  "make_tasks cid docs [] = Inr []"
| "make_tasks cid docs (c # cs) =
     (case dict_get docs (cd_document_id c) of
        None \<Rightarrow> Inl (key_error (cd_document_id c))
      | Some d \<Rightarrow>
         (case make_tasks cid docs cs of
            Inl e \<Rightarrow> Inl e
          | Inr ts \<Rightarrow> Inr (\<lparr>t_case_id = cid, t_document = d, t_doc_type = cd_doc_type c\<rparr> # ts)))"

definition orchestrator :: "'w pipeline_context \<Rightarrow> kyc_state \<Rightarrow> ('w, command) action" where
  "orchestrator ctx st =
     (case classified_documents st of
        None \<Rightarrow> raise (key_error ''classified_documents'')
      | Some classified \<Rightarrow>
         (let p = package st;
              known = filter (\<lambda>c. cd_doc_type c \<noteq> UNKNOWN) classified;
              unknown = filter (\<lambda>c. cd_doc_type c = UNKNOWN) classified;
              reasons = map unreadable_reason unknown;
              flag = check_package_completeness (customer_type p) (map cd_doc_type known);
              update = no_update\<lparr>u_degraded := reasons, u_completeness := Some flag\<rparr>
          in abind (aforeach (\<lambda>reason. log_event ctx (case_id st) ''orchestrator'' ''rule_triggered''
                       [(''rule_id'', PRule UNREADABLE_DOCUMENT), (''details'', PStr reason)]) reasons) (\<lambda>_.
             case flag of
               Some f \<Rightarrow>
                 abind (log_event ctx (case_id st) ''orchestrator'' ''rule_triggered''
                          [(''rule_id'', PRule (rule_id f)), (''details'', PStr (details f)),
                           (''degraded'', PBool (unknown \<noteq> []))]) (\<lambda>_.
                 ret (update, Goto Decision_gate))
             | None \<Rightarrow>
                 abind (log_event ctx (case_id st) ''orchestrator'' ''node_completed''
                          [(''dispatched'', PStrs (map cd_document_id known))]) (\<lambda>_.
                 abind (of_result (make_tasks (case_id st) (docs_by_id p) known)) (\<lambda>sends.
                 ret (update, Send sends))))))"

section \<open>extract_document\<close>

definition extract_node :: "extract_task \<Rightarrow> string" where
  "extract_node t = ''extract_document:'' @ document_id (t_document t)"

definition extract_document :: "'w pipeline_context \<Rightarrow> extract_task \<Rightarrow> ('w, command) action" where
  "extract_document ctx t =
     (let d = t_document t; node = extract_node t in
      abind (resilient EXTRACTOR node (extract_fields (services ctx) d (t_doc_type t))
               (Some (extract_fields (fallback ctx) d (t_doc_type t))) (retries ctx)) (\<lambda>r.
      case r of
        Inl exc \<Rightarrow>
          abind (log_event ctx (t_case_id t) node ''error'' [(''errors'', PErrors (se_errors exc))]) (\<lambda>_.
          ret (no_update\<lparr>
                 u_extractions := [\<lparr>er_document_id = document_id d, er_doc_type = t_doc_type t,
                   er_fields = [], field_confidence = [],
                   extraction_error = Some ''extraction failed after retries and fallback''\<rparr>],
                 u_errors := se_errors exc, u_retry := [(node, length (se_errors exc))],
                 u_degraded := [''extraction failed for document '' @ document_id d]\<rparr>, Static))
      | Inr (result, errs) \<Rightarrow>
          abind (log_event ctx (t_case_id t) node ''node_completed''
                   [(''doc_type'', PDocType (t_doc_type t)), (''fields'', PFields (er_fields result)),
                    (''field_confidence'', PConfidences (field_confidence result)),
                    (''extraction_error'', case extraction_error result of None \<Rightarrow> PNone | Some e \<Rightarrow> PStr e)]) (\<lambda>_.
          ret (no_update\<lparr>u_extractions := [result], u_errors := errs,
                 u_retry := [(node, length errs + 1)],
                 u_degraded := (case extraction_error result of None \<Rightarrow> []
                   | Some e \<Rightarrow> [''document '' @ document_id d @ '' unreadable: '' @ e])\<rparr>, Static))))"

section \<open>validator\<close>

definition usable :: "extraction_result \<Rightarrow> bool" where
  "usable e \<longleftrightarrow> extraction_error e = None"

fun py_min :: "rat list \<Rightarrow> rat \<Rightarrow> rat" where
  "py_min [] dflt = dflt"
| "py_min (x # xs) dflt = fold min xs x"

definition overall_confidence_of ::
  "extraction_result list \<Rightarrow> rule_flag list \<Rightarrow> rule_flag list \<Rightarrow> rat" where
  "overall_confidence_of es grounding all_flags =
     (let vals = concat (map (\<lambda>e. map snd (field_confidence e)) (filter usable es));
          c0 = py_min vals (fl (3 / 10));
          c1 = (if grounding \<noteq> [] then min c0 (fl (4 / 10)) else c0);
          c2 = (if \<exists>e \<in> set es. extraction_error e \<noteq> None then min c1 (1 / 2) else c1);
          warnings = length (filter (\<lambda>f. severity f = WARNING) all_flags);
          c3 = fl (c2 - fl (fl (5 / 100) * of_nat (min warnings 3)))
      in max 0 (min 1 (py_round4 c3)))"

text \<open>
  The loop over the extractions: \<open>Inl errs\<close> is the early return to \<open>handle_error\<close>, \<open>Inr flags\<close>
  the grounding flags of all documents.
\<close>

fun grounding_pass ::
  "'w pipeline_context \<Rightarrow> string \<Rightarrow> (string, input_document) dict \<Rightarrow> extraction_result list
    \<Rightarrow> rule_flag list \<Rightarrow> ('w, processing_error list + rule_flag list) action" where
  "grounding_pass ctx cid docs [] acc = ret (Inr acc)"
| "grounding_pass ctx cid docs (e # es) acc =
     (if extraction_error e \<noteq> None then grounding_pass ctx cid docs es acc
      else case dict_get docs (er_document_id e) of
        None \<Rightarrow> raise (key_error (er_document_id e))
      | Some d \<Rightarrow>
          abind (resilient VALIDATOR ''validator'' (verify_grounding (services ctx) d e)
                   (Some (verify_grounding (fallback ctx) d e)) (retries ctx)) (\<lambda>r.
          case r of
            Inl exc \<Rightarrow>
              abind (log_event ctx cid ''validator'' ''error'' [(''errors'', PErrors (se_errors exc))]) (\<lambda>_.
              ret (Inl (se_errors exc)))
          | Inr (flags, errs) \<Rightarrow>
              abind (if errs \<noteq> []
                     then log_event ctx cid ''validator'' ''error''
                            [(''recovered'', PBool True), (''errors'', PErrors errs)]
                     else ret ()) (\<lambda>_.
              grounding_pass ctx cid docs es (acc @ flags))))"

definition log_flags ::
  "'w pipeline_context \<Rightarrow> string \<Rightarrow> string \<Rightarrow> rule_flag list \<Rightarrow> ('w, unit) action" where
  "log_flags ctx cid node flags =
     aforeach (\<lambda>f. log_event ctx cid node ''rule_triggered''
       [(''rule_id'', PRule (rule_id f)), (''severity'', PSeverity (severity f)),
        (''details'', PStr (details f))]) flags"

definition py_bool :: "bool \<Rightarrow> string" where
  "py_bool b = (if b then ''True'' else ''False'')"

definition report_of ::
  "'w pipeline_context \<Rightarrow> extraction_result list \<Rightarrow> field_check list \<Rightarrow> rule_flag list \<Rightarrow> rule_flag list
    \<Rightarrow> validation_report" where
  "report_of ctx es checks rflags gflags =
     \<lparr>field_checks = checks, rule_flags = rflags @ gflags,
      overall_confidence = overall_confidence_of es gflags (rflags @ gflags),
      evaluator_notes = ''deterministic flags: '' @ nat_str (length rflags)
        @ ''; grounding discrepancies: '' @ nat_str (length gflags)
        @ ''; evaluator_enabled='' @ py_bool (evaluator_enabled ctx)\<rparr>"

definition ground ::
  "'w pipeline_context \<Rightarrow> kyc_state \<Rightarrow> ('w, processing_error list + rule_flag list) action" where
  "ground ctx st =
     (if evaluator_enabled ctx
      then grounding_pass ctx (case_id st) (docs_by_id (package st)) (extractions st) []
      else ret (Inr []))"

definition validator :: "'w pipeline_context \<Rightarrow> kyc_state \<Rightarrow> ('w, command) action" where
  "validator ctx st =
     (let cid = case_id st in
      abind (of_result (run_validation_rules (applicant (package st)) (extractions st) (today ctx)
               (match_thresholds_of (cx_settings ctx)))) (\<lambda>(checks, rflags).
      abind (ground ctx st) (\<lambda>g.
      case g of
        Inl errs \<Rightarrow>
          ret (no_update\<lparr>u_errors := errs, u_retry := [(''validator'', length errs)],
                 u_degraded := [''validator failed after retries and fallback'']\<rparr>, Goto Handle_error)
      | Inr gflags \<Rightarrow>
          (let report = report_of ctx (extractions st) checks rflags gflags
           in abind (log_flags ctx cid ''validator'' (rule_flags report)) (\<lambda>_.
              abind (log_event ctx cid ''validator'' ''node_completed''
                       [(''overall_confidence'', PNum (overall_confidence report)),
                        (''field_checks'', PChecks checks), (''flags'', PFlags (rule_flags report))]) (\<lambda>_.
              ret (no_update\<lparr>u_validation := Some report\<rparr>, Goto Risk_scorer)))))))"

section \<open>risk_scorer\<close>

fun screen ::
  "'w pipeline_context \<Rightarrow> 'w registry_service \<Rightarrow> jval list \<Rightarrow> string \<Rightarrow> registry_hit list
    \<Rightarrow> ('w, registry_hit list \<times> bool) action" where
  "screen ctx client [] cid hits = ret (hits, True)"
| "screen ctx client (name # names) cid hits =
     abind (resilient RISK (''risk:'' @ registry_value (rs_registry client)) (rs_search client name) None
              (retries ctx)) (\<lambda>r.
     case r of
       Inl exc \<Rightarrow>
         abind (log_event ctx cid ''risk_scorer'' ''error''
                  [(''registry'', PRegistry (rs_registry client)),
                   (''details'', PStr ''registry unavailable after retries'')]) (\<lambda>_.
         ret (hits, False))
     | Inr (found, errs) \<Rightarrow>
         abind (log_event ctx cid ''risk_scorer'' ''registry_checked''
                  [(''registry'', PRegistry (rs_registry client)), (''query'', PJson name),
                   (''hits'', PHits found)]) (\<lambda>_.
         screen ctx client names cid (hits @ found)))"

definition person_doc_types :: "document_type list" where
  "person_doc_types = [ID_DOCUMENT, PROOF_OF_ADDRESS]"

text \<open>
  \<open>for owner in extraction.fields.get("beneficial_owners") or []\<close>: a string or object is
  iterated without finding a dictionary; a number or \<open>True\<close> is not iterable; a list or object
  as a name is not hashable.
\<close>

definition not_iterable :: "jval \<Rightarrow> exn" where
  "not_iterable v = Exn ''TypeError'' (py_repr (jtype v) @ '' object is not iterable'')"

definition unhashable :: "jval \<Rightarrow> exn" where
  "unhashable v = Exn ''TypeError'' (''unhashable type: '' @ py_repr (jtype v))"

fun owner_items :: "jval option \<Rightarrow> exn + jval list" where
  "owner_items (Some (JList l)) = Inr l"
| "owner_items (Some (JStr s)) = Inr []"
| "owner_items (Some (JObj d)) = Inr []"
| "owner_items v = (if truthy v then Inl (not_iterable (the v)) else Inr [])"

fun owner_name :: "jval \<Rightarrow> jval option" where
  "owner_name (JObj d) = (if truthy (dict_get d ''full_name'') then dict_get d ''full_name'' else None)"
| "owner_name _ = None"

fun hashable :: "jval \<Rightarrow> bool" where
  "hashable (JList _) = False"
| "hashable (JObj _) = False"
| "hashable _ = True"

fun add_owners :: "jval list \<Rightarrow> jval list \<Rightarrow> exn + jval list" where
  "add_owners [] owners = Inr owners"
| "add_owners (x # xs) owners =
     (case owner_name x of
        None \<Rightarrow> add_owners xs owners
      | Some n \<Rightarrow> if hashable n then add_owners xs (add_key n owners) else Inl (unhashable n))"

type_synonym names = "string list \<times> string list \<times> jval list"

definition add_names :: "extraction_result \<Rightarrow> names \<Rightarrow> exn + names" where
  "add_names e = (\<lambda>(persons, companies, owners).
     if extraction_error e \<noteq> None then Inr (persons, companies, owners)
     else let flds = er_fields e;
              persons' = (case dict_get flds ''full_name'' of
                  Some (JStr n) \<Rightarrow> if er_doc_type e \<in> set person_doc_types then add_key n persons else persons
                | _ \<Rightarrow> persons);
              companies' = (case dict_get flds ''company_name'' of
                  Some (JStr n) \<Rightarrow> add_key n companies | _ \<Rightarrow> companies)
          in case owner_items (dict_get flds ''beneficial_owners'') of
               Inl x \<Rightarrow> Inl x
             | Inr items \<Rightarrow> (case add_owners items owners of
                 Inl x \<Rightarrow> Inl x | Inr owners' \<Rightarrow> Inr (persons', companies', owners')))"

fun add_all_names :: "extraction_result list \<Rightarrow> names \<Rightarrow> exn + names" where
  "add_all_names [] ns = Inr ns"
| "add_all_names (e # es) ns = (case add_names e ns of Inl x \<Rightarrow> Inl x | Inr ns' \<Rightarrow> add_all_names es ns')"

definition screening_names :: "kyc_state \<Rightarrow> exn + names" where
  "screening_names st =
     (let a = applicant (package st);
          companies = (case company_name a of
              Some c \<Rightarrow> if customer_type (package st) = BUSINESS \<and> c \<noteq> [] then [c] else []
            | None \<Rightarrow> [])
      in add_all_names (extractions st) ([full_name a], companies, []))"

definition plain_rationale :: "rule_flag list \<Rightarrow> string" where
  "plain_rationale triggered =
     (let s = py_join ''; '' (map (\<lambda>f. rule_id_value (rule_id f) @ '': '' @ details f) triggered)
      in if s = [] then ''no risk triggers fired'' else s)"

definition validation_flags :: "kyc_state \<Rightarrow> rule_flag list" where
  "validation_flags st = (case validation st of None \<Rightarrow> [] | Some v \<Rightarrow> rule_flags v)"

definition state_confidence :: "kyc_state \<Rightarrow> rat" where
  "state_confidence st = (case validation st of None \<Rightarrow> 0 | Some v \<Rightarrow> overall_confidence v)"

definition ubo_screen ::
  "'w pipeline_context \<Rightarrow> jval list \<Rightarrow> string
    \<Rightarrow> ('w, (registry_hit list \<times> bool) \<times> registry_hit list \<times> bool) action" where
  "ubo_screen ctx owners cid =
     (if owners = [] then ret (([], True), ([], True))
      else abind (screen ctx (sanctions ctx) owners cid []) (\<lambda>us.
           abind (screen ctx (pep ctx) owners cid []) (\<lambda>up. ret (us, up))))"

text \<open>
  The screening part of the node: sanctions hits, PEP hits, hits of the beneficial owners, and
  the registries that did not answer.
\<close>

type_synonym screening =
  "registry_hit list \<times> registry_hit list \<times> registry_hit list \<times> registry_name list"

definition screen_all :: "'w pipeline_context \<Rightarrow> kyc_state \<Rightarrow> ('w, screening) action" where
  "screen_all ctx st =
     (let cid = case_id st in
      abind (of_result (screening_names st)) (\<lambda>(persons, companies, owners).
      abind (screen ctx (sanctions ctx) (map JStr (persons @ companies)) cid []) (\<lambda>(shits, sok).
      abind (screen ctx (pep ctx) (map JStr persons) cid []) (\<lambda>(phits, pok).
      abind (ubo_screen ctx owners cid) (\<lambda>((us, usok), (up, upok)).
      ret (shits, phits, us @ up,
           (if sok \<and> usok then [] else [SANCTIONS]) @ (if pok \<and> upok then [] else [PEP])))))))"

definition triggers_of :: "'w pipeline_context \<Rightarrow> kyc_state \<Rightarrow> screening \<Rightarrow> rule_flag list" where
  "triggers_of ctx st = (\<lambda>(shits, phits, ubo, unavailable).
     evaluate_risk_rules (customer_type (package st))
       (expected_monthly_volume_eur (applicant (package st))) (state_confidence st)
       (validation_flags st) shits phits ubo unavailable (risk_thresholds_of (cx_settings ctx)))"

definition assessment_of :: "rule_flag list \<Rightarrow> screening \<Rightarrow> string \<Rightarrow> risk_assessment" where
  "assessment_of triggered = (\<lambda>(shits, phits, ubo, unavailable) nar.
     \<lparr>level = risk_level triggered, triggered_rules = triggered, sanctions_hits = shits,
      pep_hits = phits @ ubo, risk_rationale = nar\<rparr>)"

definition risk_scorer :: "'w pipeline_context \<Rightarrow> kyc_state \<Rightarrow> ('w, command) action" where
  "risk_scorer ctx st =
     (let a = applicant (package st); cid = case_id st; vflags = validation_flags st in
      abind (screen_all ctx st) (\<lambda>(shits, phits, ubo, unavailable).
      let triggered = triggers_of ctx st (shits, phits, ubo, unavailable)
      in abind (resilient RISK ''risk_scorer'' (narrate (services ctx) a triggered vflags)
                  (Some (narrate (fallback ctx) a triggered vflags)) (retries ctx)) (\<lambda>r.
         let nar = (case r of Inl _ \<Rightarrow> plain_rationale triggered | Inr (t, _) \<Rightarrow> t);
             assessment = assessment_of triggered (shits, phits, ubo, unavailable) nar
         in abind (log_flags ctx cid ''risk_scorer'' triggered) (\<lambda>_.
            abind (log_event ctx cid ''risk_scorer'' ''node_completed''
                     [(''level'', PLevel (level assessment)), (''triggered'', PRules (map rule_id triggered)),
                      (''sanctions_hits'', PNat (length shits)), (''pep_hits'', PNat (length phits)),
                      (''ubo_hits'', PNat (length ubo))]) (\<lambda>_.
            ret (no_update\<lparr>u_risk := Some assessment\<rparr>, Static))))))"

section \<open>decision_gate, auto_decision\<close>

definition state_triggers :: "kyc_state \<Rightarrow> rule_flag list" where
  "state_triggers st = (case risk st of None \<Rightarrow> [] | Some r \<Rightarrow> triggered_rules r)"

definition gate_decision :: "kyc_state \<Rightarrow> decision" where
  "gate_decision st =
     decide_gate (completeness_flag st) (validation_flags st) (state_triggers st) (is_degraded st)"

definition decision_gate :: "'w pipeline_context \<Rightarrow> kyc_state \<Rightarrow> ('w, command) action" where
  "decision_gate ctx st =
     (let d = gate_decision st in
      abind (log_event ctx (case_id st) ''decision_gate'' ''node_completed''
               [(''outcome'', POutcome (outcome d)), (''reason_codes'', PRules (reason_codes d))]) (\<lambda>_.
      ret (if outcome d = ESCALATE
           then (no_update\<lparr>u_decision := Some d, u_status := Some AWAITING_HUMAN_REVIEW\<rparr>, Goto Human_review)
           else (no_update\<lparr>u_decision := Some d\<rparr>, Goto Auto_decision))))"

definition auto_decision :: "'w pipeline_context \<Rightarrow> kyc_state \<Rightarrow> ('w, command) action" where
  "auto_decision ctx st =
     (case decision st of
        None \<Rightarrow> raise (key_error ''decision'')
      | Some d \<Rightarrow>
          abind (log_event ctx (case_id st) ''auto_decision'' ''decision_made''
                   [(''outcome'', POutcome (outcome d)), (''decided_by'', PDecidedBy (decided_by d)),
                    (''reason_codes'', PRules (reason_codes d)), (''rationale'', PStr (rationale d))]) (\<lambda>_.
          ret (no_update, Static)))"

section \<open>human_review\<close>

record review_payload =
  rp_case_id :: string
  rp_reason_codes :: "rule_id list"
  rp_extracted :: "(string, (string, jval) dict) dict"
  rp_flags :: "rule_flag list"
  rp_risk :: "risk_assessment option"
  system_recommendation :: string
  rp_degraded :: bool
  rp_degraded_reasons :: "string list"
  resume_error :: "string option"

definition state_codes :: "kyc_state \<Rightarrow> rule_id list" where
  "state_codes st = (case decision st of None \<Rightarrow> [] | Some d \<Rightarrow> reason_codes d)"

definition review_payload_of :: "kyc_state \<Rightarrow> string option \<Rightarrow> review_payload" where
  "review_payload_of st err =
     (let codes = state_codes st in
      \<lparr>rp_case_id = case_id st, rp_reason_codes = codes,
       rp_extracted = dict_of (map (\<lambda>e. (er_document_id e, er_fields e)) (extractions st)),
       rp_flags = validation_flags st, rp_risk = risk st,
       system_recommendation =
         (if {SANCTIONS_HIT, PEP_MATCH, UBO_SANCTIONS_OR_PEP} \<inter> set codes \<noteq> {} then ''reject''
          else ''manual_verification''),
       rp_degraded = is_degraded st, rp_degraded_reasons = degraded_reasons st,
       resume_error = err\<rparr>)"

text \<open>
  The review loop. Every resume re-runs the node, and \<open>interrupt\<close> returns the resume values
  given so far one after the other; when they are used up it interrupts with the payload of
  that round (\<open>Inl\<close>). The first valid value ends the loop.
\<close>

definition resume_error_text :: "nat \<Rightarrow> string" where
  "resume_error_text n = ''invalid review payload: '' @ nat_str n @ '' validation error(s)''"

fun review_loop :: "kyc_state \<Rightarrow> string option \<Rightarrow> jval list \<Rightarrow> review_payload + human_decision" where
  "review_loop st err [] = Inl (review_payload_of st err)"
| "review_loop st err (v # vs) =
     (case validate_human_decision v of
        Inr h \<Rightarrow> Inr h
      | Inl n \<Rightarrow> review_loop st (Some (resume_error_text n)) vs)"

definition human_decision_of :: "kyc_state \<Rightarrow> human_decision \<Rightarrow> decision" where
  "human_decision_of st h =
     \<lparr>outcome = decision_outcome_of (h_outcome h), decided_by = HUMAN, reason_codes = state_codes st,
      rationale = (if h_comment h \<noteq> [] then h_comment h else ''human review by '' @ h_reviewer h),
      reviewer = Some (h_reviewer h)\<rparr>"

definition human_review ::
  "'w pipeline_context \<Rightarrow> jval list \<Rightarrow> kyc_state \<Rightarrow> ('w, review_payload + command) action" where
  "human_review ctx resumes st =
     (case review_loop st None resumes of
        Inl request \<Rightarrow> ret (Inl request)
      | Inr h \<Rightarrow>
         (let d = human_decision_of st h in
          abind (log_event ctx (case_id st) ''human_review'' ''human_decision''
                   [(''outcome'', POutcome (outcome d)), (''reviewer'', PStr (h_reviewer h)),
                    (''comment'', PStr (h_comment h)), (''reason_codes'', PRules (reason_codes d))]) (\<lambda>_.
          ret (Inr (no_update\<lparr>u_decision := Some d\<rparr>, Static)))))"

section \<open>finalize and handle_error\<close>

definition finalize :: "'w pipeline_context \<Rightarrow> kyc_state \<Rightarrow> ('w, command) action" where
  "finalize ctx st =
     (case decision st of
        None \<Rightarrow> raise (key_error ''decision'')
      | Some d \<Rightarrow>
          abind (log_event ctx (case_id st) ''finalize'' ''case_completed''
                   [(''outcome'', POutcome (outcome d)), (''decided_by'', PDecidedBy (decided_by d)),
                    (''reason_codes'', PRules (reason_codes d)),
                    (''reviewer'', case reviewer d of None \<Rightarrow> PNone | Some r \<Rightarrow> PStr r),
                    (''degraded'', PBool (is_degraded st))]) (\<lambda>_.
          ret (no_update\<lparr>u_status := Some COMPLETED\<rparr>, Static)))"

definition last_n :: "nat \<Rightarrow> 'a list \<Rightarrow> 'a list" where
  "last_n n xs = drop (length xs - n) xs"

definition handle_error :: "'w pipeline_context \<Rightarrow> kyc_state \<Rightarrow> ('w, command) action" where
  "handle_error ctx st =
     abind (log_event ctx (case_id st) ''handle_error'' ''error''
        [(''degraded_reasons'', PStrs (degraded_reasons st)),
         (''errors'', PErrors (last_n 5 (errors st)))]) (\<lambda>_.
     ret (no_update\<lparr>u_status := Some PROCESSING\<rparr>, Static))"

end
