(* ===== verification/Typed.thy ===== *)
theory Typed
  imports Nodes
begin

text \<open>
  Extractions whose fields have the types of the extraction schemas. The validation rules and the
  screening read the fields of an \<open>ExtractionResult\<close> without checking their types; on typed
  fields neither can raise. The law of an extractor that returns typed fields is a locale.
\<close>

section \<open>Typed fields\<close>

fun str_or_none :: "jval option \<Rightarrow> bool" where
  "str_or_none None = True"
| "str_or_none (Some JNull) = True"
| "str_or_none (Some (JStr s)) = True"
| "str_or_none (Some v) = False"

fun date_or_none :: "jval option \<Rightarrow> bool" where
  "date_or_none None = True"
| "date_or_none (Some JNull) = True"
| "date_or_none (Some (JStr s)) = (s = [] \<or> fromisoformat s \<noteq> None)"
| "date_or_none (Some v) = False"

fun owner_typed :: "jval \<Rightarrow> bool" where
  "owner_typed (JObj d) = str_or_none (dict_get d ''full_name'')"
| "owner_typed v = False"

fun owners_typed :: "jval option \<Rightarrow> bool" where
  "owners_typed None = True"
| "owners_typed (Some JNull) = True"
| "owners_typed (Some (JList os)) = (\<forall>x \<in> set os. owner_typed x)"
| "owners_typed (Some v) = False"

definition string_fields :: "string list" where
  "string_fields = [''full_name'', ''date_of_birth'', ''address'', ''company_name'', ''registration_number'']"

definition typed_fields :: "(string, jval) dict \<Rightarrow> bool" where
  "typed_fields d \<longleftrightarrow>
     (\<forall>k \<in> set string_fields. str_or_none (dict_get d k))
     \<and> date_or_none (dict_get d ''expiry_date'') \<and> owners_typed (dict_get d ''beneficial_owners'')"

definition typed_extraction :: "extraction_result \<Rightarrow> bool" where
  "typed_extraction e \<longleftrightarrow> extraction_error e \<noteq> None \<or> typed_fields (er_fields e)"

section \<open>Nothing raises on typed fields\<close>

lemma opt_str_typed: "str_or_none v \<Longrightarrow> \<exists>x. opt_str v = Inr x"
  by (cases v rule: str_or_none.cases) auto

lemma parse_expiry_typed: "date_or_none v \<Longrightarrow> \<exists>x. parse_expiry v = Inr x"
  by (cases v rule: date_or_none.cases) (auto simp: parse_expiry_def)

lemma typed_fieldD: "typed_fields d \<Longrightarrow> k \<in> set string_fields \<Longrightarrow> \<exists>x. opt_str (dict_get d k) = Inr x"
  using opt_str_typed by (simp add: typed_fields_def)

lemma typed_no_raise:
  assumes "typed_extraction e"
  shows "doc_raises a e = None"
proof (cases "extraction_error e = None")
  case True
  then have t: "typed_fields (er_fields e)" using assms by (simp add: typed_extraction_def)
  have get: "map_sum id (\<lambda>_. ()) (opt_str (dict_get (er_fields e) k)) = Inr ()" if "k \<in> set string_fields" for k
    using typed_fieldD [OF t that] by auto
  have expiry: "map_sum id (\<lambda>_. ()) (parse_expiry (dict_get (er_fields e) ''expiry_date'')) = Inr ()"
    using parse_expiry_typed [of "dict_get (er_fields e) ''expiry_date''"] t by (auto simp: typed_fields_def)
  show ?thesis
    by (cases "er_doc_type e") (simp_all add: doc_raises_def True get expiry string_fields_def)
qed (simp add: doc_raises_def)

lemma rules_typed:
  assumes "\<forall>e \<in> set es. typed_extraction e"
  shows "\<exists>r. run_validation_rules a es td th = Inr r"
proof -
  have "first_some (doc_raises a) es = None"
    using assms typed_no_raise by (simp add: first_some_None_iff)
  then show ?thesis by (simp add: run_validation_rules_eq)
qed

lemma owner_items_typed:
  assumes "owners_typed v"
  obtains items where "owner_items v = Inr items" "\<forall>x \<in> set items. owner_typed x"
  using assms that by (cases v rule: owners_typed.cases) auto

lemma owner_name_typed: "owner_typed x \<Longrightarrow> owner_name x = Some n \<Longrightarrow> hashable n"
proof (cases x)
  case (JObj d)
  assume "owner_typed x" "owner_name x = Some n"
  then have "str_or_none (Some n)" using JObj by (auto split: if_splits)
  then show ?thesis by (cases n) simp_all
qed simp_all

lemma add_owners_typed: "\<forall>x \<in> set xs. owner_typed x \<Longrightarrow> \<exists>os'. add_owners xs os = Inr os'"
proof (induction xs arbitrary: os)
  case (Cons x xs)
  then show ?case using owner_name_typed [of x] by (cases "owner_name x") auto
qed simp

lemma add_names_typed:
  assumes "typed_extraction e"
  shows "\<exists>ns'. add_names e ns = Inr ns'"
proof -
  obtain p c os where ns: "ns = (p, c, os)" by (cases ns)
  show ?thesis
  proof (cases "extraction_error e = None")
    case True
    then have "owners_typed (dict_get (er_fields e) ''beneficial_owners'')"
      using assms by (simp add: typed_extraction_def typed_fields_def)
    then obtain items where items: "owner_items (dict_get (er_fields e) ''beneficial_owners'') = Inr items"
      "\<forall>x \<in> set items. owner_typed x" by (rule owner_items_typed)
    obtain os' where "add_owners items os = Inr os'" using add_owners_typed [OF items(2)] by blast
    then show ?thesis using items(1) by (simp add: add_names_def ns Let_def)
  qed (simp add: add_names_def ns)
qed

lemma add_all_names_typed: "\<forall>e \<in> set es. typed_extraction e \<Longrightarrow> \<exists>ns'. add_all_names es ns = Inr ns'"
proof (induction es arbitrary: ns)
  case (Cons e es)
  then show ?case using add_names_typed [of e ns] by auto
qed (metis add_all_names.simps(1))

lemma names_typed: "\<forall>e \<in> set (extractions st). typed_extraction e \<Longrightarrow> \<exists>ns. screening_names st = Inr ns"
  unfolding screening_names_def Let_def by (rule add_all_names_typed)

section \<open>Extractors of typed fields\<close>

locale typed_extractor = extractor_service extract_fields
  for extract_fields :: "input_document \<Rightarrow> document_type \<Rightarrow> ('w, extraction_result) action" +
  fixes docs :: "input_document set"
  assumes typed: "d \<in> docs \<Longrightarrow> extract_fields d t w = (Inr e, w') \<Longrightarrow> typed_extraction e"
begin

lemma resilient_typed:
  assumes "d \<in> docs"
    and "\<And>w e w'. f w = (Inr e, w') \<Longrightarrow> typed_extraction e"
    and "run_resilient step node (extract_fields d t) (Some f) mr w = (Inr (e, errs), w')"
  shows "typed_extraction e"
  using assms(3) by (rule run_resilient_result) (use assms(1,2) typed in auto)

end

end
