(* ===== verification/FakeFacts.thy ===== *)
theory FakeFacts
  imports FakeLLM Typed
begin

text \<open>
  What the offline services of \<open>llm/fake.py\<close> guarantee: they keep the service contracts, dates
  come out in ISO form, and the grounding check accepts everything the extractor copies from a
  document and nothing that is not there.
\<close>

section \<open>Normalising a piece of a text\<close>

definition stripped :: "string \<Rightarrow> bool" where
  "stripped v \<longleftrightarrow> v = [] \<or> (\<not> py_isspace (hd v) \<and> \<not> py_isspace (last v))"

lemma collapse_Nil [simp]: "collapse [] = []"
  by (simp add: collapse_def)

lemma collapse_space: "py_isspace c \<Longrightarrow> collapse (c # t) = collapse t"
  by (simp add: collapse_def py_split_space)

text \<open>What separates a character from the rest of a normalised text.\<close>

definition gap :: "string \<Rightarrow> string" where
  "gap t = (if py_split t = [] \<or> \<not> py_isspace (hd t) then [] else '' '')"

lemma py_split_single: "\<not> py_isspace c \<Longrightarrow> t = [] \<or> py_isspace (hd t) \<Longrightarrow> py_split (c # t) = [c] # py_split t"
  using py_split_word [of "[c]" t] by (simp add: word_def)

lemma py_split_join_char:
  assumes "\<not> py_isspace c" "\<not> py_isspace d"
  shows "\<exists>w ws. py_split (d # t) = w # ws \<and> py_split (c # d # t) = (c # w) # ws"
proof -
  have "dropWhile py_isspace (d # t) = d # t" "dropWhile py_isspace (c # d # t) = c # d # t"
    using assms by simp_all
  from py_split_next [OF this(1)] py_split_next [OF this(2)] show ?thesis using assms(2) by simp
qed

lemma collapse_char:
  assumes "\<not> py_isspace c"
  shows "collapse (c # t) = c # gap t @ collapse t"
proof (cases "t = [] \<or> py_isspace (hd t)")
  case True
  note single = py_split_single [OF assms True]
  show ?thesis
  proof (cases "py_split t")
    case Nil
    then show ?thesis using single by (simp add: collapse_def gap_def)
  next
    case (Cons w ws)
    then have "t \<noteq> []" by auto
    then show ?thesis using single Cons True by (simp add: collapse_def gap_def)
  qed
next
  case False
  then obtain d t' where t: "t = d # t'" "\<not> py_isspace d" by (cases t) auto
  obtain w ws where w: "py_split (d # t') = w # ws" "py_split (c # d # t') = (c # w) # ws"
    using py_split_join_char [OF assms t(2), of t'] by blast
  show ?thesis unfolding t(1) collapse_def gap_def w using t(2) by (cases ws) simp_all
qed

lemma split_nonblank: "d \<in> set t \<Longrightarrow> \<not> py_isspace d \<Longrightarrow> py_split t \<noteq> []"
proof (induction t)
  case (Cons c t)
  show ?case
  proof (cases "py_isspace c")
    case True
    then show ?thesis using Cons by (auto simp: py_split_space)
  next
    case False
    then have "dropWhile py_isspace (c # t) = c # t" by simp
    from py_split_next [OF this] show ?thesis by simp
  qed
qed simp

lemma collapse_after: "v \<noteq> [] \<Longrightarrow> \<not> py_isspace (hd v) \<Longrightarrow> \<exists>k. collapse (p @ v) = k @ collapse v"
proof (induction p)
  case (Cons c p)
  then obtain k where k: "collapse (p @ v) = k @ collapse v" by auto
  show ?case
  proof (cases "py_isspace c")
    case True
    then show ?thesis using k by (simp add: collapse_space)
  next
    case False
    then have "collapse ((c # p) @ v) = (c # gap (p @ v) @ k) @ collapse v" using k by (simp add: collapse_char)
    then show ?thesis by blast
  qed
qed simp

lemma collapse_before: "v \<noteq> [] \<Longrightarrow> \<not> py_isspace (last v) \<Longrightarrow> \<exists>k. collapse (v @ q) = collapse v @ k"
proof (induction v)
  case (Cons c v)
  show ?case
  proof (cases "v = []")
    case True
    then have "collapse ((c # v) @ q) = collapse (c # v) @ gap q @ collapse q"
      using Cons.prems by (simp add: collapse_char gap_def)
    then show ?thesis by blast
  next
    case False
    then have last: "\<not> py_isspace (last v)" using Cons.prems(2) by simp
    obtain k where k: "collapse (v @ q) = collapse v @ k" using Cons.IH [OF False last] by blast
    have "gap (v @ q) = gap v"
      using False last split_nonblank [of "last v" v] split_nonblank [of "last v" "v @ q"]
      by (simp add: gap_def)
    then show ?thesis using k by (cases "py_isspace c") (auto simp: collapse_space collapse_char)
  qed
qed simp

lemma collapse_infix:
  assumes "stripped v" "infix_of v t"
  shows "py_in (collapse v) (collapse t)"
proof (cases "v = []")
  case False
  obtain p q where t: "t = p @ v @ q" using assms(2) by (auto simp: infix_of_def)
  obtain k2 where "collapse (v @ q) = collapse v @ k2"
    using collapse_before False assms(1) by (metis stripped_def)
  moreover obtain k1 where "collapse (p @ v @ q) = k1 @ collapse (v @ q)"
    using collapse_after [of "v @ q" p] False assms(1) by (auto simp: stripped_def)
  ultimately show ?thesis by (auto simp: py_in_iff t)
qed (simp add: py_in_iff exI [of _ "[]"])

lemma hd_dropWhile_not: "dropWhile P s \<noteq> [] \<Longrightarrow> \<not> P (hd (dropWhile P s))"
  by (rule hd_dropWhile)

lemma strip_infix: "infix_of (py_strip s) s"
proof -
  have "\<exists>k. x = k @ dropWhile py_isspace x" for x by (metis takeWhile_dropWhile_id)
  then obtain k1 k2 where "s = k1 @ dropWhile py_isspace s"
    "rev (dropWhile py_isspace s) = k2 @ dropWhile py_isspace (rev (dropWhile py_isspace s))" by metis
  then have "s = k1 @ py_strip s @ rev k2"
    unfolding py_strip_def by (metis rev_append rev_rev_ident)
  then show ?thesis by (auto simp: infix_of_def)
qed

lemma strip_stripped: "stripped (py_strip s)"
proof (cases "py_strip s = []")
  case False
  let ?t = "dropWhile py_isspace s"
  have ne: "dropWhile py_isspace (rev ?t) \<noteq> []" using False by (simp add: py_strip_def)
  have "\<not> py_isspace (last (py_strip s))"
    using hd_dropWhile_not [OF ne] ne by (simp add: py_strip_def last_rev)
  moreover have "\<not> py_isspace (hd (py_strip s))"
  proof -
    have t: "?t \<noteq> []"
    proof
      assume "?t = []"
      then show False using False by (simp only: py_strip_def) simp
    qed
    obtain k where k: "rev ?t = k @ dropWhile py_isspace (rev ?t)" by (metis takeWhile_dropWhile_id)
    then have "?t = py_strip s @ rev k" unfolding py_strip_def by (metis rev_append rev_rev_ident)
    then have "hd ?t = hd (py_strip s)" using False by (metis hd_append2)
    then show ?thesis using hd_dropWhile_not [OF t] by simp
  qed
  ultimately show ?thesis by (simp add: stripped_def)
qed (simp add: stripped_def)

lemma casefold_stripped: "stripped v \<Longrightarrow> stripped (py_casefold v)"
proof (cases "v = []")
  case False
  assume s: "stripped v"
  have "py_casefold v \<noteq> []" using False by (cases v) (simp_all add: py_casefold_Cons)
  moreover have "hd (py_casefold v) \<in> set (casefold_char (hd v))"
    using False by (cases v) (simp_all add: py_casefold_Cons hd_append)
  moreover have "last (py_casefold v) \<in> set (casefold_char (last v))"
  proof -
    have "py_casefold v = py_casefold (butlast v) @ casefold_char (last v)"
      using False by (metis append_butlast_last_id concat.simps map_append concat_append py_casefold_def
          append_Nil2 list.map)
    then show ?thesis by (simp add: last_append)
  qed
  ultimately show ?thesis using s False isspace_casefold_char by (auto simp: stripped_def)
qed (simp add: stripped_def)

lemma casefold_infix: "infix_of v t \<Longrightarrow> infix_of (py_casefold v) (py_casefold t)"
  unfolding infix_of_def by (metis py_casefold_append)

lemma infix_trans: "infix_of a b \<Longrightarrow> infix_of b c \<Longrightarrow> infix_of a c"
  by (auto simp: infix_of_def) (metis append_assoc)

text \<open>A stripped piece of a document without markers is grounded in it.\<close>

definition no_glitch :: "string \<Rightarrow> bool" where
  "no_glitch t \<longleftrightarrow> rsearch glitch_re True t = None"

lemma haystack_no_glitch: "no_glitch t \<Longrightarrow> haystack t = collapse (py_casefold t)"
  by (simp add: haystack_def no_glitch_def rsub.simps [of glitch_re "'' ''" True t])

lemma grounded_piece:
  assumes "no_glitch t" "infix_of raw t"
  shows "grounded (haystack t) (py_strip raw)"
  unfolding grounded_def haystack_no_glitch [OF assms(1)]
  by (intro collapse_infix casefold_stripped strip_stripped casefold_infix infix_trans [OF strip_infix assms(2)])

section \<open>Dates\<close>

lemma date_of_groups_iso: "date_of_groups c = Some s \<Longrightarrow> \<exists>x. wf_date x \<and> s = isoformat x"
  by (force simp: date_of_groups_def mk_date_def wf_date_def split: if_splits)

lemma parse_date_iso:
  assumes "parse_date raw = Some s"
  obtains x where "wf_date x" "s = isoformat x"
  using assms that date_of_groups_iso by (auto simp: parse_date_def Let_def split: option.splits)

section \<open>The shape of an extraction\<close>

text \<open>What the extractor puts under a key, on a text without markers.\<close>

definition owner_ok :: "string \<Rightarrow> jval \<Rightarrow> bool" where
  "owner_ok txt1 x \<longleftrightarrow> (\<exists>raw dob p. infix_of raw txt1
     \<and> x = JObj [(''full_name'', JStr (py_strip raw)), (''date_of_birth'', dob), (''ownership_percent'', p)])"

definition value_ok :: "string \<Rightarrow> string \<Rightarrow> jval \<Rightarrow> bool" where
  "value_ok txt1 k v \<longleftrightarrow>
     (if k = ''beneficial_owners'' then \<exists>os. v = JList os \<and> (\<forall>x \<in> set os. owner_ok txt1 x)
      else if k \<in> set date_fields then \<exists>x. wf_date x \<and> v = JStr (isoformat x)
      else \<exists>raw. infix_of raw txt1 \<and> v = JStr (py_strip raw))"

definition extracted_ok_from :: "string \<Rightarrow> extracted \<Rightarrow> bool" where
  "extracted_ok_from txt1 acc \<longleftrightarrow> (\<forall>(k, v) \<in> set (fst acc). value_ok txt1 k v)"

text \<open>Every field has a confidence, and the other way round.\<close>

definition paired :: "extracted \<Rightarrow> bool" where
  "paired acc \<longleftrightarrow> fst ` set (snd acc) = fst ` set (fst acc) \<and> (\<forall>c \<in> snd ` set (snd acc). c = fl (98 / 100))"

lemma set_update_sub: "set (dict_set k v d) \<subseteq> insert (k, v) (set d)"
  by (induction d) auto

lemma paired_put:
  assumes "paired acc"
  shows "paired (put k v acc)"
proof -
  obtain f c where acc: "acc = (f, c)" by (cases acc)
  have "x = fl (98 / 100)" if x: "x \<in> snd ` set (dict_set k (fl (98 / 100)) c)" for x
  proof -
    obtain k' where "(k', x) \<in> set (dict_set k (fl (98 / 100)) c)" using x by auto
    then have "(k', x) = (k, fl (98 / 100)) \<or> (k', x) \<in> set c" using set_update_sub by fast
    then show ?thesis using assms by (force simp: paired_def acc)
  qed
  then show ?thesis using assms by (simp add: paired_def put_def acc dom_update)
qed

lemma ok_put: "extracted_ok_from t acc \<Longrightarrow> value_ok t k v \<Longrightarrow> extracted_ok_from t (put k v acc)"
  using set_update_sub [of k v "fst acc"] by (auto simp: extracted_ok_from_def put_def split: prod.splits)

lemma paired_label_fields: "paired acc \<Longrightarrow> paired (label_fields txt1 t acc)"
proof -
  have "paired acc \<Longrightarrow> paired (fold (\<lambda>fld acc. case field_value txt1 fld of
      None \<Rightarrow> acc | Some v \<Rightarrow> put fld (JStr v) acc) fs acc)" for fs
    by (induction fs arbitrary: acc) (auto simp: paired_put split: option.splits)
  then show "paired acc \<Longrightarrow> paired (label_fields txt1 t acc)" by (simp add: label_fields_def)
qed

lemma find_label_infix: "find_label t ls = Some v \<Longrightarrow> \<exists>raw. infix_of raw t \<and> v = py_strip raw"
proof (induction ls)
  case (Cons l ls)
  show ?case
  proof (cases "rsearch (label_re l) True t")
    case None
    then show ?thesis using Cons by simp
  next
    case (Some m)
    then obtain k c b r where m: "rsearch (label_re l) True t = Some (k, c, b, r)" by (cases m) auto
    then have "infix_of (group ''value'' c) t" by (intro group_infix rsearch_caps [OF m] suffix_of_refl)
    then show ?thesis using Cons.prems m by auto
  qed
qed simp

lemma field_value_ok:
  assumes "field_value t fld = Some v" and "fld \<noteq> ''beneficial_owners''"
  shows "value_ok t fld (JStr v)"
proof (cases "fld \<in> set date_fields")
  case True
  then obtain raw where "parse_date raw = Some v" using assms(1) by (auto simp: field_value_def split: option.splits)
  then obtain x where "wf_date x" "v = isoformat x" by (rule parse_date_iso)
  then show ?thesis using True assms(2) by (auto simp: value_ok_def)
next
  case False
  then have "find_label t (the (map_of labels fld)) = Some v"
    using assms(1) by (auto simp: field_value_def split: option.splits)
  then show ?thesis using find_label_infix False assms(2) by (auto simp: value_ok_def)
qed

lemma fields_by_type_plain: "fld \<in> set (fields_by_type t) \<Longrightarrow> fld \<noteq> ''beneficial_owners''"
  by (cases t) auto

lemma ok_label_fields: "extracted_ok_from txt1 acc \<Longrightarrow> extracted_ok_from txt1 (label_fields txt1 t acc)"
proof -
  have "extracted_ok_from txt1 acc \<Longrightarrow> \<forall>f \<in> set fs. f \<noteq> ''beneficial_owners'' \<Longrightarrow>
     extracted_ok_from txt1 (fold (\<lambda>fld acc. case field_value txt1 fld of
        None \<Rightarrow> acc | Some v \<Rightarrow> put fld (JStr v) acc) fs acc)" for fs
    by (induction fs arbitrary: acc) (auto simp: ok_put field_value_ok split: option.splits)
  then show "extracted_ok_from txt1 acc \<Longrightarrow> extracted_ok_from txt1 (label_fields txt1 t acc)"
    using fields_by_type_plain by (simp add: label_fields_def)
qed

lemma owners_of_ok:
  "owners_of cs = Inr os \<Longrightarrow> \<forall>c \<in> set cs. caps_in t c \<Longrightarrow> \<forall>x \<in> set os. owner_ok t x"
proof (induction cs arbitrary: os)
  case (Cons c cs)
  from Cons.prems(1) obtain os' p where "owners_of cs = Inr os'"
    "os = JObj [(''full_name'', JStr (py_strip (group ''name'' c))),
                (''date_of_birth'', opt_json (parse_date (group ''dob'' c))),
                (''ownership_percent'', JFloat p)] # os'"
    by (auto split: sum.splits)
  moreover have "infix_of (group ''name'' c) t" using Cons.prems(2) group_infix by simp
  ultimately show ?case using Cons by (auto simp: owner_ok_def)
qed simp

lemma add_owner_list_ok:
  assumes "add_owner_list txt1 t acc = Inr acc'" and "extracted_ok_from txt1 acc"
  shows "extracted_ok_from txt1 acc'"
proof (cases "t = UBO_DECLARATION")
  case True
  obtain os where os: "owners_of (finditer owner_re True txt1) = Inr os"
    "acc' = (if os \<noteq> [] then put ''beneficial_owners'' (JList os) acc else acc)"
    using assms(1) True by (auto simp: add_owner_list_def split: sum.splits)
  have "\<forall>x \<in> set os. owner_ok txt1 x"
    using owners_of_ok [OF os(1)] finditer_caps suffix_of_refl by blast
  then have "value_ok txt1 ''beneficial_owners'' (JList os)" by (simp add: value_ok_def)
  then show ?thesis using os(2) assms(2) ok_put by simp
next
  case False
  then show ?thesis using assms by (simp add: add_owner_list_def)
qed

lemma add_owner_list_paired: "add_owner_list txt1 t acc = Inr acc' \<Longrightarrow> paired acc \<Longrightarrow> paired acc'"
  by (auto simp: add_owner_list_def paired_put split: if_splits sum.splits)

lemma paired_glitches: "paired acc \<Longrightarrow> paired (add_glitches txt1 acc)"
proof -
  have "paired acc \<Longrightarrow> paired (fold (\<lambda>c acc. put (group ''field'' c) (JStr (py_strip (group ''value'' c))) acc) cs acc)" for cs
    by (induction cs arbitrary: acc) (simp_all add: paired_put)
  then show "paired acc \<Longrightarrow> paired (add_glitches txt1 acc)" by (simp add: add_glitches_def)
qed

lemma no_glitches: "no_glitch txt1 \<Longrightarrow> add_glitches txt1 acc = acc"
  by (simp add: add_glitches_def no_glitch_def finditer.simps [of glitch_re True txt1])

section \<open>The contracts\<close>

lemma paired_Nil: "paired ([], [])"
  by (simp add: paired_def)

lemma fl_098: "0 \<le> fl (98 / 100)" "fl (98 / 100) \<le> 1"
  by (rule fl_nonneg, simp) (rule fl_le_1, simp)

lemma fake_extraction_for:
  assumes "fake_extraction d t = Inr e"
  shows "extraction_for d t e"
proof -
  obtain acc where acc: "add_owner_list (text_content d) t (label_fields (text_content d) t ([], [])) = Inr acc"
    using assms by (auto simp: fake_extraction_def Let_def split: sum.splits)
  obtain flds conf where fc: "add_glitches (text_content d) acc = (flds, conf)" by fastforce
  have "paired (flds, conf)"
    using paired_glitches [OF add_owner_list_paired [OF acc paired_label_fields [OF paired_Nil]], of "text_content d"]
    by (simp add: fc)
  then have p: "fst ` set conf = fst ` set flds" "\<forall>c \<in> snd ` set conf. 0 \<le> c \<and> c \<le> 1"
    using fl_098 by (auto simp: paired_def)
  have "e = (if flds = []
       then \<lparr>er_document_id = document_id d, er_doc_type = t, er_fields = [], field_confidence = [],
             extraction_error = Some ''unreadable document: no recognizable fields''\<rparr>
       else \<lparr>er_document_id = document_id d, er_doc_type = t, er_fields = flds,
             field_confidence = conf, extraction_error = None\<rparr>)"
    using assms acc fc by (simp add: fake_extraction_def Let_def)
  then show ?thesis using p by (simp add: extraction_for_def)
qed

lemma fake_extract_for: "fake_extract d t w = (Inr e, w') \<Longrightarrow> extraction_for d t e"
  using fake_extraction_for by (auto simp: fake_extract_def act_simps)

definition all_discrepancies :: "rule_flag list \<Rightarrow> bool" where
  "all_discrepancies fs \<longleftrightarrow> (\<forall>f \<in> set fs. rule_id f = EVALUATOR_DISCREPANCY \<and> severity f = CRITICAL)"

lemma all_discrepancies_simps [simp]:
  "all_discrepancies []" "all_discrepancies (f # fs) \<longleftrightarrow>
     rule_id f = EVALUATOR_DISCREPANCY \<and> severity f = CRITICAL \<and> all_discrepancies fs"
  "all_discrepancies (fs @ gs) \<longleftrightarrow> all_discrepancies fs \<and> all_discrepancies gs"
  by (auto simp: all_discrepancies_def)

lemma discrepancy_sel [simp]:
  "rule_id (discrepancy e x) = EVALUATOR_DISCREPANCY" "severity (discrepancy e x) = CRITICAL"
  by (simp_all add: discrepancy_def)

lemma owner_flags_all: "owner_flags hay e xs = Inr fs \<Longrightarrow> all_discrepancies fs"
proof (induction xs arbitrary: fs)
  case (Cons x xs)
  then show ?case
    by (cases "claimed_owner x"; cases "owner_flags hay e xs") (auto split: jval.splits)
qed simp

lemma value_flags_all: "all_discrepancies (value_flags hay e k v)"
  by (simp add: value_flags_def split: jval.splits)

lemma verify_fields_all: "verify_fields hay e d = Inr fs \<Longrightarrow> all_discrepancies fs"
proof (induction d arbitrary: fs)
  case (Cons x d)
  then show ?case
    by (cases x; cases "verify_fields hay e d")
      (auto simp: value_flags_all split: if_splits jval.splits sum.splits dest: owner_flags_all)
qed simp

text \<open>Nothing is missing or invented: the fake services keep the contracts the graph relies on.\<close>

interpretation fake_router: router_service "fake_classify :: input_document list \<Rightarrow> customer_type \<Rightarrow> ('w, classified_document list) action"
  by unfold_locales
    (auto simp: fake_classify_def act_simps fake_classify_one_def split: prod.splits)

interpretation fake_extractor: extractor_service "fake_extract :: input_document \<Rightarrow> document_type \<Rightarrow> ('w, extraction_result) action"
  by unfold_locales (rule fake_extract_for)

interpretation fake_evaluator: evaluator_service "fake_verify :: input_document \<Rightarrow> extraction_result \<Rightarrow> ('w, rule_flag list) action"
  by unfold_locales
    (use verify_fields_all in \<open>auto simp: fake_verify_def act_simps all_discrepancies_def\<close>)

lemma fake_services_sel [simp]:
  "classify fake_services = fake_classify" "extract_fields fake_services = fake_extract"
  "verify_grounding fake_services = fake_verify" "narrate fake_services = fake_narrate"
  by (simp_all add: fake_services_def)

interpretation fake: services_contract fake_classify fake_extract fake_verify
  by unfold_locales

lemma lawful_fake: "lawful fake_services"
  unfolding lawful_def fake_services_sel by (rule fake.services_contract_axioms)

section \<open>Extraction from a text without markers\<close>

lemma fake_extraction_ok:
  assumes "fake_extraction d t = Inr e" and "no_glitch (text_content d)" and "(k, v) \<in> set (er_fields e)"
  shows "value_ok (text_content d) k v"
proof -
  let ?t = "text_content d"
  obtain acc where acc: "add_owner_list ?t t (label_fields ?t t ([], [])) = Inr acc"
    using assms(1) by (auto simp: fake_extraction_def Let_def split: sum.splits)
  have "extracted_ok_from ?t ([], [])" by (simp add: extracted_ok_from_def)
  then have "extracted_ok_from ?t acc" using add_owner_list_ok [OF acc ok_label_fields] by blast
  moreover have "er_fields e = fst acc"
    using assms(1) acc by (auto simp: fake_extraction_def Let_def no_glitches [OF assms(2)] split: prod.splits if_splits)
  ultimately show ?thesis using assms(3) by (auto simp: extracted_ok_from_def)
qed

lemma value_ok_simps:
  "value_ok t ''beneficial_owners'' v \<longleftrightarrow> (\<exists>os. v = JList os \<and> (\<forall>x \<in> set os. owner_ok t x))"
  "k \<in> set date_fields \<Longrightarrow> value_ok t k v \<longleftrightarrow> (\<exists>x. wf_date x \<and> v = JStr (isoformat x))"
  by (auto simp: value_ok_def date_fields_def)

lemma value_ok_str: "value_ok t k v \<Longrightarrow> k \<noteq> ''beneficial_owners'' \<Longrightarrow> \<exists>s. v = JStr s"
  by (auto simp: value_ok_def split: if_splits)

lemma fake_extraction_typed:
  assumes "fake_extraction d t = Inr e" and "no_glitch (text_content d)"
  shows "typed_extraction e"
proof -
  let ?get = "dict_get (er_fields e)"
  have ok: "value_ok (text_content d) k v" if "?get k = Some v" for k v
    using fake_extraction_ok [OF assms] map_of_SomeD [OF that] by blast
  have "str_or_none (?get k)" if "k \<in> set string_fields" for k
  proof (cases "?get k")
    case (Some v)
    have "k \<noteq> ''beneficial_owners''" using that by (auto simp: string_fields_def)
    then show ?thesis using value_ok_str [OF ok [OF Some]] Some by auto
  qed simp
  moreover have "date_or_none (?get ''expiry_date'')"
  proof (cases "?get ''expiry_date''")
    case (Some v)
    then obtain x where "wf_date x" "v = JStr (isoformat x)"
      using ok [OF Some] value_ok_simps(2) [of "''expiry_date''"] by (auto simp: date_fields_def)
    then show ?thesis using Some by (simp add: fromisoformat_isoformat)
  qed simp
  moreover have "owners_typed (?get ''beneficial_owners'')"
  proof (cases "?get ''beneficial_owners''")
    case (Some v)
    then obtain os where os: "v = JList os" "\<forall>x \<in> set os. owner_ok (text_content d) x"
      using ok [OF Some] by (auto simp: value_ok_simps(1))
    then show ?thesis using Some by (auto simp: owner_ok_def dest!: bspec)
  qed simp
  ultimately show ?thesis by (simp add: typed_extraction_def typed_fields_def)
qed

interpretation fake_typed: typed_extractor fake_extract "{d. no_glitch (text_content d)}"
  by unfold_locales (auto simp: fake_extract_def act_simps dest: fake_extraction_typed)

section \<open>Grounding\<close>

lemma owner_flags_grounded:
  "no_glitch t \<Longrightarrow> \<forall>x \<in> set xs. owner_ok t x \<Longrightarrow> owner_flags (haystack t) e xs = Inr []"
proof (induction xs)
  case (Cons x xs)
  then obtain raw dob p where raw: "infix_of raw t"
    and x: "x = JObj [(''full_name'', JStr (py_strip raw)), (''date_of_birth'', dob), (''ownership_percent'', p)]"
    by (auto simp: owner_ok_def)
  have "grounded (haystack t) (py_strip raw)" using grounded_piece Cons.prems(1) raw by blast
  then show ?case using Cons by (simp add: x)
qed simp

lemma verify_grounded:
  "no_glitch t \<Longrightarrow> \<forall>(k, v) \<in> set d. value_ok t k v \<Longrightarrow> verify_fields (haystack t) e d = Inr []"
proof (induction d)
  case (Cons kv d)
  obtain k v where kv: "kv = (k, v)" by (cases kv)
  have ok: "value_ok t k v" and rest: "verify_fields (haystack t) e d = Inr []"
    using Cons by (auto simp: kv)
  show ?case
  proof (cases "k \<in> set date_fields")
    case False
    show ?thesis
    proof (cases "k = ''beneficial_owners''")
      case True
      then obtain os where os: "v = JList os" "\<forall>x \<in> set os. owner_ok t x"
        using ok by (auto simp: value_ok_simps(1))
      then show ?thesis
        using False True rest owner_flags_grounded [OF Cons.prems(1) os(2)] by (simp add: kv value_flags_def)
    next
      case noowner: False
      then obtain raw where "infix_of raw t" "v = JStr (py_strip raw)" using ok False by (auto simp: value_ok_def)
      then show ?thesis
        using False noowner rest grounded_piece [OF Cons.prems(1)] by (simp add: kv value_flags_def)
    qed
  qed (use rest in \<open>simp add: kv\<close>)
qed simp

lemma fake_verify_own:
  assumes "fake_extraction d t = Inr e" and "no_glitch (text_content d)"
  shows "fake_verify d e w = (Inr [], w)"
proof -
  have "verify_fields (haystack (text_content d)) e (er_fields e) = Inr []"
    by (rule verify_grounded [OF assms(2)]) (use fake_extraction_ok [OF assms] in auto)
  then show ?thesis by (simp add: fake_verify_def of_result_def)
qed

text \<open>Which flags there are: one for each ungrounded string and for each ungrounded owner.\<close>

definition ungrounded_strings :: "string \<Rightarrow> extraction_result \<Rightarrow> (string, jval) dict \<Rightarrow> rule_flag set" where
  "ungrounded_strings hay e d = {discrepancy e (''extracted '' @ k @ ''='' @ py_repr s) |k s.
     (k, JStr s) \<in> set d \<and> k \<notin> set date_fields \<and> \<not> grounded hay s}"

definition ungrounded_owners :: "string \<Rightarrow> extraction_result \<Rightarrow> jval list \<Rightarrow> rule_flag set" where
  "ungrounded_owners hay e xs = {discrepancy e (''beneficial owner '' @ py_repr n) |x n.
     x \<in> set xs \<and> claimed_owner x = Some (JStr n) \<and> \<not> grounded hay n}"

lemma claimed_owner_iff:
  "claimed_owner x = Some (JStr n) \<longleftrightarrow> (\<exists>obj. x = JObj obj \<and> dict_get obj ''full_name'' = Some (JStr n) \<and> n \<noteq> [])"
  by (cases x) (auto split: option.splits if_splits)

lemma ungrounded_strings_Cons:
  "ungrounded_strings hay e ((k, v) # d) =
     (if k \<in> set date_fields then {} else set (value_flags hay e k v)) \<union> ungrounded_strings hay e d"
  by (auto simp: ungrounded_strings_def value_flags_def split: jval.splits if_splits)

lemma owner_flags_set: "owner_flags hay e xs = Inr fs \<Longrightarrow> set fs = ungrounded_owners hay e xs"
proof (induction xs arbitrary: fs)
  case Nil
  then show ?case by (simp add: ungrounded_owners_def)
next
  case (Cons x xs)
  have step: "ungrounded_owners hay e (x # xs) =
      (case claimed_owner x of Some (JStr n) \<Rightarrow>
         if grounded hay n then {} else {discrepancy e (''beneficial owner '' @ py_repr n)}
       | _ \<Rightarrow> {}) \<union> ungrounded_owners hay e xs"
    by (auto simp: ungrounded_owners_def split: option.splits jval.splits if_splits)
  show ?case
    using Cons unfolding step
    by (cases "owner_flags hay e xs") (auto split: option.splits jval.splits if_splits)
qed

lemma verify_fields_set:
  "verify_fields hay e d = Inr fs \<Longrightarrow>
     set fs = ungrounded_strings hay e d
       \<union> (\<Union>os \<in> {os. (''beneficial_owners'', JList os) \<in> set d}. ungrounded_owners hay e os)"
proof (induction d arbitrary: fs)
  case Nil
  then show ?case by (simp add: ungrounded_strings_def)
next
  case (Cons kv d)
  obtain k v where kv: "kv = (k, v)" by (cases kv)
  show ?case
  proof (cases "k \<in> set date_fields")
    case True
    then have "k \<noteq> ''beneficial_owners''" by (auto simp: date_fields_def)
    then show ?thesis using Cons True by (simp add: kv ungrounded_strings_Cons)
  next
    case False
    then obtain ofs gs where r: "fs = value_flags hay e k v @ ofs @ gs" "verify_fields hay e d = Inr gs"
      "(case v of JList os \<Rightarrow> if k = ''beneficial_owners'' then owner_flags hay e os else Inr [] | _ \<Rightarrow> Inr []) = Inr ofs"
      using Cons.prems by (cases "verify_fields hay e d") (auto simp: kv split: sum.splits)
    have "set ofs = (\<Union>os \<in> {os. (k, v) = (''beneficial_owners'', JList os)}. ungrounded_owners hay e os)"
      using r(3) owner_flags_set by (auto split: jval.splits if_splits)
    then show ?thesis using Cons.IH [OF r(2)] r(1) False by (auto simp: kv ungrounded_strings_Cons)
  qed
qed

section \<open>Parsing what was printed\<close>

lemma digits_value_pad2: "n < 100 \<Longrightarrow> digits_value (zero_pad 2 (nat_str n)) = n"
  by (simp add: pad_2 digits_value_def)

lemma decimal_4:
  "1000 * (n div 1000) + 100 * (n div 100 mod 10) + n div 10 mod 10 * 10 + n mod 10 = (n::nat)"
proof -
  have "n = 10 * (n div 10) + n mod 10" "n div 10 = 10 * (n div 100) + n div 10 mod 10"
    "n div 100 = 10 * (n div 1000) + n div 100 mod 10"
    using div_mult2_eq [of n 10 10] div_mult2_eq [of n 100 10] by simp_all
  then show ?thesis by linarith
qed

lemma digits_value_pad4: "n < 10000 \<Longrightarrow> digits_value (zero_pad 4 (nat_str n)) = n"
  using decimal_4 [of n] by (simp add: pad_4 digits_value_def)

lemma code_newline: "code newline = 10"
  by (simp add: newline_def code_char_of)

lemma digit_not_newline [simp]: "i < 10 \<Longrightarrow> digit i \<noteq> newline"
proof
  assume "i < 10" "digit i = newline"
  then have "48 + i = (10::nat)" using digit_facts [of i] code_newline by simp
  then show False by simp
qed

lemma digit_not_space [simp]: "i < 10 \<Longrightarrow> \<not> py_isspace (digit i)"
  using digit_facts [of i] by (simp add: py_isspace_def)

text \<open>The two notations of a date that the parser reads.\<close>

definition dmy :: "date \<Rightarrow> string" where
  "dmy x = zero_pad 2 (nat_str (day x)) @ ''.'' @ zero_pad 2 (nat_str (month x)) @ ''.''
     @ zero_pad 4 (nat_str (year x))"

lemma wf_date_bounds: "wf_date x \<Longrightarrow> year x < 10000 \<and> month x < 100 \<and> day x < 100"
  using valid_date_bounds by (simp add: wf_date_def)

lemma date_of_groups_eq:
  assumes "wf_date x" and "digits_value (group ''y'' c) = year x" "digits_value (group ''m'' c) = month x"
    "digits_value (group ''d'' c) = day x"
  shows "date_of_groups c = Some (isoformat x)"
  using assms by (cases x) (simp add: date_of_groups_def mk_date_def wf_date_def)

lemma date_digits:
  assumes "wf_date x"
  shows "year x div 1000 < 10" "month x div 10 < 10" "day x div 10 < 10"
  using wf_date_bounds [OF assms] by linarith+

lemma run_decimals:
  "\<forall>x \<in> set ds. isdecimal x \<Longrightarrow>
     rmatch (replicate (length ds) (Ch isdecimal) @ as) b (ds @ s) c = rmatch as (ds = [] \<and> b) s c"
proof (induction ds arbitrary: b)
  case (Cons x ds)
  have "x \<noteq> newline" using Cons.prems code_newline by (auto simp: isdecimal_def)
  then show ?case using Cons by simp
qed simp

text \<open>A group of digits captures exactly them.\<close>

lemma run_digits:
  assumes "\<forall>x \<in> set ds. isdecimal x" "length ds = n"
  shows "rmatch (digits_re g n @ as) b (ds @ s) c = rmatch as (ds = [] \<and> b) s ((g, ds) # (g, ds @ s) # c)"
proof -
  have "rmatch (replicate n (Ch isdecimal) @ Close g # as) b (ds @ s) ((g, ds @ s) # c)
      = rmatch (Close g # as) (ds = [] \<and> b) s ((g, ds @ s) # c)"
    using run_decimals [OF assms(1)] assms(2) by blast
  then show ?thesis by (simp add: digits_re_def close_group_def)
qed

lemma run_digits_end:
  assumes "\<forall>x \<in> set ds. isdecimal x" "length ds = n" "ds \<noteq> []"
  shows "rmatch (digits_re g n) b ds c = Some ((g, ds) # (g, ds) # c, False, [])"
  using run_digits [OF assms(1,2), of g "[]" b "[]" c] assms(3) by simp

lemma pad_decimal:
  "n < 100 \<Longrightarrow> length (zero_pad 2 (nat_str n)) = 2 \<and> (\<forall>x \<in> set (zero_pad 2 (nat_str n)). isdecimal x)"
  "n < 10000 \<Longrightarrow> length (zero_pad 4 (nat_str n)) = 4 \<and> (\<forall>x \<in> set (zero_pad 4 (nat_str n)). isdecimal x)"
  by (simp_all add: pad_2 pad_4)

lemma rfull_ymd:
  assumes "\<forall>x \<in> set (y @ m @ d). isdecimal x" "length y = 4" "length m = 2" "length d = 2"
  shows "\<exists>c. rfull ymd_re (y @ ''-'' @ m @ ''-'' @ d) = Some c \<and> group ''y'' c = y \<and> group ''m'' c = m \<and> group ''d'' c = d"
proof -
  have ne: "y \<noteq> []" "m \<noteq> []" "d \<noteq> []" using assms by auto
  show ?thesis
    using assms ne
    by (simp add: rfull_def ymd_re_def run_digits run_digits_end lit_def group_def)
qed

lemma rfull_dmy:
  assumes "\<forall>x \<in> set (y @ m @ d). isdecimal x" "length y = 4" "length m = 2" "length d = 2"
  shows "\<exists>c. rfull dmy_re (d @ ''.'' @ m @ ''.'' @ y) = Some c \<and> group ''y'' c = y \<and> group ''m'' c = m \<and> group ''d'' c = d"
proof -
  have ne: "y \<noteq> []" "m \<noteq> []" "d \<noteq> []" using assms by auto
  show ?thesis
    using assms ne
    by (simp add: rfull_def dmy_re_def run_digits run_digits_end lit_def group_def)
qed

text \<open>A text in the second notation is not one in the first.\<close>

lemma rfull_ymd_dot: "length d = 2 \<Longrightarrow> rfull ymd_re (d @ ''.'' @ s) = None"
  by (cases d; cases "tl d")
    (auto simp: rfull_def ymd_re_def digits_re_def numeral_eq_Suc isdecimal_def split: option.splits)

lemma strip_digits: "s \<noteq> [] \<Longrightarrow> isdecimal (hd s) \<Longrightarrow> isdecimal (last s) \<Longrightarrow> py_strip s = s"
  by (rule py_strip_id) (auto simp: isdecimal_def py_isspace_def)

lemma parse_date_printed:
  assumes "wf_date x"
  shows "parse_date (isoformat x) = Some (isoformat x)" "parse_date (dmy x) = Some (isoformat x)"
proof -
  let ?y = "zero_pad 4 (nat_str (year x))" and ?m = "zero_pad 2 (nat_str (month x))"
    and ?d = "zero_pad 2 (nat_str (day x))"
  note b = wf_date_bounds [OF assms]
  have l: "length ?y = 4" "length ?m = 2" "length ?d = 2" using b pad_decimal by auto
  have dec: "\<forall>c \<in> set ?y. isdecimal c" "\<forall>c \<in> set ?m. isdecimal c" "\<forall>c \<in> set ?d. isdecimal c"
    using b pad_decimal by auto
  have ne: "?y \<noteq> []" "?m \<noteq> []" "?d \<noteq> []" using l by force+
  have vals: "digits_value ?y = year x" "digits_value ?m = month x" "digits_value ?d = day x"
    using b digits_value_pad4 digits_value_pad2 by auto
  have all: "\<forall>c \<in> set (?y @ ?m @ ?d). isdecimal c" using dec by auto
  have strip_iso: "py_strip (?y @ ''-'' @ ?m @ ''-'' @ ?d) = ?y @ ''-'' @ ?m @ ''-'' @ ?d"
    by (rule strip_digits) (use ne dec in \<open>simp_all add: hd_append last_append\<close>)
  have strip_dmy: "py_strip (?d @ ''.'' @ ?m @ ''.'' @ ?y) = ?d @ ''.'' @ ?m @ ''.'' @ ?y"
    by (rule strip_digits) (use ne dec in \<open>simp_all add: hd_append last_append\<close>)
  obtain c where c: "rfull ymd_re (?y @ ''-'' @ ?m @ ''-'' @ ?d) = Some c"
    "group ''y'' c = ?y" "group ''m'' c = ?m" "group ''d'' c = ?d"
    using rfull_ymd [OF all l] by blast
  then have "date_of_groups c = Some (isoformat x)" using date_of_groups_eq [OF assms] vals by simp
  then show "parse_date (isoformat x) = Some (isoformat x)"
    unfolding parse_date_def isoformat_def strip_iso Let_def c(1) by (simp add: isoformat_def)
  obtain c' where c': "rfull dmy_re (?d @ ''.'' @ ?m @ ''.'' @ ?y) = Some c'"
    "group ''y'' c' = ?y" "group ''m'' c' = ?m" "group ''d'' c' = ?d"
    using rfull_dmy [OF all l] by blast
  then have "date_of_groups c' = Some (isoformat x)" using date_of_groups_eq [OF assms] vals by simp
  then show "parse_date (dmy x) = Some (isoformat x)"
    unfolding parse_date_def dmy_def strip_dmy Let_def rfull_ymd_dot [OF l(3)] c'(1) by simp
qed

section \<open>Properties\<close>

text \<open>C32: the offline evaluator flags exactly the inventions. When it returns, its flags are, as a
  set, one critical discrepancy for every string field - dates excepted, which are reformatted - and
  one for every named beneficial owner whose value does not occur in the text, compared without
  case, spacing and markers; each flag names its document, field and value.\<close>

theorem evaluator_flags_invention:
  assumes "fake_verify d e w = (Inr fs, w')"
  shows "let found = (\<lambda>s. py_in (collapse (py_casefold s))
            (collapse (py_casefold (rsub glitch_re '' '' True (text_content d)))));
      flag = (\<lambda>what. \<lparr>rule_id = EVALUATOR_DISCREPANCY, severity = CRITICAL,
        details = document_type_value (er_doc_type e) @ ''/'' @ er_document_id e @ '': '' @ what
          @ '' not found in the source document''\<rparr>)
    in set fs =
      {flag (''extracted '' @ k @ ''='' @ py_repr s) |k s. (k, JStr s) \<in> set (er_fields e)
         \<and> k \<notin> {''date_of_birth'', ''expiry_date'', ''issue_date'', ''registration_date''} \<and> \<not> found s}
      \<union> {flag (''beneficial owner '' @ py_repr n) |n. \<exists>os obj.
         (''beneficial_owners'', JList os) \<in> set (er_fields e) \<and> JObj obj \<in> set os
         \<and> dict_get obj ''full_name'' = Some (JStr n) \<and> n \<noteq> [] \<and> \<not> found n}"
proof -
  let ?hay = "haystack (text_content d)"
  have "verify_fields ?hay e (er_fields e) = Inr fs" using assms by (simp add: fake_verify_def of_result_def)
  note flags = verify_fields_set [OF this]
  have owners: "ungrounded_owners ?hay e os = {discrepancy e (''beneficial owner '' @ py_repr n) |n. \<exists>obj.
      JObj obj \<in> set os \<and> dict_get obj ''full_name'' = Some (JStr n) \<and> n \<noteq> [] \<and> \<not> grounded ?hay n}" for os
    unfolding ungrounded_owners_def claimed_owner_iff by blast
  have union: "(\<Union>os \<in> {os. P os}. {f n |n. \<exists>obj. Q os obj n}) = {f n |n. \<exists>os obj. P os \<and> Q os obj n}"
    for P :: "jval list \<Rightarrow> bool" and Q :: "jval list \<Rightarrow> (string, jval) dict \<Rightarrow> string \<Rightarrow> bool" and f :: "string \<Rightarrow> rule_flag"
    by blast
  show ?thesis
    unfolding flags 
    unfolding owners 
    unfolding union 
    unfolding ungrounded_strings_def date_fields_def list.set
    unfolding grounded_def haystack_def 
    unfolding discrepancy_def
    unfolding Let_def
    by (rule refl)
qed

lemma evaluator_flags_invention_witness:
  "\<exists>fs. fake_verify \<lparr>document_id = ''d'', file_name = ''f'', text_content = ''Address: A 1''\<rparr>
       \<lparr>er_document_id = ''d'', er_doc_type = PROOF_OF_ADDRESS,
        er_fields = [(''full_name'', JStr ''B''), (''issue_date'', JStr ''2026''), (''address'', JStr ''a 1'')],
        field_confidence = [], extraction_error = None\<rparr> () = (Inr fs, ())
     \<and> details ` set fs = {''proof_of_address/d: extracted full_name='' @ py_repr ''B'' @ '' not found in the source document''}"
proof -
  let ?d = "\<lparr>document_id = ''d'', file_name = ''f'', text_content = ''Address: A 1''\<rparr>"
  let ?e = "\<lparr>er_document_id = ''d'', er_doc_type = PROOF_OF_ADDRESS,
     er_fields = [(''full_name'', JStr ''B''), (''issue_date'', JStr ''2026''), (''address'', JStr ''a 1'')],
     field_confidence = [], extraction_error = None\<rparr>"
  define found where "found = (\<lambda>s. py_in (collapse (py_casefold s))
    (collapse (py_casefold (rsub glitch_re '' '' True (text_content ?d)))))"
  have f: "\<not> found ''B''" "found ''a 1''" unfolding found_def by code_simp+
  obtain fs where fs: "fake_verify ?d ?e () = (Inr fs, ())"
    by (simp add: fake_verify_def of_result_def date_fields_def)
  note flags = evaluator_flags_invention [OF fs, folded found_def, unfolded Let_def]
  have "set fs = {\<lparr>rule_id = EVALUATOR_DISCREPANCY, severity = CRITICAL,
      details = ''proof_of_address/d: extracted full_name='' @ py_repr ''B'' @ '' not found in the source document''\<rparr>}"
    (is "_ = {?x}")
  proof -
    have "set fs \<subseteq> {?x}" unfolding flags using f by (clarsimp, elim disjE conjE) simp_all
    moreover have "?x \<in> set fs" unfolding flags using f(1)
      by (intro UnI1 CollectI exI [of _ "''full_name''"] exI [of _ "''B''"]) simp
    ultimately show ?thesis by blast
  qed
  then show ?thesis using fs by auto
qed

text \<open>C30: dates survive printing. The date parser of the extractor reads a printed date, in ISO form
  or in the day.month.year form of the documents, as the ISO form of the same date, and
  \<open>date.fromisoformat\<close> reads that back.\<close>

theorem date_roundtrip:
  assumes "wf_date x"
  shows "parse_date (isoformat x) = Some (isoformat x) \<and> parse_date (dmy x) = Some (isoformat x)
    \<and> fromisoformat (isoformat x) = Some x"
  using parse_date_printed [OF assms] fromisoformat_isoformat [OF assms] by blast

lemma date_roundtrip_witness: "parse_date (dmy (Date 2024 2 29)) = Some (isoformat (Date 2024 2 29))"
proof -
  have "wf_date (Date 2024 2 29)" by (simp add: wf_date_def valid_date_def days_in_month_def is_leap_def)
  from date_roundtrip [OF this] show ?thesis by blast
qed

end
