(* ===== verification/LiveLLM.thy ===== *)
theory LiveLLM
  imports Typed
begin

text \<open>
  \<open>llm/live.py\<close>: the services backed by a chat model. The model is a parameter: what
  \<open>with_structured_output(schema).ainvoke(messages)\<close> answers for each schema, as an instance of
  that schema, and what \<open>ainvoke\<close> answers in plain text; any of the calls may raise. The code
  around the calls - prompts, matching of the answers to documents, dropping of empty fields - is
  translated, and the services are shown to keep the contracts of \<open>Services\<close> whatever the
  model answers.
\<close>

section \<open>Typed extraction schemas of \<open>schemas/documents.py\<close>\<close>

record individual_id_fields =
  idf_full_name :: "string option"
  idf_date_of_birth :: "date option"
  idf_document_number :: "string option"
  idf_expiry_date :: "date option"
  idf_nationality :: "string option"

record proof_of_address_fields =
  poa_full_name :: "string option"
  poa_address :: "string option"
  poa_issue_date :: "date option"
  poa_issuer :: "string option"

record business_registration_fields =
  brf_company_name :: "string option"
  brf_registration_number :: "string option"
  brf_registration_date :: "date option"
  brf_legal_form :: "string option"
  brf_registered_address :: "string option"

record beneficial_owner =
  bo_full_name :: string
  bo_date_of_birth :: "date option"
  bo_ownership_percent :: "rat option"

record ubo_declaration_fields =
  ubo_company_name :: "string option"
  ubo_beneficial_owners :: "beneficial_owner list"

datatype schema_instance =
    IndividualId individual_id_fields
  | ProofOfAddress proof_of_address_fields
  | BusinessRegistration business_registration_fields
  | UboDeclaration ubo_declaration_fields

datatype extraction_schema =
  IndividualIdFields | ProofOfAddressFields | BusinessRegistrationFields | UboDeclarationFields

fun schema_of :: "schema_instance \<Rightarrow> extraction_schema" where
  "schema_of (IndividualId _) = IndividualIdFields"
| "schema_of (ProofOfAddress _) = ProofOfAddressFields"
| "schema_of (BusinessRegistration _) = BusinessRegistrationFields"
| "schema_of (UboDeclaration _) = UboDeclarationFields"

fun extraction_schema_by_type :: "document_type \<Rightarrow> extraction_schema option" where
  "extraction_schema_by_type ID_DOCUMENT = Some IndividualIdFields"
| "extraction_schema_by_type PROOF_OF_ADDRESS = Some ProofOfAddressFields"
| "extraction_schema_by_type BUSINESS_REGISTRATION = Some BusinessRegistrationFields"
| "extraction_schema_by_type UBO_DECLARATION = Some UboDeclarationFields"
| "extraction_schema_by_type UNKNOWN = None"

text \<open>\<open>model_dump(mode="json")\<close>: the fields in order, dates in ISO form.\<close>

definition jstr :: "string option \<Rightarrow> jval" where
  "jstr x = (case x of None \<Rightarrow> JNull | Some s \<Rightarrow> JStr s)"

definition jdate :: "date option \<Rightarrow> jval" where
  "jdate x = jstr (map_option isoformat x)"

definition dump_owner :: "beneficial_owner \<Rightarrow> jval" where
  "dump_owner x = JObj
     [(''full_name'', JStr (bo_full_name x)), (''date_of_birth'', jdate (bo_date_of_birth x)),
      (''ownership_percent'', case bo_ownership_percent x of None \<Rightarrow> JNull | Some p \<Rightarrow> JFloat p)]"

fun model_dump :: "schema_instance \<Rightarrow> (string, jval) dict" where
  "model_dump (IndividualId x) =
     [(''full_name'', jstr (idf_full_name x)), (''date_of_birth'', jdate (idf_date_of_birth x)),
      (''document_number'', jstr (idf_document_number x)), (''expiry_date'', jdate (idf_expiry_date x)),
      (''nationality'', jstr (idf_nationality x))]"
| "model_dump (ProofOfAddress x) =
     [(''full_name'', jstr (poa_full_name x)), (''address'', jstr (poa_address x)),
      (''issue_date'', jdate (poa_issue_date x)), (''issuer'', jstr (poa_issuer x))]"
| "model_dump (BusinessRegistration x) =
     [(''company_name'', jstr (brf_company_name x)),
      (''registration_number'', jstr (brf_registration_number x)),
      (''registration_date'', jdate (brf_registration_date x)),
      (''legal_form'', jstr (brf_legal_form x)), (''registered_address'', jstr (brf_registered_address x))]"
| "model_dump (UboDeclaration x) =
     [(''company_name'', jstr (ubo_company_name x)),
      (''beneficial_owners'', JList (map dump_owner (ubo_beneficial_owners x)))]"

text \<open>Dates of an instance exist in the calendar: Pydantic parses them into \<open>datetime.date\<close>.\<close>

definition wf_instance :: "schema_instance \<Rightarrow> bool" where
  "wf_instance x \<longleftrightarrow> (case x of IndividualId f \<Rightarrow>
     (case idf_expiry_date f of None \<Rightarrow> True | Some d \<Rightarrow> wf_date d) | _ \<Rightarrow> True)"

section \<open>The chat model\<close>

type_synonym messages = "(string \<times> string) list"

record router_item =
  ri_document_id :: string
  ri_doc_type :: document_type
  ri_confidence :: rat

record discrepancy_item =
  di_field :: string
  di_extracted_value :: string
  di_reason :: string

text \<open>The second argument of a structured call is the method override.\<close>

record 'w chat_model =
  ask_router :: "string option \<Rightarrow> messages \<Rightarrow> ('w, router_item list) action"
  ask_fields :: "extraction_schema \<Rightarrow> string option \<Rightarrow> messages \<Rightarrow> ('w, schema_instance) action"
  ask_grounding :: "string option \<Rightarrow> messages \<Rightarrow> ('w, discrepancy_item list) action"
  ask_plain :: "messages \<Rightarrow> ('w, string) action"

text \<open>\<open>_structured\<close>: an empty method is no override.\<close>

definition structured_method :: "string option \<Rightarrow> string option" where
  "structured_method m = (if m = Some [] then None else m)"

definition max_doc_chars :: nat where
  "max_doc_chars = 6000"

definition extracted_field_confidence :: rat where
  "extracted_field_confidence = fl (9 / 10)"

definition nl :: string where
  "nl = [char_of (10::nat)]"

text \<open>U+2014 has no Latin-1 code; the hyphen stands for it in texts that only people and models read.\<close>

definition em_dash :: string where
  "em_dash = ''-''"

section \<open>LiveRouter\<close>

definition router_system :: string where
  "router_system =
     ''You are a KYC document classifier for a fintech compliance pipeline. ''
     @ ''Classify every document into exactly one type: id_document, ''
     @ ''proof_of_address, business_registration, ubo_declaration or unknown. ''
     @ ''Use '' @ [CHR 0x27] @ ''unknown'' @ [CHR 0x27] @ '' when the text is unreadable or fits no type. ''
     @ ''Return a classification for every document_id you were given.''"

definition router_block :: "input_document \<Rightarrow> string" where
  "router_block d =
     ''<document id='' @ py_repr (document_id d) @ '' file='' @ py_repr (file_name d) @ ''>'' @ nl
     @ take max_doc_chars (text_content d) @ nl @ ''</document>''"

definition router_prompt :: "input_document list \<Rightarrow> customer_type \<Rightarrow> string" where
  "router_prompt docs ct =
     ''Customer type declared at registration: '' @ customer_type_value ct @ ''.'' @ nl @ nl
     @ py_join (nl @ nl) (map router_block docs)"

definition classified_as :: "(string, router_item) dict \<Rightarrow> input_document \<Rightarrow> classified_document" where
  "classified_as by_id d = (case dict_get by_id (document_id d) of
     None \<Rightarrow> \<lparr>cd_document_id = document_id d, cd_doc_type = UNKNOWN, classifier_confidence = 0\<rparr>
   | Some i \<Rightarrow> \<lparr>cd_document_id = document_id d, cd_doc_type = ri_doc_type i,
                classifier_confidence = ri_confidence i\<rparr>)"

definition live_classify ::
  "'w chat_model \<Rightarrow> string option \<Rightarrow> input_document list \<Rightarrow> customer_type
    \<Rightarrow> ('w, classified_document list) action" where
  "live_classify m sm docs ct =
     abind (ask_router m (structured_method sm)
              [(''system'', router_system), (''user'', router_prompt docs ct)]) (\<lambda>items.
     ret (map (classified_as (dict_of (map (\<lambda>i. (ri_document_id i, i)) items))) docs))"

section \<open>LiveExtractor\<close>

definition extractor_system :: string where
  "extractor_system =
     ''You are a KYC field extractor. Extract fields from the document text ''
     @ ''into the given schema. Rules: use null for any field you cannot find ''
     @ ''verbatim in the document '' @ em_dash @ '' never guess or infer; copy values exactly ''
     @ ''as written; convert dates to ISO YYYY-MM-DD.''"

definition extractor_prompt :: "input_document \<Rightarrow> document_type \<Rightarrow> string" where
  "extractor_prompt d t =
     ''Document type: '' @ document_type_value t @ nl @ nl @ take max_doc_chars (text_content d)"

definition unknown_schema :: "document_type \<Rightarrow> exn" where
  "unknown_schema t = Exn ''KeyError'' (''<DocumentType.UNKNOWN: '' @ py_repr (document_type_value t) @ ''>'')"

definition live_result :: "input_document \<Rightarrow> document_type \<Rightarrow> schema_instance \<Rightarrow> extraction_result" where
  "live_result d t x =
     (let flds = filter (\<lambda>(k, v). v \<noteq> JNull) (model_dump x) in
      if flds = []
      then \<lparr>er_document_id = document_id d, er_doc_type = t, er_fields = [], field_confidence = [],
            extraction_error = Some ''unreadable document: extractor found no fields''\<rparr>
      else \<lparr>er_document_id = document_id d, er_doc_type = t, er_fields = flds,
            field_confidence = map (\<lambda>(k, v). (k, extracted_field_confidence)) flds,
            extraction_error = None\<rparr>)"

definition live_extract ::
  "'w chat_model \<Rightarrow> string option \<Rightarrow> input_document \<Rightarrow> document_type
    \<Rightarrow> ('w, extraction_result) action" where
  "live_extract m sm d t =
     (case extraction_schema_by_type t of
        None \<Rightarrow> raise (unknown_schema t)
      | Some schema \<Rightarrow>
          abind (ask_fields m schema (structured_method sm)
                   [(''system'', extractor_system), (''user'', extractor_prompt d t)]) (\<lambda>x.
          ret (live_result d t x)))"

section \<open>LiveEvaluator\<close>

definition evaluator_system :: string where
  "evaluator_system =
     ''You are a compliance QA agent verifying another agent'' @ [CHR 0x27] @ ''s extraction. ''
     @ ''For every extracted field value, check it literally appears in the ''
     @ ''source document (allowing case and whitespace differences; for dates ''
     @ ''allow format differences). Report a discrepancy for every value that ''
     @ ''is NOT grounded in the document. Report nothing else.''"

text \<open>\<open>model_dump_json(indent=2)\<close> of the extraction, done by Pydantic, is the parameter \<open>dump\<close>.\<close>

definition evaluator_prompt :: "(extraction_result \<Rightarrow> string) \<Rightarrow> input_document \<Rightarrow> extraction_result \<Rightarrow> string" where
  "evaluator_prompt dump d e =
     ''<document>'' @ nl @ take max_doc_chars (text_content d) @ nl @ ''</document>'' @ nl @ nl
     @ ''<extraction>'' @ nl @ dump e @ nl @ ''</extraction>''"

definition discrepancy_flag :: "extraction_result \<Rightarrow> discrepancy_item \<Rightarrow> rule_flag" where
  "discrepancy_flag e i =
     \<lparr>rule_id = EVALUATOR_DISCREPANCY, severity = CRITICAL,
      details = document_type_value (er_doc_type e) @ ''/'' @ er_document_id e @ '': ''
        @ di_field i @ ''='' @ py_repr (di_extracted_value i) @ '' '' @ em_dash @ '' '' @ di_reason i\<rparr>"

definition live_verify ::
  "(extraction_result \<Rightarrow> string) \<Rightarrow> 'w chat_model \<Rightarrow> string option \<Rightarrow> input_document
    \<Rightarrow> extraction_result \<Rightarrow> ('w, rule_flag list) action" where
  "live_verify dump m sm d e =
     abind (ask_grounding m (structured_method sm)
              [(''system'', evaluator_system), (''user'', evaluator_prompt dump d e)]) (\<lambda>items.
     ret (map (discrepancy_flag e) items))"

section \<open>LiveRiskNarrator\<close>

definition narrator_system :: string where
  "narrator_system =
     ''You are writing an audit-trail rationale for a KYC decision. ''
     @ ''Summarize the triggered rules and validation flags in precise, ''
     @ ''neutral compliance language. Do not invent facts; reference only ''
     @ ''the provided flags. 120 words maximum.''"

definition narrator_lines :: "applicant_declared \<Rightarrow> rule_flag list \<Rightarrow> rule_flag list \<Rightarrow> string list" where
  "narrator_lines a triggered vflags =
     (''Applicant: '' @ full_name a)
     # map (\<lambda>f. ''TRIGGER '' @ rule_id_value (rule_id f) @ '': '' @ details f) triggered
     @ map (\<lambda>f. ''FLAG '' @ rule_id_value (rule_id f) @ '' ['' @ severity_value (severity f) @ '']: ''
                @ details f) vflags"

definition live_narrate ::
  "'w chat_model \<Rightarrow> applicant_declared \<Rightarrow> rule_flag list \<Rightarrow> rule_flag list \<Rightarrow> ('w, string) action" where
  "live_narrate m a triggered vflags =
     ask_plain m [(''system'', narrator_system), (''user'', py_join nl (narrator_lines a triggered vflags))]"

section \<open>The contracts\<close>

lemma classified_as_id [simp]: "cd_document_id (classified_as by_id d) = document_id d"
  by (simp add: classified_as_def split: option.splits)

interpretation live_router: router_service "live_classify m sm" for m :: "'w chat_model" and sm
  by unfold_locales (auto simp: live_classify_def act_simps comp_def)

lemma live_result_sel [simp]:
  "er_document_id (live_result d t x) = document_id d" "er_doc_type (live_result d t x) = t"
  by (simp_all add: live_result_def Let_def)

lemma live_result_fields [simp]:
  "er_fields (live_result d t x) = filter (\<lambda>(k, v). v \<noteq> JNull) (model_dump x)"
  by (auto simp: live_result_def Let_def)

lemma live_result_error:
  "extraction_error (live_result d t x) = None \<longleftrightarrow> er_fields (live_result d t x) \<noteq> []"
  by (simp add: live_result_def Let_def)

lemma field_prior_bounds: "0 \<le> extracted_field_confidence" "extracted_field_confidence \<le> 1"
  unfolding extracted_field_confidence_def by (rule fl_nonneg, simp) (rule fl_le_1, simp)

lemma live_result_for: "extraction_for d t (live_result d t x)"
  using live_result_error [of d t x] field_prior_bounds
  by (auto simp: extraction_for_def live_result_def Let_def image_image case_prod_unfold)

lemma live_extractD:
  assumes "live_extract m sm d t w = (Inr e, w')"
  obtains x schema w1 where "extraction_schema_by_type t = Some schema" "e = live_result d t x"
    "ask_fields m schema (structured_method sm)
       [(''system'', extractor_system), (''user'', extractor_prompt d t)] w = (Inr x, w')"
  using assms that by (auto simp: live_extract_def act_simps split: option.splits)

interpretation live_extractor: extractor_service "live_extract m sm" for m :: "'w chat_model" and sm
proof unfold_locales
  fix d t w e w'
  assume "live_extract m sm d t w = (Inr e, w')"
  then show "extraction_for d t e" by (rule live_extractD) (simp add: live_result_for)
qed

interpretation live_evaluator: evaluator_service "live_verify dump m sm" for dump and m :: "'w chat_model" and sm
  by unfold_locales (auto simp: live_verify_def act_simps discrepancy_flag_def)

interpretation live: services_contract "live_classify mr sr" "live_extract me se" "live_verify dump mv sv"
  for mr me mv :: "'w chat_model" and sr se sv dump
  by unfold_locales

section \<open>Typed fields\<close>

text \<open>The documented behaviour of structured output: an answer is an instance of the schema asked for.\<close>

definition schema_honest :: "'w chat_model \<Rightarrow> bool" where
  "schema_honest m \<longleftrightarrow> (\<forall>schema meth msgs w x w'.
     ask_fields m schema meth msgs w = (Inr x, w') \<longrightarrow> schema_of x = schema \<and> wf_instance x)"

lemma schema_honestD:
  "schema_honest m \<Longrightarrow> ask_fields m schema meth msgs w = (Inr x, w') \<Longrightarrow> schema_of x = schema \<and> wf_instance x"
  unfolding schema_honest_def by blast

lemma jstr_or_none [simp]: "str_or_none (Some (jstr x))" "str_or_none (Some (jdate y))"
  by (cases x; simp add: jstr_def) (cases y; simp add: jstr_def jdate_def)

lemma dump_string_fields: "(k, v) \<in> set (model_dump x) \<Longrightarrow> k \<in> set string_fields \<Longrightarrow> str_or_none (Some v)"
  by (cases x) (auto simp: string_fields_def)

lemma jdate_or_none: "(case x of None \<Rightarrow> True | Some y \<Rightarrow> wf_date y) \<Longrightarrow> date_or_none (Some (jdate x))"
  by (cases x) (simp_all add: jdate_def jstr_def fromisoformat_isoformat)

lemma dump_expiry: "(''expiry_date'', v) \<in> set (model_dump x) \<Longrightarrow> wf_instance x \<Longrightarrow> date_or_none (Some v)"
  using jdate_or_none by (cases x) (auto simp: wf_instance_def)

lemma dump_owners: "(''beneficial_owners'', v) \<in> set (model_dump x) \<Longrightarrow> owners_typed (Some v)"
  by (cases x) (auto simp: dump_owner_def)

lemma live_result_typed:
  assumes "wf_instance x"
  shows "typed_extraction (live_result d t x)"
proof -
  let ?get = "dict_get (er_fields (live_result d t x))"
  have mem: "(k, v) \<in> set (model_dump x)" if "?get k = Some v" for k v
    using map_of_SomeD [OF that] by simp
  have "str_or_none (?get k)" if "k \<in> set string_fields" for k
    by (cases "?get k") (simp_all add: dump_string_fields [OF mem that])
  moreover have "date_or_none (?get ''expiry_date'')"
    by (cases "?get ''expiry_date''") (simp_all add: dump_expiry [OF mem assms])
  moreover have "owners_typed (?get ''beneficial_owners'')"
    by (cases "?get ''beneficial_owners''") (simp_all add: dump_owners [OF mem])
  ultimately show ?thesis by (simp add: typed_extraction_def typed_fields_def)
qed

lemma live_extract_typed:
  assumes "schema_honest m" and "live_extract m sm d t w = (Inr e, w')"
  shows "typed_extraction e"
  using assms(2) by (rule live_extractD) (use schema_honestD [OF assms(1)] live_result_typed in blast)

text \<open>
  A UBO declaration always has the field \<open>beneficial_owners\<close>, if only as an empty list, so the
  check for a document without fields never fires for it.
\<close>

lemma live_ubo_result: "schema_of x = UboDeclarationFields \<Longrightarrow> extraction_error (live_result d t x) = None"
  by (cases x) (simp_all add: live_result_def Let_def)

lemma live_ubo_readable:
  assumes "schema_honest m" and "live_extract m sm d UBO_DECLARATION w = (Inr e, w')"
  shows "extraction_error e = None"
  using assms(2) by (rule live_extractD) (use schema_honestD [OF assms(1)] live_ubo_result in force)

text \<open>A field the extractor reports was answered by the model, and is not null.\<close>

lemma live_result_field:
  "dict_get (er_fields (live_result d t x)) k = Some v \<Longrightarrow> (k, v) \<in> set (model_dump x) \<and> v \<noteq> JNull"
  by (drule map_of_SomeD) simp

end
