(* ===== verification/Graph.thy ===== *)
theory Graph
  imports Nodes "HOL-Library.Multiset"
begin

text \<open>
  \<open>graph/builder.py\<close> on the documented behaviour of LangGraph: supersteps. All tasks of a step
  read the same state; when all have returned, their updates go through the reducers and the
  tasks of the next step are the targets of their commands and static edges, a node triggered
  by several tasks running once. A task that raises ends the run, an interrupt suspends it with
  the state before the step. \<open>run\<close> executes the tasks of a step in order; \<open>gstep\<close> lets the
  workers run and commit in any order. Each worker is one atomic call.
\<close>

section \<open>Topology\<close>

datatype task = TNode node | TWorker extract_task

fun task_node :: "task \<Rightarrow> node" where
  "task_node (TNode n) = n"
| "task_node (TWorker _) = Extract_document"

text \<open>\<open>graph.add_edge\<close>; \<open>START\<close> goes to \<open>intake\<close>, and \<open>END\<close> is \<open>None\<close>.\<close>

fun static_edge :: "node \<Rightarrow> node option" where
  "static_edge Intake = Some Router"
| "static_edge Extract_document = Some Validator"
| "static_edge Risk_scorer = Some Decision_gate"
| "static_edge Handle_error = Some Decision_gate"
| "static_edge Auto_decision = Some Finalize"
| "static_edge Human_review = Some Finalize"
| "static_edge Finalize = None"
| "static_edge _ = None"

definition start_tasks :: "task list" where
  "start_tasks = [TNode Intake]"

section \<open>Supersteps\<close>

definition amap :: "('a \<Rightarrow> 'b) \<Rightarrow> ('w, 'a) action \<Rightarrow> ('w, 'b) action" where
  "amap f m = abind m (\<lambda>x. ret (f x))"

text \<open>The state has no \<open>document\<close>: \<open>extract_document\<close> runs only as a worker with its own input.\<close>

fun run_task ::
  "'w pipeline_context \<Rightarrow> jval list \<Rightarrow> kyc_state \<Rightarrow> task \<Rightarrow> ('w, review_payload + command) action" where
  "run_task ctx rv st (TWorker t) = amap Inr (extract_document ctx t)"
| "run_task ctx rv st (TNode Intake) = amap Inr (intake ctx st)"
| "run_task ctx rv st (TNode Router) = amap Inr (router ctx st)"
| "run_task ctx rv st (TNode Orchestrator) = amap Inr (orchestrator ctx st)"
| "run_task ctx rv st (TNode Extract_document) = raise (key_error ''document'')"
| "run_task ctx rv st (TNode Validator) = amap Inr (validator ctx st)"
| "run_task ctx rv st (TNode Risk_scorer) = amap Inr (risk_scorer ctx st)"
| "run_task ctx rv st (TNode Decision_gate) = amap Inr (decision_gate ctx st)"
| "run_task ctx rv st (TNode Auto_decision) = amap Inr (auto_decision ctx st)"
| "run_task ctx rv st (TNode Human_review) = human_review ctx rv st"
| "run_task ctx rv st (TNode Finalize) = amap Inr (finalize ctx st)"
| "run_task ctx rv st (TNode Handle_error) = amap Inr (handle_error ctx st)"

type_synonym results = "(task \<times> (review_payload + command)) list"

fun run_tasks ::
  "'w pipeline_context \<Rightarrow> jval list \<Rightarrow> kyc_state \<Rightarrow> task list \<Rightarrow> ('w, results) action" where
  "run_tasks ctx rv st [] = ret []"
| "run_tasks ctx rv st (t # ts) =
     abind (run_task ctx rv st t) (\<lambda>r. abind (run_tasks ctx rv st ts) (\<lambda>rs. ret ((t, r) # rs)))"

definition interrupts :: "results \<Rightarrow> review_payload list" where
  "interrupts rs = concat (map (\<lambda>(t, r). case r of Inl p \<Rightarrow> [p] | Inr _ \<Rightarrow> []) rs)"

definition updates :: "results \<Rightarrow> kyc_update list" where
  "updates rs = concat (map (\<lambda>(t, r). case r of Inl _ \<Rightarrow> [] | Inr (u, g) \<Rightarrow> [u]) rs)"

definition goto_nodes :: "task \<Rightarrow> goto \<Rightarrow> node list" where
  "goto_nodes t g = (case g of Goto n \<Rightarrow> [n] | Send _ \<Rightarrow> []
     | Static \<Rightarrow> (case static_edge (task_node t) of None \<Rightarrow> [] | Some n \<Rightarrow> [n]))"

definition next_tasks :: "results \<Rightarrow> task list" where
  "next_tasks rs =
     map TNode (remdups (concat (map (\<lambda>(t, r). case r of Inl _ \<Rightarrow> [] | Inr (u, g) \<Rightarrow> goto_nodes t g) rs)))
     @ concat (map (\<lambda>(t, r). case r of Inr (u, Send ts) \<Rightarrow> map TWorker ts | _ \<Rightarrow> []) rs)"

section \<open>Runs\<close>

text \<open>
  The fuel of \<open>run\<close> counts ticks of the executor's loop. The loop compares its step counter with
  the limit before it looks for tasks, so a run that has used up its ticks is stopped even when
  no task is left: a run of \<open>n\<close> supersteps needs \<open>n + 1\<close> ticks to finish.
\<close>

datatype run_outcome =
    Finished kyc_state
  | Interrupted kyc_state review_payload
  | Crashed kyc_state exn
  | Out_of_steps kyc_state

fun final_state :: "run_outcome \<Rightarrow> kyc_state" where
  "final_state (Finished s) = s"
| "final_state (Interrupted s _) = s"
| "final_state (Crashed s _) = s"
| "final_state (Out_of_steps s) = s"

fun run ::
  "'w pipeline_context \<Rightarrow> jval list \<Rightarrow> nat \<Rightarrow> kyc_state \<Rightarrow> task list \<Rightarrow> 'w \<Rightarrow> run_outcome \<times> 'w" where
  "run ctx rv 0 st tasks w = (Out_of_steps st, w)"
| "run ctx rv (Suc n) st [] w = (Finished st, w)"
| "run ctx rv (Suc n) st (t # ts) w =
     (case run_tasks ctx rv st (t # ts) w of
        (Inl e, w') \<Rightarrow> (Crashed st e, w')
      | (Inr rs, w') \<Rightarrow>
         (case interrupts rs of
            p # _ \<Rightarrow> (Interrupted st p, w')
          | [] \<Rightarrow> run ctx rv n (apply_updates (updates rs) st) (next_tasks rs) w'))"

text \<open>\<open>graph.ainvoke\<close> with an input, and with \<open>Command(resume=...)\<close> after an interrupt. A run with
  an input spends two steps on the input and on \<open>START\<close>, which a resumed one does not have; the
  limit leaves the first as many ticks as its value and the second two more.\<close>

definition limit_of :: "'w pipeline_context \<Rightarrow> nat" where
  "limit_of ctx = graph_recursion_limit (cx_settings ctx)"

definition invoke :: "'w pipeline_context \<Rightarrow> kyc_state \<Rightarrow> 'w \<Rightarrow> run_outcome \<times> 'w" where
  "invoke ctx st w = run ctx [] (limit_of ctx) st start_tasks w"

definition resume_with :: "'w pipeline_context \<Rightarrow> jval list \<Rightarrow> kyc_state \<Rightarrow> 'w \<Rightarrow> run_outcome \<times> 'w" where
  "resume_with ctx rv st w = run ctx rv (limit_of ctx + 2) st [TNode Human_review] w"

text \<open>The relation: the tasks of a step run in any order and their updates commit in any order.\<close>

type_synonym 'w config = "kyc_state \<times> task list \<times> 'w"

inductive gstep :: "'w pipeline_context \<Rightarrow> jval list \<Rightarrow> 'w config \<Rightarrow> 'w config \<Rightarrow> bool"
  for ctx rv where
  superstep:
    "mset order = mset tasks \<Longrightarrow> run_tasks ctx rv st order w = (Inr rs, w') \<Longrightarrow> interrupts rs = []
     \<Longrightarrow> mset us = mset (updates rs) \<Longrightarrow> tasks \<noteq> []
     \<Longrightarrow> gstep ctx rv (st, tasks, w) (apply_updates us st, next_tasks rs, w')"

inductive reaches :: "'w pipeline_context \<Rightarrow> jval list \<Rightarrow> 'w config \<Rightarrow> 'w config \<Rightarrow> bool"
  for ctx rv where
  reaches_refl: "reaches ctx rv c c"
| reaches_step: "reaches ctx rv c c' \<Longrightarrow> gstep ctx rv c' c'' \<Longrightarrow> reaches ctx rv c c''"

inductive_cases gstepE: "gstep ctx rv (st, tasks, w) c"

lemma reaches_trans: "reaches ctx rv b c \<Longrightarrow> reaches ctx rv a b \<Longrightarrow> reaches ctx rv a c"
  by (induction rule: reaches.induct) (auto intro: reaches_step)

text \<open>
  The last state of a deterministic run is reached by the relation, and how the run ended is
  how the superstep pending there ended.
\<close>

fun ends_as ::
  "'w pipeline_context \<Rightarrow> jval list \<Rightarrow> run_outcome \<Rightarrow> task list \<Rightarrow> 'w \<Rightarrow> bool" where
  "ends_as ctx rv (Finished st) tasks w \<longleftrightarrow> tasks = []"
| "ends_as ctx rv (Interrupted st p) tasks w \<longleftrightarrow>
     (\<exists>rs w'. run_tasks ctx rv st tasks w = (Inr rs, w') \<and> p \<in> set (interrupts rs))"
| "ends_as ctx rv (Crashed st e) tasks w \<longleftrightarrow> (\<exists>w'. run_tasks ctx rv st tasks w = (Inl e, w'))"
| "ends_as ctx rv (Out_of_steps st) tasks w \<longleftrightarrow> True"

lemma run_gstep:
  assumes "run_tasks ctx rv st (t # ts) w = (Inr rs, w')" and "interrupts rs = []"
  shows "gstep ctx rv (st, t # ts, w) (apply_updates (updates rs) st, next_tasks rs, w')"
  using assms by (intro superstep [where order = "t # ts" and us = "updates rs"]) (simp_all del: run_tasks.simps)

lemma run_reaches:
  assumes "run ctx rv n st tasks w = (out, w')"
  shows "\<exists>tasks' w''. reaches ctx rv (st, tasks, w) (final_state out, tasks', w'') \<and> ends_as ctx rv out tasks' w''"
  using assms
proof (induction ctx rv n st tasks w rule: run.induct)
  case (3 ctx rv n st t ts w)
  obtain r w1 where r: "run_tasks ctx rv st (t # ts) w = (r, w1)" by (metis surj_pair)
  show ?case
  proof (cases "\<exists>rs. r = Inr rs \<and> interrupts rs = []")
    case True
    then obtain rs where rs: "r = Inr rs" "interrupts rs = []" by blast
    have first: "reaches ctx rv (st, t # ts, w) (apply_updates (updates rs) st, next_tasks rs, w1)"
      by (rule reaches_step [OF reaches_refl run_gstep [OF r [unfolded rs(1)] rs(2)]])
    obtain tasks' w'' where "reaches ctx rv (apply_updates (updates rs) st, next_tasks rs, w1)
        (final_state out, tasks', w'')" "ends_as ctx rv out tasks' w''"
      using 3 r rs by auto
    then show ?thesis using reaches_trans [OF _ first] by blast
  next
    case False
    then have "final_state out = st \<and> ends_as ctx rv out (t # ts) w"
      using "3.prems" r by (auto simp del: run_tasks.simps split: sum.splits list.splits)
    then show ?thesis by (metis reaches_refl)
  qed
qed (auto intro!: exI reaches_refl)

end
