(* ===== verification/NodeFacts.thy ===== *)
theory NodeFacts
  imports Graph
begin

text \<open>
  What each node returns, whatever the services and the audit sink do: the shape of its update
  and its target. The lemmas read the commands off the definitions in \<open>Nodes\<close>, so that the
  invariants of the graph never unfold a node.
\<close>

lemma amap_Inr [act_simps]: "amap f m w = (Inr y, w') \<longleftrightarrow> (\<exists>x. m w = (Inr x, w') \<and> y = f x)"
  by (auto simp: amap_def act_simps)

lemma amap_Inl [act_simps]: "amap f m w = (Inl e, w') \<longleftrightarrow> m w = (Inl e, w')"
  by (auto simp: amap_def act_simps)

section \<open>Commands of the nodes\<close>

lemma intake_cmd:
  "intake ctx st w = (Inr c, w') \<Longrightarrow> c = (no_update\<lparr>u_status := Some PROCESSING\<rparr>, Static)"
  by (auto simp: intake_def act_simps)

lemma router_cmd:
  assumes "router ctx st w = (Inr c, w')"
  obtains errs where "c = (no_update\<lparr>u_errors := errs, u_retry := [(''router'', length errs)],
        u_degraded := [''router failed after retries and fallback'']\<rparr>, Goto Handle_error)"
  | cs errs where "c = (no_update\<lparr>u_classified := Some cs, u_errors := errs,
        u_retry := [(''router'', length errs + 1)]\<rparr>, Goto Orchestrator)"
  using assms by (auto simp: router_def Let_def act_simps)

definition known_docs :: "classified_document list \<Rightarrow> classified_document list" where
  "known_docs cs = filter (\<lambda>c. cd_doc_type c \<noteq> UNKNOWN) cs"

definition unknown_docs :: "classified_document list \<Rightarrow> classified_document list" where
  "unknown_docs cs = filter (\<lambda>c. cd_doc_type c = UNKNOWN) cs"

definition package_check :: "kyc_package \<Rightarrow> classified_document list \<Rightarrow> rule_flag option" where
  "package_check p cs = check_package_completeness (customer_type p) (map cd_doc_type (known_docs cs))"

lemma orchestrator_cmd:
  assumes "orchestrator ctx st w = (Inr c, w')"
  obtains cs f where "classified_documents st = Some cs" "package_check (package st) cs = Some f"
    "c = (no_update\<lparr>u_degraded := map unreadable_reason (unknown_docs cs), u_completeness := Some (Some f)\<rparr>,
          Goto Decision_gate)"
  | cs tasks where "classified_documents st = Some cs" "package_check (package st) cs = None"
    "make_tasks (case_id st) (docs_by_id (package st)) (known_docs cs) = Inr tasks"
    "c = (no_update\<lparr>u_degraded := map unreadable_reason (unknown_docs cs), u_completeness := Some None\<rparr>,
          Send tasks)"
  using assms
  by (auto simp: orchestrator_def Let_def act_simps known_docs_def unknown_docs_def package_check_def)

lemma make_tasks_length: "make_tasks c docs cs = Inr tasks \<Longrightarrow> length tasks = length cs"
  by (induction cs arbitrary: tasks) (auto split: option.splits sum.splits)

lemma make_tasks_tasks:
  "make_tasks c docs cs = Inr tasks \<Longrightarrow>
     list_all2 (\<lambda>t k. t_case_id t = c \<and> dict_get docs (cd_document_id k) = Some (t_document t)
                    \<and> t_doc_type t = cd_doc_type k) tasks cs"
  by (induction cs arbitrary: tasks) (auto split: option.splits sum.splits)

text \<open>A complete package has a known document, so the fan-out is never empty.\<close>

lemma complete_known_docs: "package_check p cs = None \<Longrightarrow> known_docs cs \<noteq> []"
  by (cases "customer_type p") (auto simp: package_check_def completeness_None_iff)

lemma extract_document_cmd:
  assumes "extract_document ctx t w = (Inr c, w')"
  obtains u e where "c = (u, Static)" "worker_update u" "u_extractions u = [e]"
    "u_degraded u = [] \<longleftrightarrow> extraction_error e = None"
  using assms
  by (auto simp: extract_document_def Let_def act_simps worker_update_def no_update_def
      split: option.splits)

lemma validator_cmd:
  assumes "validator ctx st w = (Inr c, w')"
  obtains errs where "c = (no_update\<lparr>u_errors := errs, u_retry := [(''validator'', length errs)],
        u_degraded := [''validator failed after retries and fallback'']\<rparr>, Goto Handle_error)"
  | checks rflags gflags w0 w1 where
    "run_validation_rules (applicant (package st)) (extractions st) (today ctx)
       (match_thresholds_of (cx_settings ctx)) = Inr (checks, rflags)"
    "ground ctx st w0 = (Inr (Inr gflags), w1)"
    "c = (no_update\<lparr>u_validation := Some (report_of ctx (extractions st) checks rflags gflags)\<rparr>,
          Goto Risk_scorer)"
  using assms by (auto simp: validator_def Let_def act_simps)

lemma report_of_sel [simp]:
  "field_checks (report_of ctx es checks rflags gflags) = checks"
  "rule_flags (report_of ctx es checks rflags gflags) = rflags @ gflags"
  "overall_confidence (report_of ctx es checks rflags gflags) =
     overall_confidence_of es gflags (rflags @ gflags)"
  by (simp_all add: report_of_def)

lemma risk_scorer_cmd:
  assumes "risk_scorer ctx st w = (Inr c, w')"
  obtains w1 sc nar where "screen_all ctx st w = (Inr sc, w1)"
    "c = (no_update\<lparr>u_risk := Some (assessment_of (triggers_of ctx st sc) sc nar)\<rparr>, Static)"
  using assms by (auto simp: risk_scorer_def Let_def act_simps)

lemma decision_gate_cmd:
  assumes "decision_gate ctx st w = (Inr c, w')"
  obtains "outcome (gate_decision st) = ESCALATE"
    "c = (no_update\<lparr>u_decision := Some (gate_decision st), u_status := Some AWAITING_HUMAN_REVIEW\<rparr>,
          Goto Human_review)"
  | "outcome (gate_decision st) \<noteq> ESCALATE"
    "c = (no_update\<lparr>u_decision := Some (gate_decision st)\<rparr>, Goto Auto_decision)"
  using assms by (auto simp: decision_gate_def Let_def act_simps)

lemma auto_decision_cmd:
  "auto_decision ctx st w = (Inr c, w') \<Longrightarrow> decision st \<noteq> None \<and> c = (no_update, Static)"
  by (auto simp: auto_decision_def act_simps)

lemma human_review_cmd:
  assumes "human_review ctx rv st w = (Inr r, w')"
  obtains p where "review_loop st None rv = Inl p" "r = Inl p" "w' = w"
  | h where "review_loop st None rv = Inr h"
    "r = Inr (no_update\<lparr>u_decision := Some (human_decision_of st h)\<rparr>, Static)"
  using assms by (auto simp: human_review_def Let_def act_simps)

lemma finalize_cmd:
  "finalize ctx st w = (Inr c, w') \<Longrightarrow> decision st \<noteq> None \<and> c = (no_update\<lparr>u_status := Some COMPLETED\<rparr>, Static)"
  by (auto simp: finalize_def act_simps)

lemma handle_error_cmd:
  "handle_error ctx st w = (Inr c, w') \<Longrightarrow> c = (no_update\<lparr>u_status := Some PROCESSING\<rparr>, Static)"
  by (auto simp: handle_error_def act_simps)

section \<open>Supersteps\<close>

lemma run_tasks_single:
  "run_tasks ctx rv st [t] w = (Inr rs, w') \<longleftrightarrow> (\<exists>r. run_task ctx rv st t w = (Inr r, w') \<and> rs = [(t, r)])"
  by (auto simp: act_simps)

lemma run_tasks_tasks: "run_tasks ctx rv st tasks w = (Inr rs, w') \<Longrightarrow> map fst rs = tasks"
  by (induction tasks arbitrary: rs w) (auto simp: act_simps)

lemma run_tasks_results:
  assumes "run_tasks ctx rv st tasks w = (Inr rs, w')" and "(t, r) \<in> set rs"
  shows "t \<in> set tasks \<and> (\<exists>w1 w2. run_task ctx rv st t w1 = (Inr r, w2))"
  using assms
proof (induction tasks arbitrary: rs w)
  case (Cons a tasks)
  then obtain x w1 xs where "run_task ctx rv st a w = (Inr x, w1)"
    "run_tasks ctx rv st tasks w1 = (Inr xs, w')" "rs = (a, x) # xs"
    by (auto simp: act_simps)
  then show ?case using Cons.IH [of w1 xs] Cons.prems(2) by auto
qed (simp add: act_simps)

lemma gstepD:
  "gstep ctx rv (st, tasks, w) (st', tasks', w') \<Longrightarrow>
     \<exists>order rs us. mset order = mset tasks \<and> run_tasks ctx rv st order w = (Inr rs, w')
       \<and> interrupts rs = [] \<and> mset us = mset (updates rs)
       \<and> st' = apply_updates us st \<and> tasks' = next_tasks rs \<and> tasks \<noteq> []"
  by (erule gstepE) (simp only: prod.inject, blast)

lemma reaches_invariant:
  assumes "reaches ctx rv (st, tasks, w) (st', tasks', w')" and "P st tasks"
    and "\<And>s t v s' t' v'. P s t \<Longrightarrow> gstep ctx rv (s, t, v) (s', t', v') \<Longrightarrow> P s' t'"
  shows "P st' tasks'"
  using assms(1)
proof (induction "(st, tasks, w)" "(st', tasks', w')" arbitrary: st' tasks' w' rule: reaches.induct)
  case reaches_refl
  show ?case by (rule assms(2))
next
  case (reaches_step c')
  obtain s t v where "c' = (s, t, v)" by (cases c')
  then show ?case using reaches_step.hyps(2) [of s t v] reaches_step.hyps(3) assms(3) by blast
qed

lemma gstep_node:
  assumes "gstep ctx rv (st, [TNode n], w) (st', tasks', w')"
  obtains u g where "run_task ctx rv st (TNode n) w = (Inr (Inr (u, g)), w')"
    "st' = apply_update u st" "tasks' = next_tasks [(TNode n, Inr (u, g))]"
proof -
  obtain order rs us where o: "mset order = mset [TNode n]" "run_tasks ctx rv st order w = (Inr rs, w')"
    "interrupts rs = []" "mset us = mset (updates rs)" "st' = apply_updates us st" "tasks' = next_tasks rs"
    using gstepD [OF assms] by blast
  then have "order = [TNode n]" by simp
  then obtain r where r: "run_task ctx rv st (TNode n) w = (Inr r, w')" "rs = [(TNode n, r)]"
    using o(2) by (auto simp: run_tasks_single simp del: run_tasks.simps)
  then obtain u g where ug: "r = Inr (u, g)"
    using o(3) by (cases r) (auto simp: interrupts_def)
  then have "us = [u]" using o(4) r(2) by (simp add: updates_def)
  then show thesis using that r ug o by simp
qed

lemma next_single [simp]:
  "next_tasks [(t, Inr (u, Goto n))] = [TNode n]"
  "next_tasks [(t, Inr (u, Send ts))] = map TWorker ts"
  "next_tasks [(t, Inr (u, Static))] = (case static_edge (task_node t) of None \<Rightarrow> [] | Some n \<Rightarrow> [TNode n])"
  by (simp_all add: next_tasks_def goto_nodes_def split: option.splits)

text \<open>A step of workers: they only write reducer channels and lead to one validator task.\<close>

lemma concat_singletons: "(\<And>x. x \<in> set xs \<Longrightarrow> f x = [y]) \<Longrightarrow> concat (map f xs) = replicate (length xs) y"
  by (induction xs) auto

lemma remdups_replicate [simp]: "remdups (replicate (Suc n) x) = [x]"
  by (induction n) auto

lemma gstep_workers:
  assumes step: "gstep ctx rv (st, map TWorker ts, w) (st', tasks', w')"
  obtains us where "st' = apply_updates us st" "tasks' = [TNode Validator]" "length us = length ts"
    "\<forall>u \<in> set us. worker_update u \<and> (\<exists>t \<in> set ts. \<exists>w1 w2. extract_document ctx t w1 = (Inr (u, Static), w2))"
proof -
  obtain order rs us where o: "mset order = mset (map TWorker ts)"
    "run_tasks ctx rv st order w = (Inr rs, w')" "interrupts rs = []"
    "mset us = mset (updates rs)" "st' = apply_updates us st" "tasks' = next_tasks rs" "ts \<noteq> []"
    using gstepD [OF step] by (auto simp del: run_tasks.simps)
  have set: "set order = TWorker ` set ts" using mset_eq_setD [OF o(1)] by simp
  have len: "length rs = length ts"
    using run_tasks_tasks [OF o(2)] mset_eq_length [OF o(1)] by (metis length_map)
  have each: "\<exists>a u. t = TWorker a \<and> a \<in> set ts \<and> r = Inr (u, Static) \<and> worker_update u
      \<and> (\<exists>w1 w2. extract_document ctx a w1 = (Inr (u, Static), w2))" if mem: "(t, r) \<in> set rs" for t r
  proof -
    obtain w1 w2 where t: "t \<in> set order" "run_task ctx rv st t w1 = (Inr r, w2)"
      using run_tasks_results [OF o(2) mem] by blast
    then obtain a where a: "t = TWorker a" "a \<in> set ts" using set by auto
    then obtain c where c: "extract_document ctx a w1 = (Inr c, w2)" "r = Inr c"
      using t(2) by (auto simp: act_simps)
    obtain u where "c = (u, Static)" "worker_update u" using extract_document_cmd [OF c(1)] by metis
    then show ?thesis using c a by blast
  qed
  have "updates rs = map (\<lambda>(t, r). fst (projr r)) rs"
    unfolding updates_def using each by (induction rs) (auto, fastforce+)
  then have upd: "length us = length ts" "set us = (\<lambda>(t, r). fst (projr r)) ` set rs"
    using len mset_eq_length [OF o(4)] mset_eq_setD [OF o(4)] by simp_all
  have nodes: "concat (map (\<lambda>(t, r). case r of Inl _ \<Rightarrow> [] | Inr (u, g) \<Rightarrow> goto_nodes t g) rs)
      = replicate (length rs) Validator"
    by (rule concat_singletons) (auto dest!: each simp: goto_nodes_def)
  have sends: "concat (map (\<lambda>(t, r). case r of Inr (u, Send ts) \<Rightarrow> map TWorker ts | _ \<Rightarrow> []) rs) = []"
    by (auto dest!: each)
  obtain k where "length rs = Suc k" using len o(7) by (cases ts) auto
  then have "tasks' = [TNode Validator]"
    unfolding o(6) next_tasks_def nodes sends by (simp only: remdups_replicate) simp
  moreover have "\<forall>u \<in> set us. worker_update u \<and> (\<exists>t \<in> set ts. \<exists>w1 w2. extract_document ctx t w1 = (Inr (u, Static), w2))"
    using upd(2) each by fastforce
  ultimately show thesis using that o(5) upd(1) by blast
qed

end
