(* ===== verification/Pipeline.thy ===== *)
theory Pipeline
  imports NodeFacts
begin

text \<open>
  Invariants of the graph, for any services, registries, audit sink and order of the workers.
  \<open>stage\<close> says what is known of the state when a task is pending; it is preserved by every
  superstep, so it holds in every state a case can reach. The progress measure \<open>rank\<close> falls
  with every superstep.
\<close>

section \<open>What is known of a state\<close>

definition undecided :: "kyc_state \<Rightarrow> bool" where
  "undecided st \<longleftrightarrow> decision st = None \<and> risk st = None"

definition early :: "kyc_state \<Rightarrow> bool" where
  "early st \<longleftrightarrow> undecided st \<and> validation st = None \<and> completeness_flag st = None
     \<and> extractions st = [] \<and> degraded_reasons st = []"

text \<open>The package is complete, and unreadable documents are on record.\<close>

definition classified_ok :: "kyc_state \<Rightarrow> bool" where
  "classified_ok st \<longleftrightarrow> (\<exists>cs. classified_documents st = Some cs \<and> package_check (package st) cs = None
     \<and> (\<not> is_degraded st \<longrightarrow> unknown_docs cs = []))"

definition known_count :: "kyc_state \<Rightarrow> nat" where
  "known_count st = (case classified_documents st of None \<Rightarrow> 0 | Some cs \<Rightarrow> length (known_docs cs))"

text \<open>Every known document has been extracted, and unreadable ones are on record.\<close>

definition extracted_ok :: "kyc_state \<Rightarrow> bool" where
  "extracted_ok st \<longleftrightarrow> length (extractions st) = known_count st
     \<and> (\<not> is_degraded st \<longrightarrow> (\<forall>e \<in> set (extractions st). extraction_error e = None))"

text \<open>The report is the one of the validation rules and of a completed grounding pass.\<close>

definition validated :: "'w pipeline_context \<Rightarrow> kyc_state \<Rightarrow> bool" where
  "validated ctx st \<longleftrightarrow> (\<exists>checks rflags gflags w w'.
     run_validation_rules (applicant (package st)) (extractions st) (today ctx)
       (match_thresholds_of (cx_settings ctx)) = Inr (checks, rflags)
     \<and> ground ctx st w = (Inr (Inr gflags), w')
     \<and> validation st = Some (report_of ctx (extractions st) checks rflags gflags))"

text \<open>The assessment is the one of the risk rules on the answers of the registries.\<close>

definition screened :: "'w pipeline_context \<Rightarrow> kyc_state \<Rightarrow> bool" where
  "screened ctx st \<longleftrightarrow> (\<exists>w sc w' nar. screen_all ctx st w = (Inr sc, w')
     \<and> risk st = Some (assessment_of (triggers_of ctx st sc) sc nar))"

definition complete :: "'w pipeline_context \<Rightarrow> kyc_state \<Rightarrow> bool" where
  "complete ctx st \<longleftrightarrow> completeness_flag st = None \<and> classified_ok st \<and> extracted_ok st
     \<and> validated ctx st \<and> screened ctx st"

text \<open>What the gate may find: a complete assessment, a degraded case, or an incomplete package.\<close>

definition ready :: "'w pipeline_context \<Rightarrow> kyc_state \<Rightarrow> bool" where
  "ready ctx st \<longleftrightarrow> complete ctx st \<or> (is_degraded st \<and> risk st = None)
     \<or> (completeness_flag st \<noteq> None \<and> risk st = None)"

definition by_human :: "kyc_state \<Rightarrow> decision \<Rightarrow> bool" where
  "by_human st d \<longleftrightarrow> decided_by d = HUMAN \<and> outcome d \<noteq> ESCALATE \<and> reviewer d \<noteq> None
     \<and> outcome (gate_decision st) = ESCALATE \<and> reason_codes d = reason_codes (gate_decision st)"

definition by_system :: "kyc_state \<Rightarrow> decision \<Rightarrow> bool" where
  "by_system st d \<longleftrightarrow> d = gate_decision st \<and> outcome d \<noteq> ESCALATE"

text \<open>The stages of a case by its pending tasks.\<close>

inductive stage :: "'w pipeline_context \<Rightarrow> kyc_state \<Rightarrow> task list \<Rightarrow> bool" for ctx st where
  at_intake: "early st \<Longrightarrow> stage ctx st [TNode Intake]"
| at_router: "early st \<Longrightarrow> status st = Some PROCESSING \<Longrightarrow> stage ctx st [TNode Router]"
| at_orchestrator: "early st \<Longrightarrow> status st = Some PROCESSING \<Longrightarrow> classified_documents st \<noteq> None
    \<Longrightarrow> stage ctx st [TNode Orchestrator]"
| at_workers: "undecided st \<Longrightarrow> status st = Some PROCESSING \<Longrightarrow> completeness_flag st = None
    \<Longrightarrow> classified_ok st \<Longrightarrow> extractions st = [] \<Longrightarrow> length ts = known_count st \<Longrightarrow> ts \<noteq> []
    \<Longrightarrow> stage ctx st (map TWorker ts)"
| at_validator: "undecided st \<Longrightarrow> status st = Some PROCESSING \<Longrightarrow> completeness_flag st = None
    \<Longrightarrow> classified_ok st \<Longrightarrow> extracted_ok st \<Longrightarrow> stage ctx st [TNode Validator]"
| at_risk: "undecided st \<Longrightarrow> status st = Some PROCESSING \<Longrightarrow> completeness_flag st = None
    \<Longrightarrow> classified_ok st \<Longrightarrow> extracted_ok st \<Longrightarrow> validated ctx st \<Longrightarrow> stage ctx st [TNode Risk_scorer]"
| at_error: "undecided st \<Longrightarrow> status st = Some PROCESSING \<Longrightarrow> is_degraded st
    \<Longrightarrow> stage ctx st [TNode Handle_error]"
| at_gate: "decision st = None \<Longrightarrow> status st = Some PROCESSING \<Longrightarrow> ready ctx st
    \<Longrightarrow> stage ctx st [TNode Decision_gate]"
| at_auto: "decision st = Some d \<Longrightarrow> by_system st d \<Longrightarrow> status st = Some PROCESSING \<Longrightarrow> ready ctx st
    \<Longrightarrow> stage ctx st [TNode Auto_decision]"
| at_review: "decision st = Some (gate_decision st) \<Longrightarrow> outcome (gate_decision st) = ESCALATE
    \<Longrightarrow> status st = Some AWAITING_HUMAN_REVIEW \<Longrightarrow> ready ctx st \<Longrightarrow> stage ctx st [TNode Human_review]"
| at_finalize: "decision st = Some d \<Longrightarrow> by_system st d \<or> by_human st d \<Longrightarrow> ready ctx st
    \<Longrightarrow> status st \<in> {Some PROCESSING, Some AWAITING_HUMAN_REVIEW} \<Longrightarrow> stage ctx st [TNode Finalize]"
| at_end: "decision st = Some d \<Longrightarrow> by_system st d \<or> by_human st d \<Longrightarrow> ready ctx st
    \<Longrightarrow> status st = Some COMPLETED \<Longrightarrow> stage ctx st []"

inductive_cases stage_nodeE: "stage ctx st [TNode n]"
inductive_cases stage_endE: "stage ctx st []"

section \<open>Updates that leave the facts alone\<close>

text \<open>Facts about a state depend on its channels only.\<close>

lemma keep_facts:
  assumes "package st' = package st" "case_id st' = case_id st"
    and "classified_documents st' = classified_documents st" "completeness_flag st' = completeness_flag st"
    and "extractions st' = extractions st" "validation st' = validation st" "risk st' = risk st"
    and "degraded_reasons st' = degraded_reasons st"
  shows "classified_ok st' = classified_ok st" "extracted_ok st' = extracted_ok st"
    "validated ctx st' = validated ctx st" "screened ctx st' = screened ctx st"
    "ready ctx st' = ready ctx st" "gate_decision st' = gate_decision st"
    "is_degraded st' = is_degraded st"
proof -
  have d: "is_degraded st' = is_degraded st" using assms by (simp add: is_degraded_def)
  have f: "validation_flags st' = validation_flags st" "state_confidence st' = state_confidence st"
    "screening_names st' = screening_names st" "known_count st' = known_count st"
    "ground ctx st' = ground ctx st" "state_triggers st' = state_triggers st"
    "screen_all ctx st' = screen_all ctx st" "triggers_of ctx st' = triggers_of ctx st"
    by (simp_all only: assms validation_flags_def state_confidence_def screening_names_def
        known_count_def ground_def state_triggers_def screen_all_def triggers_of_def)
  show c: "classified_ok st' = classified_ok st" using assms d by (simp add: classified_ok_def)
  show e: "extracted_ok st' = extracted_ok st" using assms d f by (simp add: extracted_ok_def)
  show v: "validated ctx st' = validated ctx st" using assms f by (simp add: validated_def)
  show s: "screened ctx st' = screened ctx st" using assms f by (simp add: screened_def)
  show "ready ctx st' = ready ctx st" using assms c d e v s by (simp add: ready_def complete_def)
  show "gate_decision st' = gate_decision st" using assms d f by (simp add: gate_decision_def)
  show "is_degraded st' = is_degraded st" by (rule d)
qed

definition status_decision_only :: "kyc_update \<Rightarrow> bool" where
  "status_decision_only u \<longleftrightarrow> u_classified u = None \<and> u_completeness u = None \<and> u_extractions u = []
     \<and> u_validation u = None \<and> u_risk u = None \<and> u_degraded u = []"

lemma keep_apply:
  assumes "status_decision_only u"
  shows "classified_ok (apply_update u st) = classified_ok st"
    "extracted_ok (apply_update u st) = extracted_ok st"
    "validated ctx (apply_update u st) = validated ctx st"
    "screened ctx (apply_update u st) = screened ctx st"
    "ready ctx (apply_update u st) = ready ctx st"
    "gate_decision (apply_update u st) = gate_decision st"
    "is_degraded (apply_update u st) = is_degraded st"
  by (rule keep_facts; use assms in \<open>auto simp: status_decision_only_def no_update_def\<close>)+

section \<open>Every superstep preserves the stage\<close>

lemma stage_intake:
  assumes "early st" and "run_task ctx rv st (TNode Intake) w = (Inr (Inr (u, g)), w')"
  shows "stage ctx (apply_update u st) (next_tasks [(TNode Intake, Inr (u, g))])"
proof -
  have "u = no_update\<lparr>u_status := Some PROCESSING\<rparr>" "g = Static"
    using assms(2) intake_cmd by (fastforce simp: act_simps)+
  then show ?thesis using assms(1)
    by (auto intro!: at_router simp: early_def undecided_def no_update_def)
qed

lemma stage_router:
  assumes "early st" "status st = Some PROCESSING"
    and "run_task ctx rv st (TNode Router) w = (Inr (Inr (u, g)), w')"
  shows "stage ctx (apply_update u st) (next_tasks [(TNode Router, Inr (u, g))])"
proof -
  have "router ctx st w = (Inr (u, g), w')" using assms(3) by (auto simp: act_simps)
  then show ?thesis using assms(1,2)
    by (cases rule: router_cmd)
      (auto intro!: at_orchestrator at_error simp: early_def undecided_def no_update_def is_degraded_def)
qed

lemma stage_orchestrator:
  assumes "early st" "status st = Some PROCESSING"
    and "run_task ctx rv st (TNode Orchestrator) w = (Inr (Inr (u, g)), w')"
  shows "stage ctx (apply_update u st) (next_tasks [(TNode Orchestrator, Inr (u, g))])"
proof -
  have "orchestrator ctx st w = (Inr (u, g), w')" using assms(3) by (auto simp: act_simps)
  then show ?thesis
  proof (cases rule: orchestrator_cmd)
    case (1 cs f)
    then show ?thesis using assms(1,2)
      by (auto intro!: at_gate simp: early_def undecided_def no_update_def ready_def)
  next
    case (2 cs tasks)
    have "length tasks = length (known_docs cs)" using make_tasks_length [OF 2(3)] .
    moreover have "tasks \<noteq> []" using calculation complete_known_docs [OF 2(2)] by auto
    ultimately show ?thesis using 2 assms(1,2)
      by (auto intro!: at_workers simp: early_def undecided_def no_update_def classified_ok_def
          known_count_def is_degraded_def)
  qed
qed

lemma concat_length_1: "(\<And>x. x \<in> set xs \<Longrightarrow> length (f x) = 1) \<Longrightarrow> length (concat (map f xs)) = length xs"
  by (induction xs) auto

lemma stage_workers:
  assumes pre: "undecided st" "status st = Some PROCESSING" "completeness_flag st = None"
      "classified_ok st" "extractions st = []" "length ts = known_count st"
    and "gstep ctx rv (st, map TWorker ts, w) (st', tasks', w')"
  shows "stage ctx st' tasks'"
proof -
  obtain us where us: "st' = apply_updates us st" "tasks' = [TNode Validator]" "length us = length ts"
    "\<forall>u \<in> set us. worker_update u \<and> (\<exists>t \<in> set ts. \<exists>w1 w2. extract_document ctx t w1 = (Inr (u, Static), w2))"
    using gstep_workers [OF assms(7)] by metis
  have each: "\<exists>e. u_extractions u = [e] \<and> (u_degraded u = [] \<longleftrightarrow> extraction_error e = None)"
    if u: "u \<in> set us" for u
  proof -
    obtain t w1 w2 where "extract_document ctx t w1 = (Inr (u, Static), w2)" using us(4) u by blast
    then show ?thesis by (cases rule: extract_document_cmd) auto
  qed
  have st': "st' = st\<lparr>extractions := extractions st @ concat (map u_extractions us),
     errors := errors st @ concat (map u_errors us),
     retry_counts := fold (\<lambda>u c. merge_counts c (u_retry u)) us (retry_counts st),
     degraded_reasons := degraded_reasons st @ concat (map u_degraded us)\<rparr>"
    unfolding us(1) by (rule apply_updates_workers) (use us(4) in blast)
  have "length (concat (map u_extractions us)) = length us"
    by (rule concat_length_1) (use each in fastforce)
  then have "length (extractions st') = known_count st'"
    using pre(5,6) us(3) by (simp add: st' known_count_def)
  moreover have "extraction_error e = None" if nd: "\<not> is_degraded st'" and e: "e \<in> set (extractions st')" for e
  proof -
    obtain u where u: "u \<in> set us" "e \<in> set (u_extractions u)" using e pre(5) by (auto simp: st')
    moreover have "u_degraded u = []" using nd u(1) by (auto simp: st' is_degraded_def)
    ultimately show ?thesis using each [OF u(1)] by auto
  qed
  ultimately have "extracted_ok st'" by (simp add: extracted_ok_def)
  moreover have "classified_ok st'" using pre(4) by (auto simp: classified_ok_def st' is_degraded_def)
  ultimately show ?thesis
    unfolding us(2) using pre(1-3) by (intro at_validator) (simp_all add: st' undecided_def)
qed

lemma stage_validator:
  assumes pre: "undecided st" "status st = Some PROCESSING" "completeness_flag st = None"
      "classified_ok st" "extracted_ok st"
    and "run_task ctx rv st (TNode Validator) w = (Inr (Inr (u, g)), w')"
  shows "stage ctx (apply_update u st) (next_tasks [(TNode Validator, Inr (u, g))])"
proof -
  have "validator ctx st w = (Inr (u, g), w')" using assms(6) by (auto simp: act_simps)
  then show ?thesis
  proof (cases rule: validator_cmd)
    case (1 errs)
    then show ?thesis using pre
      by (auto intro!: at_error simp: undecided_def no_update_def is_degraded_def)
  next
    case (2 checks rflags gflags w0 w1)
    let ?st = "apply_update u st"
    have st: "extractions ?st = extractions st" "package ?st = package st" "case_id ?st = case_id st"
      "classified_documents ?st = classified_documents st" "degraded_reasons ?st = degraded_reasons st"
      "validation ?st = Some (report_of ctx (extractions st) checks rflags gflags)"
      using 2 by (simp_all add: no_update_def)
    then have "ground ctx ?st = ground ctx st" by (simp add: ground_def)
    then have "validated ctx ?st" unfolding validated_def st using 2 by metis
    moreover have "classified_ok ?st" using pre(4) st by (simp add: classified_ok_def is_degraded_def)
    moreover have "extracted_ok ?st" using pre(5) st by (simp add: extracted_ok_def is_degraded_def known_count_def)
    ultimately show ?thesis using 2 pre(1-3)
      by (auto intro!: at_risk simp: undecided_def no_update_def)
  qed
qed

lemma stage_risk:
  assumes pre: "undecided st" "status st = Some PROCESSING" "completeness_flag st = None"
      "classified_ok st" "extracted_ok st" "validated ctx st"
    and "run_task ctx rv st (TNode Risk_scorer) w = (Inr (Inr (u, g)), w')"
  shows "stage ctx (apply_update u st) (next_tasks [(TNode Risk_scorer, Inr (u, g))])"
proof -
  have "risk_scorer ctx st w = (Inr (u, g), w')" using assms(7) by (auto simp: act_simps)
  then obtain w1 sc nar where r: "screen_all ctx st w = (Inr sc, w1)"
    "(u, g) = (no_update\<lparr>u_risk := Some (assessment_of (triggers_of ctx st sc) sc nar)\<rparr>, Static)"
    by (rule risk_scorer_cmd)
  let ?st = "apply_update u st"
  have st: "extractions ?st = extractions st" "package ?st = package st" "case_id ?st = case_id st"
    "classified_documents ?st = classified_documents st" "degraded_reasons ?st = degraded_reasons st"
    "validation ?st = validation st" "completeness_flag ?st = None" "decision ?st = None"
    "status ?st = Some PROCESSING"
    using r(2) pre(1-3) by (simp_all add: no_update_def undecided_def)
  have "validation_flags ?st = validation_flags st" "state_confidence ?st = state_confidence st"
    "screening_names ?st = screening_names st"
    by (simp_all only: st validation_flags_def state_confidence_def screening_names_def)
  then have "screen_all ctx ?st = screen_all ctx st" "triggers_of ctx ?st = triggers_of ctx st"
    by (simp_all only: screen_all_def triggers_of_def st)
  moreover have "risk ?st = Some (assessment_of (triggers_of ctx st sc) sc nar)" using r(2) by simp
  ultimately have "screened ctx ?st" unfolding screened_def using r(1) by metis
  moreover have "classified_ok ?st" using pre(4) st by (simp add: classified_ok_def is_degraded_def)
  moreover have "extracted_ok ?st" using pre(5) st by (simp add: extracted_ok_def is_degraded_def known_count_def)
  moreover have "validated ctx ?st"
  proof -
    have "ground ctx ?st = ground ctx st" by (simp only: ground_def st)
    then show ?thesis using pre(6) by (simp only: validated_def st)
  qed
  ultimately have "complete ctx ?st" using st(7) by (simp add: complete_def)
  then show ?thesis using r(2) st by (auto intro!: at_gate simp: ready_def)
qed

lemma stage_error:
  assumes "undecided st" "is_degraded st"
    and "run_task ctx rv st (TNode Handle_error) w = (Inr (Inr (u, g)), w')"
  shows "stage ctx (apply_update u st) (next_tasks [(TNode Handle_error, Inr (u, g))])"
proof -
  have "u = no_update\<lparr>u_status := Some PROCESSING\<rparr>" "g = Static"
    using assms(3) handle_error_cmd by (fastforce simp: act_simps)+
  then show ?thesis using assms(1,2)
    by (auto intro!: at_gate simp: undecided_def no_update_def ready_def is_degraded_def)
qed

lemma stage_gate:
  assumes "status st = Some PROCESSING" "ready ctx st"
    and "run_task ctx rv st (TNode Decision_gate) w = (Inr (Inr (u, g)), w')"
  shows "stage ctx (apply_update u st) (next_tasks [(TNode Decision_gate, Inr (u, g))])"
proof -
  have "decision_gate ctx st w = (Inr (u, g), w')" using assms(3) by (auto simp: act_simps)
  then show ?thesis
  proof (cases rule: decision_gate_cmd)
    case 1
    then have "status_decision_only u" by (auto simp: status_decision_only_def no_update_def)
    then show ?thesis using 1 assms(2) by (auto intro!: at_review simp: keep_apply)
  next
    case 2
    then have "status_decision_only u" by (auto simp: status_decision_only_def no_update_def)
    then show ?thesis using 2 assms(1,2)
      by (auto intro!: at_auto simp: keep_apply by_system_def)
  qed
qed

lemma stage_auto:
  assumes "decision st = Some d" "by_system st d" "status st = Some PROCESSING" "ready ctx st"
    and "run_task ctx rv st (TNode Auto_decision) w = (Inr (Inr (u, g)), w')"
  shows "stage ctx (apply_update u st) (next_tasks [(TNode Auto_decision, Inr (u, g))])"
proof -
  have "u = no_update" "g = Static" using assms(5) auto_decision_cmd by (fastforce simp: act_simps)+
  then show ?thesis using assms(1-4) by (auto intro: at_finalize)
qed

lemma human_decision_by_human:
  assumes "decision st = Some (gate_decision st)" "outcome (gate_decision st) = ESCALATE"
  shows "by_human st (human_decision_of st h)"
  using assms by (simp add: by_human_def human_decision_of_def state_codes_def)

lemma stage_review:
  assumes "decision st = Some (gate_decision st)" "outcome (gate_decision st) = ESCALATE"
      "status st = Some AWAITING_HUMAN_REVIEW" "ready ctx st"
    and "run_task ctx rv st (TNode Human_review) w = (Inr (Inr (u, g)), w')"
  shows "stage ctx (apply_update u st) (next_tasks [(TNode Human_review, Inr (u, g))])"
proof -
  have "human_review ctx rv st w = (Inr (Inr (u, g)), w')" using assms(5) by simp
  then obtain h where h: "u = no_update\<lparr>u_decision := Some (human_decision_of st h)\<rparr>" "g = Static"
    by (cases rule: human_review_cmd) auto
  then have "status_decision_only u" by (auto simp: status_decision_only_def no_update_def)
  note keep = keep_apply [OF this]
  have "by_human (apply_update u st) (human_decision_of st h)"
    using human_decision_by_human [OF assms(1,2)] by (simp add: by_human_def keep)
  moreover have "decision (apply_update u st) = Some (human_decision_of st h)"
    "status (apply_update u st) = Some AWAITING_HUMAN_REVIEW"
    using h(1) assms(3) by (simp_all add: no_update_def)
  ultimately have "stage ctx (apply_update u st) [TNode Finalize]"
    using assms(4) by (auto intro!: at_finalize simp: keep)
  then show ?thesis using h(2) by simp
qed

lemma stage_finalize:
  assumes "decision st = Some d" "by_system st d \<or> by_human st d" "ready ctx st"
    and "run_task ctx rv st (TNode Finalize) w = (Inr (Inr (u, g)), w')"
  shows "stage ctx (apply_update u st) (next_tasks [(TNode Finalize, Inr (u, g))])"
proof -
  have u: "u = no_update\<lparr>u_status := Some COMPLETED\<rparr>" "g = Static"
    using assms(4) finalize_cmd by (fastforce simp: act_simps)+
  then have "status_decision_only u" by (auto simp: status_decision_only_def no_update_def)
  note keep = keep_apply [OF this]
  have "decision (apply_update u st) = Some d" "status (apply_update u st) = Some COMPLETED"
    using assms(1) u by (simp_all add: no_update_def)
  then have "stage ctx (apply_update u st) []"
    using assms(2,3) by (intro at_end [where d = d]) (auto simp: keep by_system_def by_human_def)
  then show ?thesis using u(2) by simp
qed

lemmas stage_steps = stage_intake stage_router stage_orchestrator stage_validator stage_risk
  stage_error stage_gate stage_auto stage_review stage_finalize

theorem stage_step:
  assumes "stage ctx st tasks" and "gstep ctx rv (st, tasks, w) (st', tasks', w')"
  shows "stage ctx st' tasks'"
  using assms(1)
proof cases
  case (at_workers ts)
  then show ?thesis using assms(2) by (auto intro: stage_workers)
next
  case (at_end d)
  then show ?thesis using assms(2) by (auto elim: gstepE)
qed (use assms(2) in \<open>auto elim!: gstep_node intro: stage_steps simp del: run_task.simps\<close>)

lemma stage_initial: "s \<in> {None, Some RECEIVED} \<Longrightarrow> stage ctx (initial_state c p s) start_tasks"
  by (auto simp: start_tasks_def initial_state_def early_def undecided_def intro!: at_intake)

theorem stage_reaches:
  assumes "reaches ctx rv (st, tasks, w) (st', tasks', w')" and "stage ctx st tasks"
  shows "stage ctx st' tasks'"
  using assms by (rule reaches_invariant) (rule stage_step)

section \<open>Progress\<close>

fun node_rank :: "node \<Rightarrow> nat" where
  "node_rank Intake = 9"
| "node_rank Router = 8"
| "node_rank Orchestrator = 7"
| "node_rank Extract_document = 6"
| "node_rank Validator = 5"
| "node_rank Risk_scorer = 4"
| "node_rank Handle_error = 4"
| "node_rank Decision_gate = 3"
| "node_rank Auto_decision = 2"
| "node_rank Human_review = 2"
| "node_rank Finalize = 1"

definition rank :: "task list \<Rightarrow> nat" where
  "rank tasks = (case tasks of [] \<Rightarrow> 0 | t # _ \<Rightarrow> node_rank (task_node t))"

lemma rank_simps [simp]: "rank [] = 0" "rank (t # ts) = node_rank (task_node t)"
  by (simp_all add: rank_def)

lemma node_rank_falls:
  assumes "run_task ctx rv st (TNode n) w = (Inr (Inr (u, g)), w')"
  shows "rank (next_tasks [(TNode n, Inr (u, g))]) < node_rank n"
proof -
  have send [simp]: "rank (map TWorker ts) < 7" for ts by (cases ts) simp_all
  show ?thesis
  proof (cases n)
    case Router
    then have "router ctx st w = (Inr (u, g), w')" using assms by (auto simp: act_simps)
    then show ?thesis by (cases rule: router_cmd) (auto simp: Router)
  next
    case Orchestrator
    then have "orchestrator ctx st w = (Inr (u, g), w')" using assms by (auto simp: act_simps)
    then show ?thesis by (cases rule: orchestrator_cmd) (auto simp: Orchestrator)
  next
    case Validator
    then have "validator ctx st w = (Inr (u, g), w')" using assms by (auto simp: act_simps)
    then show ?thesis by (cases rule: validator_cmd) (auto simp: Validator)
  next
    case Risk_scorer
    then have "risk_scorer ctx st w = (Inr (u, g), w')" using assms by (auto simp: act_simps)
    then show ?thesis by (cases rule: risk_scorer_cmd) (auto simp: Risk_scorer)
  next
    case Decision_gate
    then have "decision_gate ctx st w = (Inr (u, g), w')" using assms by (auto simp: act_simps)
    then show ?thesis by (cases rule: decision_gate_cmd) (auto simp: Decision_gate)
  next
    case Human_review
    then have "human_review ctx rv st w = (Inr (Inr (u, g)), w')" using assms by simp
    then show ?thesis by (cases rule: human_review_cmd) (auto simp: Human_review)
  qed (use assms in \<open>auto simp: act_simps dest!: intake_cmd auto_decision_cmd finalize_cmd handle_error_cmd\<close>)
qed

lemma gstep_rank:
  assumes "stage ctx st tasks" and "gstep ctx rv (st, tasks, w) (st', tasks', w')"
  shows "rank tasks' < rank tasks"
  using assms(1)
proof cases
  case (at_workers ts)
  then have "tasks' = [TNode Validator]" using assms(2) gstep_workers by metis
  then show ?thesis using at_workers by (cases ts) simp_all
next
  case (at_end d)
  then show ?thesis using assms(2) by (auto elim: gstepE)
qed (use assms(2) in \<open>auto elim!: gstep_node dest: node_rank_falls simp del: run_task.simps\<close>)

text \<open>Enough fuel is one tick more than the rank of the pending tasks.\<close>

lemma run_in_steps:
  assumes "stage ctx st tasks" and "rank tasks < n" and "run ctx rv n st tasks w = (out, w')"
  shows "\<forall>s. out \<noteq> Out_of_steps s"
  using assms
proof (induction ctx rv n st tasks w rule: run.induct)
  case (3 ctx rv n st t ts w)
  obtain r w1 where r: "run_tasks ctx rv st (t # ts) w = (r, w1)" by (metis surj_pair)
  show ?case
  proof (cases "\<exists>rs. r = Inr rs \<and> interrupts rs = []")
    case True
    then obtain rs where rs: "r = Inr rs" "interrupts rs = []" by blast
    have step: "gstep ctx rv (st, t # ts, w) (apply_updates (updates rs) st, next_tasks rs, w1)"
      by (rule run_gstep [OF r [unfolded rs(1)] rs(2)])
    have "stage ctx (apply_updates (updates rs) st) (next_tasks rs)"
      using stage_step [OF "3.prems"(1) step] .
    moreover have "rank (next_tasks rs) < n" using gstep_rank [OF "3.prems"(1) step] "3.prems"(2) by simp
    ultimately show ?thesis using "3.IH" [OF r [symmetric] rs(1) rs(2)] "3.prems"(3) r rs
      by (simp del: run_tasks.simps)
  next
    case False
    then show ?thesis using "3.prems"(3) r by (auto split: sum.splits list.splits)
  qed
qed auto

lemma rank_le_9: "stage ctx st tasks \<Longrightarrow> rank tasks \<le> 9"
proof -
  have "node_rank n \<le> 9" for n by (cases n) simp_all
  then show ?thesis by (cases tasks) simp_all
qed

section \<open>Outcomes\<close>

text \<open>The end of a run: the state it ends in is a stage, and the kind of end fits the stage.\<close>

lemma run_final_stage:
  assumes "stage ctx st tasks" and "run ctx rv n st tasks w = (out, w')"
  obtains tasks' w'' where "stage ctx (final_state out) tasks'" "ends_as ctx rv out tasks' w''"
  using run_reaches [OF assms(2)] stage_reaches [OF _ assms(1)] by metis

lemma run_finished:
  assumes "stage ctx st tasks" and "run ctx rv n st tasks w = (Finished s, w')"
  obtains d where "decision s = Some d" "by_system s d \<or> by_human s d" "ready ctx s" "status s = Some COMPLETED"
proof -
  have "stage ctx s []" by (rule run_final_stage [OF assms]) simp
  then show thesis using that by (auto elim: stage_endE)
qed

text \<open>Only the review node interrupts, with its own payload and before it writes anything.\<close>

lemma amap_Inr_Inl: "amap Inr m w \<noteq> (Inr (Inl p), w')"
  by (auto simp: amap_def abind_def ret_def split: prod.splits sum.splits)

lemma run_task_interrupt:
  assumes "run_task ctx rv st t w = (Inr (Inl p), w')"
  shows "t = TNode Human_review \<and> review_loop st None rv = Inl p"
proof (cases t)
  case (TNode n)
  then show ?thesis using assms
    by (cases n) (auto simp: amap_Inr_Inl raise_def elim: human_review_cmd)
next
  case (TWorker a)
  then show ?thesis using assms by (simp add: amap_Inr_Inl)
qed

lemma interrupts_mem: "p \<in> set (interrupts rs) \<Longrightarrow> \<exists>t. (t, Inl p) \<in> set rs"
  by (auto simp: interrupts_def split: sum.splits)

lemma run_interrupted:
  assumes "stage ctx st tasks" and "run ctx rv n st tasks w = (Interrupted s p, w')"
  shows "stage ctx s [TNode Human_review] \<and> review_loop s None rv = Inl p"
proof (rule run_final_stage [OF assms])
  fix tasks' w''
  assume stage: "stage ctx (final_state (Interrupted s p)) tasks'" and "ends_as ctx rv (Interrupted s p) tasks' w''"
  then obtain rs w3 where r: "run_tasks ctx rv s tasks' w'' = (Inr rs, w3)" "p \<in> set (interrupts rs)" by auto
  then obtain t where "(t, Inl p) \<in> set rs" using interrupts_mem by blast
  then obtain w4 w5 where t: "t \<in> set tasks'" "run_task ctx rv s t w4 = (Inr (Inl p), w5)"
    using run_tasks_results [OF r(1)] by blast
  note loop = run_task_interrupt [OF t(2)]
  have "stage ctx s tasks'" using stage by simp
  then have "tasks' = [TNode Human_review]"
    using t(1) loop by cases auto
  then show ?thesis using stage loop by simp
qed

end
