(* ===== verification/Contracts.thy ===== *)
theory Contracts
  imports Pipeline
begin

text \<open>
  What the service contracts of \<open>Services\<close> add for the whole graph: every known document of the
  package has exactly one extraction of its own type, look-ups of documents never fail, and
  with a sink that does not raise the only exceptions that can end a run are those of the
  validation rules and of the screening names.
\<close>

locale lawful_context =
  primary: services_contract "classify (services ctx)" "extract_fields (services ctx)" "verify_grounding (services ctx)"
  + backup: services_contract "classify (fallback ctx)" "extract_fields (fallback ctx)" "verify_grounding (fallback ctx)"
  for ctx :: "'w pipeline_context"
begin

lemma resilient_classify:
  assumes "run_resilient step node (classify (services ctx) docs ct) (Some (classify (fallback ctx) docs ct)) mr w
      = (Inr (cs, errs), w')"
  shows "map cd_document_id cs = map document_id docs"
  using assms by (rule run_resilient_result) (auto intro: primary.classify_ids backup.classify_ids)

lemma resilient_extract:
  assumes "run_resilient step node (extract_fields (services ctx) d t) (Some (extract_fields (fallback ctx) d t)) mr w
      = (Inr (e, errs), w')"
  shows "extraction_for d t e"
  using assms by (rule run_resilient_result) (auto intro: primary.extract_for backup.extract_for)

lemma resilient_verify:
  assumes "run_resilient step node (verify_grounding (services ctx) d e) (Some (verify_grounding (fallback ctx) d e)) mr w
      = (Inr (fs, errs), w')"
  shows "\<forall>f \<in> set fs. rule_id f = EVALUATOR_DISCREPANCY \<and> severity f = CRITICAL"
  using assms by (rule run_resilient_result) (use primary.discrepancies backup.discrepancies in blast)+

lemma router_classified:
  assumes "router ctx st w = (Inr (u, g), w')" and "u_classified u = Some cs"
  shows "map cd_document_id cs = map document_id (documents (package st))"
  using assms by (auto simp: router_def Let_def act_simps no_update_def dest: resilient_classify)

lemma extract_document_for:
  assumes "extract_document ctx t w = (Inr (u, g), w')"
  shows "\<exists>e. u_extractions u = [e] \<and> er_document_id e = document_id (t_document t) \<and> er_doc_type e = t_doc_type t"
  using assms
  by (auto simp: extract_document_def Let_def act_simps no_update_def extraction_for_def dest!: resilient_extract)

lemma grounding_discrepancies:
  assumes "grounding_pass ctx cid docs es acc w = (Inr (Inr fs), w')"
    and "\<forall>f \<in> set acc. rule_id f = EVALUATOR_DISCREPANCY \<and> severity f = CRITICAL"
  shows "\<forall>f \<in> set fs. rule_id f = EVALUATOR_DISCREPANCY \<and> severity f = CRITICAL"
  using assms
proof (induction es arbitrary: acc w)
  case (Cons e es)
  show ?case
  proof (cases "extraction_error e = None")
    case True
    then obtain d flags errs w1 w2 where
      r: "run_resilient VALIDATOR ''validator'' (verify_grounding (services ctx) d e)
         (Some (verify_grounding (fallback ctx) d e)) (retries ctx) w = (Inr (flags, errs), w1)"
      and rest: "grounding_pass ctx cid docs es (acc @ flags) w2 = (Inr (Inr fs), w')"
      using Cons.prems(1) by (simp add: True) (auto simp: act_simps)
    show ?thesis
      by (rule Cons.IH [OF rest]) (use Cons.prems(2) resilient_verify [OF r] in auto)
  next
    case False
    then show ?thesis using Cons.IH [OF _ Cons.prems(2)] Cons.prems(1) by simp
  qed
qed (simp add: act_simps)

end

section \<open>Documents, classifications and extractions belong together\<close>

definition doc_pair :: "classified_document \<Rightarrow> string \<times> document_type" where
  "doc_pair c = (cd_document_id c, cd_doc_type c)"

definition task_pair :: "extract_task \<Rightarrow> string \<times> document_type" where
  "task_pair t = (document_id (t_document t), t_doc_type t)"

definition result_pair :: "extraction_result \<Rightarrow> string \<times> document_type" where
  "result_pair e = (er_document_id e, er_doc_type e)"

definition pending :: "task list \<Rightarrow> extract_task list" where
  "pending tasks = concat (map (\<lambda>t. case t of TWorker a \<Rightarrow> [a] | TNode n \<Rightarrow> []) tasks)"

lemma pending_simps [simp]:
  "pending [] = []" "pending (TNode n # ts) = pending ts" "pending (map TWorker as) = as"
  by (simp_all add: pending_def) (induction as; simp)

text \<open>
  Before the router a case has neither classifications nor extractions; a router that failed leaves
  it so, and says so. From the orchestrator on, the extractions made and to be made are those of the
  known documents of a complete package, and there are none for an incomplete one.
\<close>

definition router_failed :: "kyc_state \<Rightarrow> bool" where
  "router_failed st \<longleftrightarrow> ''router failed after retries and fallback'' \<in> set (degraded_reasons st)"

definition linked :: "kyc_state \<Rightarrow> task list \<Rightarrow> bool" where
  "linked st tasks \<longleftrightarrow>
     (case classified_documents st of
        None \<Rightarrow> extractions st = [] \<and> pending tasks = []
          \<and> (tasks = [TNode Intake] \<or> tasks = [TNode Router] \<or> router_failed st)
      | Some cs \<Rightarrow> map cd_document_id cs = map document_id (documents (package st))
          \<and> (if package_check (package st) cs = None \<and> tasks \<noteq> [TNode Orchestrator]
             then mset (map result_pair (extractions st)) + mset (map task_pair (pending tasks))
                  = mset (map doc_pair (known_docs cs))
             else extractions st = [] \<and> pending tasks = []))"

lemma map_TWorker_neq [simp]: "map TWorker ts \<noteq> [TNode n]"
  by (cases ts) simp_all

lemma linked_initial: "linked (initial_state c p s) start_tasks"
  by (simp add: linked_def initial_state_def start_tasks_def)

lemma docs_by_id_key: "dict_get (docs_by_id p) i = Some d \<Longrightarrow> document_id d = i \<and> d \<in> set (documents p)"
  by (auto simp: docs_by_id_def dict_of_get dest!: map_of_SomeD)

lemma docs_by_id_dom: "dict_get (docs_by_id p) i \<noteq> None \<longleftrightarrow> i \<in> document_id ` set (documents p)"
  by (simp add: docs_by_id_def dict_of_get map_of_eq_None_iff image_image)

lemma make_tasks_pairs:
  "make_tasks c (docs_by_id p) cs = Inr tasks \<Longrightarrow> map task_pair tasks = map doc_pair cs"
  by (induction cs arbitrary: tasks)
    (auto split: option.splits sum.splits dest!: docs_by_id_key simp: task_pair_def doc_pair_def)

lemma other_cmd:
  assumes "run_task ctx rv st (TNode n) w = (Inr (Inr (u, g)), w')" and "n \<notin> {Router, Orchestrator}"
  shows "u_classified u = None \<and> u_extractions u = [] \<and> pending (next_tasks [(TNode n, Inr (u, g))]) = []
    \<and> next_tasks [(TNode n, Inr (u, g))] \<noteq> [TNode Orchestrator]
    \<and> (n = Intake \<longrightarrow> next_tasks [(TNode n, Inr (u, g))] = [TNode Router])"
proof (cases n)
  case Validator
  then have "validator ctx st w = (Inr (u, g), w')" using assms by (auto simp: act_simps)
  then show ?thesis by (cases rule: validator_cmd) (auto simp: no_update_def Validator)
next
  case Risk_scorer
  then have "risk_scorer ctx st w = (Inr (u, g), w')" using assms by (auto simp: act_simps)
  then show ?thesis by (cases rule: risk_scorer_cmd) (auto simp: no_update_def Risk_scorer)
next
  case Decision_gate
  then have "decision_gate ctx st w = (Inr (u, g), w')" using assms by (auto simp: act_simps)
  then show ?thesis by (cases rule: decision_gate_cmd) (auto simp: no_update_def Decision_gate)
next
  case Human_review
  then have "human_review ctx rv st w = (Inr (Inr (u, g)), w')" using assms by simp
  then show ?thesis by (cases rule: human_review_cmd) (auto simp: no_update_def Human_review)
qed (use assms in \<open>auto simp: act_simps no_update_def
       dest!: intake_cmd auto_decision_cmd finalize_cmd handle_error_cmd\<close>)

context lawful_context
begin

lemma linked_node:
  assumes "linked st [TNode n]" and "run_task ctx rv st (TNode n) w = (Inr (Inr (u, g)), w')"
    and "n \<in> {Router, Orchestrator} \<Longrightarrow> extractions st = []"
  shows "linked (apply_update u st) (next_tasks [(TNode n, Inr (u, g))])"
proof (cases "n \<in> {Router, Orchestrator}")
  case False
  then show ?thesis using assms(1) other_cmd [OF assms(2)] by (auto simp: linked_def router_failed_def split: option.splits)
next
  case True
  show ?thesis
  proof (cases "n = Router")
    case True
    then have r: "router ctx st w = (Inr (u, g), w')" using assms(2) by (auto simp: act_simps)
    then show ?thesis
    proof (cases rule: router_cmd)
      case (1 errs)
      then show ?thesis using assms(1,3) True by (auto simp: linked_def no_update_def router_failed_def split: option.splits)
    next
      case (2 cs errs)
      then have "map cd_document_id cs = map document_id (documents (package st))"
        by (intro router_classified [OF r]) simp
      then show ?thesis using assms(3) True 2 by (auto simp: linked_def no_update_def split: option.splits)
    qed
  next
    case False
    then have n: "n = Orchestrator" using True by simp
    then have "orchestrator ctx st w = (Inr (u, g), w')" using assms(2) by (auto simp: act_simps)
    then show ?thesis
    proof (cases rule: orchestrator_cmd)
      case (1 cs f)
      then show ?thesis using assms(1,3) n by (auto simp: linked_def no_update_def split: option.splits)
    next
      case (2 cs tasks)
      then show ?thesis using assms(1,3) n make_tasks_pairs [OF 2(3)]
        by (auto simp: linked_def no_update_def split: option.splits)
    qed
  qed
qed

lemma workers_pairs:
  assumes "run_tasks ctx rv st order w = (Inr rs, w')" and "order = map TWorker ts"
  shows "map result_pair (concat (map u_extractions (updates rs))) = map task_pair ts"
  using assms
proof (induction order arbitrary: ts rs w)
  case (Cons t order)
  then obtain a as where a: "ts = a # as" "t = TWorker a" "order = map TWorker as" by auto
  then obtain u g w1 rs1 where r: "extract_document ctx a w = (Inr (u, g), w1)"
    "run_tasks ctx rv st order w1 = (Inr rs1, w')" "rs = (TWorker a, Inr (u, g)) # rs1"
    using Cons.prems(1) by (auto simp: act_simps)
  obtain e where "u_extractions u = [e]" "result_pair e = task_pair a"
    using extract_document_for [OF r(1)] by (auto simp: result_pair_def task_pair_def)
  then show ?case using Cons.IH [OF r(2) a(3)] a(1) r(3) by (simp add: updates_def)
qed (simp add: act_simps updates_def)

lemma mset_concat_cong: "mset us = mset vs \<Longrightarrow> mset (concat (map f us)) = mset (concat (map f vs))"
proof -
  have "mset (concat (map f xs)) = \<Sum>\<^sub># (image_mset (\<lambda>x. mset (f x)) (mset xs))" for xs
    by (induction xs) simp_all
  then show "mset us = mset vs \<Longrightarrow> ?thesis" by simp
qed

lemma linked_workers:
  assumes "linked st (map TWorker ts)" and "extractions st = []" and "ts \<noteq> []"
    and step: "gstep ctx rv (st, map TWorker ts, w) (st', tasks', w')"
  shows "linked st' tasks'"
proof -
  obtain us where us: "tasks' = [TNode Validator]" using gstep_workers [OF step] by metis
  obtain order rs us where o: "mset order = mset (map TWorker ts)"
    "run_tasks ctx rv st order w = (Inr rs, w')" "mset us = mset (updates rs)" "st' = apply_updates us st"
    using gstepD [OF step] by blast
  define as where "as = map (\<lambda>t. case t of TWorker a \<Rightarrow> a | TNode n \<Rightarrow> hd ts) order"
  have "set order \<subseteq> range TWorker" using mset_eq_setD [OF o(1)] by auto
  then have order: "order = map TWorker as"
    unfolding as_def map_map by (intro map_idI [symmetric]) auto
  then have "image_mset TWorker (mset as) = image_mset TWorker (mset ts)" using o(1) by simp
  from arg_cong [OF this, of "image_mset (\<lambda>t. case t of TWorker a \<Rightarrow> a | TNode n \<Rightarrow> hd ts)"]
  have as: "mset as = mset ts" by (simp add: multiset.map_comp comp_def)
  have worker: "\<forall>u \<in> set us. worker_update u"
  proof
    fix u assume "u \<in> set us"
    then have "u \<in> set (updates rs)" using mset_eq_setD [OF o(3)] by simp
    then obtain t g where "(t, Inr (u, g)) \<in> set rs" by (auto simp: updates_def split: sum.splits)
    then obtain w1 w2 where "t \<in> set order" "run_task ctx rv st t w1 = (Inr (Inr (u, g)), w2)"
      using run_tasks_results [OF o(2)] by blast
    then obtain a where "extract_document ctx a w1 = (Inr (u, g), w2)"
      using order by (auto simp: act_simps)
    then show "worker_update u" by (cases rule: extract_document_cmd) auto
  qed
  have st': "extractions st' = concat (map u_extractions us)" "package st' = package st"
    "classified_documents st' = classified_documents st"
    using assms(2) by (simp_all add: o(4) apply_updates_workers [OF worker])
  have "mset (map result_pair (extractions st')) = image_mset result_pair (mset (concat (map u_extractions (updates rs))))"
    unfolding st' mset_map by (simp only: mset_concat_cong [OF o(3)])
  also have "\<dots> = mset (map task_pair as)"
    using workers_pairs [OF o(2) order] by (metis mset_map)
  also have "\<dots> = mset (map task_pair ts)" using as by simp
  finally show ?thesis using assms(1-3) us st' by (auto simp: linked_def split: option.splits)
qed

lemma linked_step:
  assumes "stage ctx st tasks" and "linked st tasks" and "gstep ctx rv (st, tasks, w) (st', tasks', w')"
  shows "linked st' tasks'"
  using assms(1)
proof cases
  case (at_workers ts)
  then show ?thesis using linked_workers assms(2,3) by blast
next
  case (at_end d)
  then show ?thesis using assms(3) by (auto elim: gstepE)
qed (use assms(2,3) in \<open>auto elim!: gstep_node intro: linked_node simp: early_def simp del: run_task.simps\<close>)

lemma linked_reaches:
  assumes "reaches ctx rv (st, tasks, w) (st', tasks', w')" and "stage ctx st tasks" "linked st tasks"
  shows "linked st' tasks'"
proof -
  have "stage ctx st' tasks' \<and> linked st' tasks'"
    using assms(1)
  proof (rule reaches_invariant)
    show "stage ctx st tasks \<and> linked st tasks" using assms(2,3) by simp
  next
    fix s t v s' t' v'
    assume "stage ctx s t \<and> linked s t" and "gstep ctx rv (s, t, v) (s', t', v')"
    then show "stage ctx s' t' \<and> linked s' t'" using stage_step linked_step by metis
  qed
  then show ?thesis ..
qed

end

section \<open>What can end a run\<close>

text \<open>With a sink that never raises.\<close>

lemma total_screen [intro]: "safe_audit ctx \<Longrightarrow> total_action (screen ctx client names cid hits)"
  by (induction names arbitrary: hits) (auto intro!: total_abind total_log_event)

lemma total_ubo_screen [intro]: "safe_audit ctx \<Longrightarrow> total_action (ubo_screen ctx owners cid)"
  by (auto simp: ubo_screen_def intro!: total_abind)

lemma total_log_flags [intro]: "safe_audit ctx \<Longrightarrow> total_action (log_flags ctx cid node fs)"
  by (auto simp: log_flags_def intro!: total_aforeach)

lemma total_amap [intro]: "total_action m \<Longrightarrow> total_action (amap f m)"
  by (auto simp: amap_def)

lemma total_grounding:
  assumes "safe_audit ctx" and "\<forall>e \<in> set es. dict_get docs (er_document_id e) \<noteq> None"
  shows "total_action (grounding_pass ctx cid docs es acc)"
  using assms(2)
proof (induction es arbitrary: acc)
  case (Cons e es)
  then obtain d where "dict_get docs (er_document_id e) = Some d" by auto
  then show ?case using Cons assms(1) by (auto intro!: total_abind)
qed simp

lemma total_simple_nodes:
  assumes "safe_audit ctx"
  shows "total_action (intake ctx st)" "total_action (router ctx st)" "total_action (decision_gate ctx st)"
    "total_action (handle_error ctx st)" "total_action (human_review ctx rv st)"
    "total_action (extract_document ctx t)"
    "decision st \<noteq> None \<Longrightarrow> total_action (auto_decision ctx st)"
    "decision st \<noteq> None \<Longrightarrow> total_action (finalize ctx st)"
  using assms
  by (auto simp: intake_def router_def decision_gate_def handle_error_def human_review_def
      extract_document_def auto_decision_def finalize_def
      intro!: total_let total_abind total_log_event total_case_sum total_case_prod)

lemma make_tasks_known:
  assumes "\<forall>c \<in> set cs. cd_document_id c \<in> document_id ` set (documents p)"
  shows "\<exists>ts. make_tasks cid (docs_by_id p) cs = Inr ts"
  using assms
proof (induction cs)
  case (Cons c cs)
  moreover obtain d where "dict_get (docs_by_id p) (cd_document_id c) = Some d"
    using docs_by_id_dom [of p "cd_document_id c"] Cons.prems by auto
  ultimately show ?case by auto
qed simp

lemma total_orchestrator:
  assumes "safe_audit ctx" "classified_documents st = Some cs"
    and "map cd_document_id cs = map document_id (documents (package st))"
  shows "total_action (orchestrator ctx st)"
proof -
  have "cd_document_id ` set cs = document_id ` set (documents (package st))"
    using assms(3) by (metis list.set_map)
  then obtain ts where "make_tasks (case_id st) (docs_by_id (package st)) (known_docs cs) = Inr ts"
    using make_tasks_known [of "known_docs cs" "package st" "case_id st"] by (fastforce simp: known_docs_def)
  then show ?thesis using assms(1,2)
    by (auto simp: orchestrator_def Let_def known_docs_def split: option.split
        intro!: total_abind total_aforeach total_log_event)
qed

lemma validator_raises:
  assumes "safe_audit ctx" and "\<forall>e \<in> set (extractions st). er_document_id e \<in> document_id ` set (documents (package st))"
    and "validator ctx st w = (Inl x, w')"
  shows "run_validation_rules (applicant (package st)) (extractions st) (today ctx)
           (match_thresholds_of (cx_settings ctx)) = Inl x"
proof -
  have "total_action (ground ctx st)"
    unfolding ground_def using assms(1,2) docs_by_id_dom by (auto intro!: total_grounding)
  moreover have "total_action (validator ctx st)"
    if "total_action (ground ctx st)" "run_validation_rules (applicant (package st)) (extractions st)
        (today ctx) (match_thresholds_of (cx_settings ctx)) = Inr r" for r
    unfolding validator_def that(2) using assms(1) that(1)
    by (auto intro!: total_let total_abind total_log_event total_case_sum total_case_prod)
  ultimately obtain y where y: "run_validation_rules (applicant (package st)) (extractions st)
      (today ctx) (match_thresholds_of (cx_settings ctx)) = Inl y"
    using assms(3) total_no_raise by (metis sum.exhaust_sel)
  then show ?thesis using assms(3) by (simp add: validator_def abind_def of_result_def)
qed

lemma total_screen_all:
  assumes "safe_audit ctx" "screening_names st = Inr ns"
  shows "total_action (screen_all ctx st)"
  using assms
  by (auto simp: screen_all_def intro!: total_abind)

text \<open>The exceptions of a case: a malformed field of an extraction.\<close>

definition ill_formed :: "'w pipeline_context \<Rightarrow> kyc_state \<Rightarrow> exn \<Rightarrow> bool" where
  "ill_formed ctx st x \<longleftrightarrow>
     run_validation_rules (applicant (package st)) (extractions st) (today ctx)
       (match_thresholds_of (cx_settings ctx)) = Inl x
     \<or> screening_names st = Inl x"

lemma total_risk_scorer:
  assumes "safe_audit ctx" "screening_names st = Inr ns"
  shows "total_action (risk_scorer ctx st)"
  unfolding risk_scorer_def using assms
  by (auto intro!: total_let total_abind total_log_event total_case_prod total_screen_all)

lemma risk_scorer_raises:
  assumes "safe_audit ctx" "risk_scorer ctx st w = (Inl x, w')"
  shows "screening_names st = Inl x"
proof (cases "screening_names st")
  case (Inl y)
  then show ?thesis using assms(2)
    by (simp add: risk_scorer_def screen_all_def Let_def abind_def of_result_def)
next
  case (Inr ns)
  then show ?thesis using total_no_raise [OF total_risk_scorer [OF assms(1) Inr]] assms(2) by metis
qed

lemma linked_ids:
  assumes "linked st tasks" "e \<in> set (extractions st)"
  shows "er_document_id e \<in> document_id ` set (documents (package st))"
proof -
  obtain cs where cs: "classified_documents st = Some cs"
    "mset (map result_pair (extractions st)) + mset (map task_pair (pending tasks)) = mset (map doc_pair (known_docs cs))"
    using assms by (auto simp: linked_def split: option.splits if_splits)
  have "result_pair e \<in># mset (map result_pair (extractions st)) + mset (map task_pair (pending tasks))"
    using assms(2) by simp
  then have "result_pair e \<in> doc_pair ` set (known_docs cs)" unfolding cs(2) by simp
  then have "er_document_id e \<in> cd_document_id ` set cs"
    by (auto simp: result_pair_def doc_pair_def known_docs_def)
  moreover have "map cd_document_id cs = map document_id (documents (package st))"
    using assms(1) cs(1) by (simp add: linked_def)
  then have "cd_document_id ` set cs = document_id ` set (documents (package st))"
    by (simp only: list.set_map [symmetric])
  ultimately show ?thesis by simp
qed

lemma amap_no_raise: "total_action m \<Longrightarrow> amap f m w \<noteq> (Inl x, w')"
  by (rule total_no_raise) (rule total_amap)

lemma quiet_task:
  assumes "safe_audit ctx" and "task_node t \<notin> {Orchestrator, Validator, Risk_scorer}"
    and "t \<noteq> TNode Extract_document" and "task_node t \<in> {Auto_decision, Finalize} \<Longrightarrow> decision st \<noteq> None"
  shows "run_task ctx rv st t w \<noteq> (Inl x, w')"
proof (cases t)
  case (TWorker a)
  then show ?thesis using amap_no_raise [OF total_simple_nodes(6) [OF assms(1)]] by simp
next
  case (TNode n)
  show ?thesis
  proof (cases n)
    case Intake
    then show ?thesis using TNode amap_no_raise [OF total_simple_nodes(1) [OF assms(1)]] by simp
  next
    case Router
    then show ?thesis using TNode amap_no_raise [OF total_simple_nodes(2) [OF assms(1)]] by simp
  next
    case Decision_gate
    then show ?thesis using TNode amap_no_raise [OF total_simple_nodes(3) [OF assms(1)]] by simp
  next
    case Handle_error
    then show ?thesis using TNode amap_no_raise [OF total_simple_nodes(4) [OF assms(1)]] by simp
  next
    case Human_review
    then show ?thesis using TNode total_no_raise [OF total_simple_nodes(5) [OF assms(1)]] by simp
  next
    case Auto_decision
    then show ?thesis using TNode assms(4) amap_no_raise [OF total_simple_nodes(7) [OF assms(1)]] by simp
  next
    case Finalize
    then show ?thesis using TNode assms(4) amap_no_raise [OF total_simple_nodes(8) [OF assms(1)]] by simp
  qed (use TNode assms(2,3) in auto)
qed

lemma stage_raises:
  assumes "stage ctx st tasks" "linked st tasks" "safe_audit ctx" "t \<in> set tasks"
    and "run_task ctx rv st t w = (Inl x, w')"
  shows "ill_formed ctx st x"
  using assms(1)
proof cases
  case at_orchestrator
  then obtain cs where cs: "classified_documents st = Some cs" by auto
  then have "map cd_document_id cs = map document_id (documents (package st))"
    using assms(2) by (simp add: linked_def)
  from total_orchestrator [OF assms(3) cs this]
  have "run_task ctx rv st (TNode Orchestrator) w \<noteq> (Inl x, w')" using amap_no_raise by simp
  then show ?thesis using assms(4,5) at_orchestrator by auto
next
  case at_validator
  then have "validator ctx st w = (Inl x, w')" using assms(4,5) by (simp add: amap_Inl)
  then show ?thesis
    using validator_raises [OF assms(3)] linked_ids [OF assms(2)] by (simp add: ill_formed_def)
next
  case at_risk
  then have "risk_scorer ctx st w = (Inl x, w')" using assms(4,5) by (simp add: amap_Inl)
  then show ?thesis using risk_scorer_raises [OF assms(3)] by (simp add: ill_formed_def)
next
  case (at_workers ts)
  then have "run_task ctx rv st t w \<noteq> (Inl x, w')" using assms(4) by (intro quiet_task [OF assms(3)]) auto
  then show ?thesis using assms(5) by simp
next
  case (at_end d)
  then show ?thesis using assms(4) by simp
qed (use assms(4,5) quiet_task [OF assms(3), of t st rv w x w'] in simp)+

lemma run_tasks_raises:
  "run_tasks ctx rv st tasks w = (Inl x, w') \<Longrightarrow> \<exists>t \<in> set tasks. \<exists>w1 w2. run_task ctx rv st t w1 = (Inl x, w2)"
proof (induction tasks arbitrary: w)
  case (Cons t tasks)
  then consider "run_task ctx rv st t w = (Inl x, w')" | w1 where "run_tasks ctx rv st tasks w1 = (Inl x, w')"
    by (auto simp: act_simps)
  then show ?case using Cons.IH by cases (auto simp del: run_task.simps)
qed (simp add: act_simps)

context lawful_context
begin

lemma run_linked:
  assumes "stage ctx st tasks" "linked st tasks" and "run ctx rv n st tasks w = (out, w')"
  obtains tasks' w'' where "stage ctx (final_state out) tasks'" "linked (final_state out) tasks'"
    "ends_as ctx rv out tasks' w''"
  using run_reaches [OF assms(3)] stage_reaches [OF _ assms(1)] linked_reaches [OF _ assms(1,2)] by metis

lemma run_crashed:
  assumes "stage ctx st tasks" "linked st tasks" "safe_audit ctx"
    and "run ctx rv n st tasks w = (Crashed s x, w')"
  shows "ill_formed ctx s x"
proof (rule run_linked [OF assms(1,2,4)])
  fix tasks' w''
  assume l: "stage ctx (final_state (Crashed s x)) tasks'" "linked (final_state (Crashed s x)) tasks'"
    and "ends_as ctx rv (Crashed s x) tasks' w''"
  then obtain w3 where "run_tasks ctx rv s tasks' w'' = (Inl x, w3)" by auto
  then obtain t w1 w2 where "t \<in> set tasks'" "run_task ctx rv s t w1 = (Inl x, w2)"
    using run_tasks_raises [of ctx rv s tasks' w'' x w3] by metis
  then show ?thesis using stage_raises [of ctx s tasks' t] l assms(3) by simp
qed

end

end
