(* ===== verification/Registries.thy ===== *)
theory Registries
  imports Schemas Difflib
begin

text \<open>
  \<open>tools/registries.py\<close>: the mock sanctions and PEP registries. The seeded generator of a
  client is its stream of draws (\<open>random.random()\<close> returns numbers in \<open>[0, 1)\<close>) and the
  position in it; a call draws only when \<open>failure_rate > 0\<close>. The lemmas describe exactly which
  entries are hits, that every hit is well-formed and the hits are ordered by score, and when
  the registry is unavailable.
\<close>

record registry_entry =
  entry_full_name :: string
  entry_id :: string

definition sanctions_entries :: "registry_entry list" where
  "sanctions_entries =
     [\<lparr>entry_full_name = ''Viktor Salo'', entry_id = ''EU-2024-0113''\<rparr>,
      \<lparr>entry_full_name = ''Dmitri Voronov'', entry_id = ''EU-2023-0871''\<rparr>,
      \<lparr>entry_full_name = ''Halvard Eriksen'', entry_id = ''UN-2022-0442''\<rparr>,
      \<lparr>entry_full_name = ''Rustam Aliyev'', entry_id = ''OFAC-2025-1190''\<rparr>,
      \<lparr>entry_full_name = ''Meridian Shipping Ltd'', entry_id = ''EU-2024-0555''\<rparr>]"

definition pep_entries :: "registry_entry list" where
  "pep_entries =
     [\<lparr>entry_full_name = ''Maarika Kask'', entry_id = ''PEP-EE-0077''\<rparr>,
      \<lparr>entry_full_name = ''Jonas Lindqvist'', entry_id = ''PEP-SE-0214''\<rparr>,
      \<lparr>entry_full_name = ''Petra Novak'', entry_id = ''PEP-CZ-0033''\<rparr>,
      \<lparr>entry_full_name = ''Anders Holm'', entry_id = ''PEP-DK-0158''\<rparr>]"

definition registry_normalize :: "string \<Rightarrow> string" where
  "registry_normalize v = py_join '' '' (py_split (py_casefold v))"

record registry_client =
  rc_registry :: registry_name
  rc_entries :: "registry_entry list"
  rc_threshold :: rat
  rc_failure_rate :: rat
  rc_draws :: "nat \<Rightarrow> rat"

definition registry_unavailable :: "registry_name \<Rightarrow> exn" where
  "registry_unavailable r =
     Exn ''RegistryUnavailableError'' (registry_value r @ '' registry: connection failed'')"

definition entry_score :: "string \<Rightarrow> registry_entry \<Rightarrow> rat" where
  "entry_score query e = sm_ratio query (registry_normalize (entry_full_name e))"

definition entry_hit :: "registry_client \<Rightarrow> string \<Rightarrow> registry_entry \<Rightarrow> registry_hit" where
  "entry_hit c query e =
     \<lparr>registry = rc_registry c, matched_name = entry_full_name e,
      score = py_round4 (entry_score query e), list_entry = entry_id e\<rparr>"

text \<open>The position in the stream of draws is the state of the client.\<close>

definition search :: "registry_client \<Rightarrow> string \<Rightarrow> (nat, registry_hit list) action" where
  "search c name pos =
     (if 0 < rc_failure_rate c \<and> rc_draws c pos < rc_failure_rate c
      then (Inl (registry_unavailable (rc_registry c)), pos + 1)
      else let query = registry_normalize name;
               hits = map (entry_hit c query)
                        (filter (\<lambda>e. rc_threshold c \<le> entry_score query e) (rc_entries c))
           in (Inr (sort_key (\<lambda>h. - score h) hits),
               if 0 < rc_failure_rate c then pos + 1 else pos))"

definition build_sanctions_client :: "rat \<Rightarrow> (nat \<Rightarrow> rat) \<Rightarrow> registry_client" where
  "build_sanctions_client rate draws =
     \<lparr>rc_registry = SANCTIONS, rc_entries = sanctions_entries, rc_threshold = fl (85 / 100),
      rc_failure_rate = rate, rc_draws = draws\<rparr>"

definition build_pep_client :: "rat \<Rightarrow> (nat \<Rightarrow> rat) \<Rightarrow> registry_client" where
  "build_pep_client rate draws =
     \<lparr>rc_registry = PEP, rc_entries = pep_entries, rc_threshold = fl (85 / 100),
      rc_failure_rate = rate, rc_draws = draws\<rparr>"

section \<open>Which entries are hits\<close>

lemma entry_score_bounds: "0 \<le> entry_score q e" "entry_score q e \<le> 1"
  by (simp_all add: entry_score_def sm_ratio_bounds)

lemma round4_bounds: "0 \<le> x \<Longrightarrow> x \<le> 1 \<Longrightarrow> 0 \<le> py_round4 x \<and> py_round4 x \<le> 1"
  using py_round4_mono [of 0 x] py_round4_mono [of x 1] by simp

lemma wf_entry_hit: "wf_hit (entry_hit c q e)"
  using round4_bounds [OF entry_score_bounds] by (simp add: wf_hit_def entry_hit_def)

lemma search_hits:
  assumes "search c name pos = (Inr hits, pos')"
  shows "set hits = entry_hit c (registry_normalize name)
           ` {e \<in> set (rc_entries c). rc_threshold c \<le> entry_score (registry_normalize name) e}"
  using assms by (auto simp: search_def Let_def split: if_splits)

lemma search_wf: "search c name pos = (Inr hits, pos') \<Longrightarrow> h \<in> set hits \<Longrightarrow> wf_hit h \<and> registry h = rc_registry c"
  using wf_entry_hit by (auto simp: search_hits) (simp add: entry_hit_def)

lemma search_sorted:
  assumes "search c name pos = (Inr hits, pos')"
  shows "sorted_wrt (\<lambda>h k. score k \<le> score h) hits"
proof -
  have "sorted (map (\<lambda>h. - score h) hits)"
    using assms by (auto simp: search_def Let_def split: if_splits)
  then show ?thesis by (simp add: sorted_wrt_map)
qed

text \<open>A listed name, whatever its case and spacing, is always found.\<close>

lemma search_exact:
  assumes "search c name pos = (Inr hits, pos')"
    and "e \<in> set (rc_entries c)" and "rc_threshold c \<le> 1"
    and "registry_normalize name = registry_normalize (entry_full_name e)"
  shows "\<lparr>registry = rc_registry c, matched_name = entry_full_name e, score = 1,
          list_entry = entry_id e\<rparr> \<in> set hits"
proof -
  have "entry_score (registry_normalize name) e = 1" using assms(4) by (simp add: entry_score_def)
  moreover from this have "entry_hit c (registry_normalize name) e \<in> set hits"
    using search_hits [OF assms(1)] assms(2,3) by auto
  ultimately show ?thesis by (simp add: entry_hit_def)
qed

section \<open>Availability\<close>

lemma search_available:
  assumes "rc_failure_rate c \<le> 0"
  shows "\<exists>hits. search c name pos = (Inr hits, pos)"
  using assms by (simp add: search_def Let_def)

lemma search_never:
  assumes "1 \<le> rc_failure_rate c" and "\<And>i. rc_draws c i < 1"
  shows "search c name pos = (Inl (registry_unavailable (rc_registry c)), pos + 1)"
  using assms(1) assms(2) [of pos] by (simp add: search_def)

lemma search_Inl_iff:
  "(\<exists>e. fst (search c name pos) = Inl e) \<longleftrightarrow> 0 < rc_failure_rate c \<and> rc_draws c pos < rc_failure_rate c"
  by (simp add: search_def Let_def)

text \<open>The outcome of a search depends on the state of the generator only through failure.\<close>

lemma search_stable:
  assumes "search c name pos = (Inr hits, p1)" and "search c name pos' = (Inr hits', p2)"
  shows "hits = hits'"
  using assms by (auto simp: search_def Let_def split: if_splits)

lemma threshold_le_1: "rc_threshold (build_sanctions_client r d) \<le> 1" "rc_threshold (build_pep_client r d) \<le> 1"
  by (simp_all add: build_sanctions_client_def build_pep_client_def fl_le_1)

section \<open>Properties\<close>

text \<open>C26: what a search returns. A search that answers returns exactly the entries whose similarity
  reaches the threshold of the registry, best score first, each with a score between 0 and 1; an entry
  whose name is the name asked for up to case and spacing is among them with score 1.\<close>

theorem search_answer:
  assumes "search c name pos = (Inr hits, pos')" "rc_threshold c \<le> 1"
  shows "set hits = entry_hit c (registry_normalize name)
        ` {e \<in> set (rc_entries c). rc_threshold c \<le> entry_score (registry_normalize name) e}
    \<and> sorted_wrt (\<lambda>h k. score k \<le> score h) hits \<and> (\<forall>h \<in> set hits. wf_hit h \<and> registry h = rc_registry c)
    \<and> (\<forall>e \<in> set (rc_entries c). registry_normalize name = registry_normalize (entry_full_name e) \<longrightarrow>
         \<lparr>registry = rc_registry c, matched_name = entry_full_name e, score = 1, list_entry = entry_id e\<rparr> \<in> set hits)"
  by (intro conjI ballI impI search_hits [OF assms(1)] search_sorted [OF assms(1)] search_exact [OF assms(1) _ assms(2)])
    (use search_wf [OF assms(1)] in blast)+

lemma search_answer_witness:
  "\<exists>hits. search (build_sanctions_client 0 (\<lambda>_. 0)) ''viktor  SALO'' 0 = (Inr hits, 0)
     \<and> \<lparr>registry = SANCTIONS, matched_name = ''Viktor Salo'', score = 1, list_entry = ''EU-2024-0113''\<rparr> \<in> set hits"
proof -
  let ?c = "build_sanctions_client 0 (\<lambda>_. 0)"
  obtain hits where h: "search ?c ''viktor  SALO'' 0 = (Inr hits, 0)"
    using search_available [of ?c] by (auto simp: build_sanctions_client_def)
  have e: "\<lparr>entry_full_name = ''Viktor Salo'', entry_id = ''EU-2024-0113''\<rparr> \<in> set (rc_entries ?c)"
    by (simp add: build_sanctions_client_def sanctions_entries_def)
  have n: "registry_normalize ''viktor  SALO'' = registry_normalize (entry_full_name
      \<lparr>entry_full_name = ''Viktor Salo'', entry_id = ''EU-2024-0113''\<rparr>)" by code_simp
  have r: "rc_registry ?c = SANCTIONS" by (simp add: build_sanctions_client_def)
  show ?thesis using search_answer [OF h threshold_le_1(1)] h e n r by fastforce
qed

end
