(* ===== verification/Factory.thy ===== *)
theory Factory
  imports FakeFacts LiveLLM Contracts Registries
begin

text \<open>
  \<open>llm/factory.py\<close> and \<open>build_context\<close> of \<open>graph/context.py\<close>: which service runs each step, and
  the context a process builds from its settings, on a concrete world: the store of the audit
  sink, the clock, the generators of the two registry clients, and the rest of the world behind
  the chat models. \<open>init_chat_model\<close> is a parameter. Every context built keeps the service
  contracts, and its audit calls never raise.
\<close>

section \<open>Model specifications\<close>

text \<open>\<open>spec.partition(":")\<close>.\<close>

definition provider_of :: "string \<Rightarrow> string" where
  "provider_of spec = takeWhile (\<lambda>c. c \<noteq> CHR '':'') spec"

definition model_name_of :: "string \<Rightarrow> string" where
  "model_name_of spec = drop 1 (dropWhile (\<lambda>c. c \<noteq> CHR '':'') spec)"

definition is_fake :: "string \<Rightarrow> bool" where
  "is_fake spec \<longleftrightarrow> provider_of spec = ''fake''"

definition is_openai :: "string \<Rightarrow> bool" where
  "is_openai spec \<longleftrightarrow> provider_of spec = ''openai''"

text \<open>Name, provider, temperature, and the keyword arguments \<open>base_url\<close> and \<open>api_key\<close>.\<close>

type_synonym 'w init_model =
  "string \<Rightarrow> string \<Rightarrow> rat \<Rightarrow> string option \<Rightarrow> string option \<Rightarrow> exn + 'w chat_model"

definition if_given :: "string option \<Rightarrow> string option" where
  "if_given x = (if x = Some [] then None else x)"

definition invalid_spec :: "string \<Rightarrow> exn" where
  "invalid_spec spec = Exn ''ValueError''
     (''invalid model spec '' @ py_repr spec @ '': expected '' @ py_repr ''provider:model_name'')"

definition chat_model ::
  "'w init_model \<Rightarrow> string \<Rightarrow> rat \<Rightarrow> string option \<Rightarrow> string option \<Rightarrow> exn + 'w chat_model" where
  "chat_model init spec temp base_url api_key =
     (if model_name_of spec = [] then Inl (invalid_spec spec)
      else init (model_name_of spec) (provider_of spec) temp (if_given base_url) (if_given api_key))"

definition creds :: "string \<Rightarrow> settings \<Rightarrow> string option \<times> string option" where
  "creds spec s = (if is_openai spec then (openai_base_url s, openai_api_key s) else (None, None))"

definition structured_method_of :: "string \<Rightarrow> string option" where
  "structured_method_of spec = (if is_openai spec then Some ''json_schema'' else None)"

definition model_for ::
  "'w init_model \<Rightarrow> string \<Rightarrow> pipeline_step \<Rightarrow> settings \<Rightarrow> exn + 'w chat_model" where
  "model_for init spec step s =
     (case creds spec s of (base_url, api_key) \<Rightarrow>
        chat_model init spec (temperature_by_step step) base_url api_key)"

section \<open>Services per step\<close>

definition router_for ::
  "'w init_model \<Rightarrow> string \<Rightarrow> settings
    \<Rightarrow> exn + (input_document list \<Rightarrow> customer_type \<Rightarrow> ('w, classified_document list) action)" where
  "router_for init spec s =
     (if is_fake spec then Inr fake_classify
      else map_sum id (\<lambda>m. live_classify m (structured_method_of spec)) (model_for init spec ROUTER s))"

definition extractor_for ::
  "'w init_model \<Rightarrow> string \<Rightarrow> settings
    \<Rightarrow> exn + (input_document \<Rightarrow> document_type \<Rightarrow> ('w, extraction_result) action)" where
  "extractor_for init spec s =
     (if is_fake spec then Inr fake_extract
      else map_sum id (\<lambda>m. live_extract m (structured_method_of spec)) (model_for init spec EXTRACTOR s))"

definition evaluator_for ::
  "(extraction_result \<Rightarrow> string) \<Rightarrow> 'w init_model \<Rightarrow> string \<Rightarrow> settings
    \<Rightarrow> exn + (input_document \<Rightarrow> extraction_result \<Rightarrow> ('w, rule_flag list) action)" where
  "evaluator_for dump init spec s =
     (if is_fake spec then Inr fake_verify
      else map_sum id (\<lambda>m. live_verify dump m (structured_method_of spec)) (model_for init spec VALIDATOR s))"

definition narrator_for ::
  "'w init_model \<Rightarrow> string \<Rightarrow> settings
    \<Rightarrow> exn + (applicant_declared \<Rightarrow> rule_flag list \<Rightarrow> rule_flag list \<Rightarrow> ('w, string) action)" where
  "narrator_for init spec s =
     (if is_fake spec then Inr fake_narrate else map_sum id live_narrate (model_for init spec RISK s))"

text \<open>\<open>PipelineServices(...)\<close>: the arguments are built in order, the first error is the error.\<close>

definition services_from ::
  "(extraction_result \<Rightarrow> string) \<Rightarrow> 'w init_model \<Rightarrow> string \<Rightarrow> string \<Rightarrow> string \<Rightarrow> string \<Rightarrow> settings
    \<Rightarrow> exn + 'w pipeline_services" where
  "services_from dump init rspec xspec vspec nspec s =
     (case router_for init rspec s of Inl e \<Rightarrow> Inl e | Inr r \<Rightarrow>
     (case extractor_for init xspec s of Inl e \<Rightarrow> Inl e | Inr x \<Rightarrow>
     (case evaluator_for dump init vspec s of Inl e \<Rightarrow> Inl e | Inr v \<Rightarrow>
     (case narrator_for init nspec s of Inl e \<Rightarrow> Inl e | Inr n \<Rightarrow>
        Inr \<lparr>classify = r, extract_fields = x, verify_grounding = v, narrate = n\<rparr>))))"

definition build_services ::
  "(extraction_result \<Rightarrow> string) \<Rightarrow> 'w init_model \<Rightarrow> settings \<Rightarrow> exn + 'w pipeline_services" where
  "build_services dump init s =
     services_from dump init (router_model s) (extractor_model s) (validator_model s) (risk_model s) s"

definition build_fallback_services ::
  "(extraction_result \<Rightarrow> string) \<Rightarrow> 'w init_model \<Rightarrow> settings \<Rightarrow> exn + 'w pipeline_services" where
  "build_fallback_services dump init s =
     (let spec = fallback_model s in services_from dump init spec spec spec spec s)"

section \<open>The world of a process\<close>

record ('s, 'x) world =
  w_store :: 's
  w_ticks :: nat
  w_sanctions :: nat
  w_pep :: nat
  w_remote :: 'x

text \<open>An action on a part of the world.\<close>

definition zoom :: "('w \<Rightarrow> 'v) \<Rightarrow> ('v \<Rightarrow> 'w \<Rightarrow> 'w) \<Rightarrow> ('v, 'a) action \<Rightarrow> ('w, 'a) action" where
  "zoom part back m w = (case m (part w) of (r, v) \<Rightarrow> (r, back v w))"

definition in_store :: "('s, 'a) action \<Rightarrow> (('s, 'x) world, 'a) action" where
  "in_store = zoom w_store (\<lambda>v w. w\<lparr>w_store := v\<rparr>)"

text \<open>The clock gives the times of a stream one after the other.\<close>

definition read_clock :: "(nat \<Rightarrow> nat) \<Rightarrow> ('s, 'x) world \<Rightarrow> nat \<times> ('s, 'x) world" where
  "read_clock ticks w = (ticks (w_ticks w), w\<lparr>w_ticks := w_ticks w + 1\<rparr>)"

text \<open>\<open>search\<close> on any JSON value: the name is normalised after the failure was drawn.\<close>

definition search_json :: "registry_client \<Rightarrow> jval \<Rightarrow> (nat, registry_hit list) action" where
  "search_json c v = (case v of JStr s \<Rightarrow> search c s
     | _ \<Rightarrow> (\<lambda>pos. case search c [] pos of (Inl e, pos') \<Rightarrow> (Inl e, pos') | (Inr _, pos') \<Rightarrow> (Inl (not_a_str v), pos')))"

definition sanctions_service :: "rat \<Rightarrow> (nat \<Rightarrow> rat) \<Rightarrow> ('s, 'x) world registry_service" where
  "sanctions_service rate draws =
     \<lparr>rs_registry = SANCTIONS,
      rs_search = (\<lambda>v. zoom w_sanctions (\<lambda>p w. w\<lparr>w_sanctions := p\<rparr>)
                     (search_json (build_sanctions_client rate draws) v))\<rparr>"

definition pep_service :: "rat \<Rightarrow> (nat \<Rightarrow> rat) \<Rightarrow> ('s, 'x) world registry_service" where
  "pep_service rate draws =
     \<lparr>rs_registry = PEP,
      rs_search = (\<lambda>v. zoom w_pep (\<lambda>p w. w\<lparr>w_pep := p\<rparr>) (search_json (build_pep_client rate draws) v))\<rparr>"

text \<open>What a process is given: the sink, the clock, the draws of the seeded generators.\<close>

record 's environment =
  env_sink :: "audit_event \<Rightarrow> ('s, unit) action"
  env_times :: "nat \<Rightarrow> nat"
  env_sanctions_draws :: "nat \<Rightarrow> rat"
  env_pep_draws :: "nat \<Rightarrow> rat"

definition context_with ::
  "'s environment \<Rightarrow> settings \<Rightarrow> ('s, 'x) world pipeline_services \<Rightarrow> ('s, 'x) world pipeline_services
    \<Rightarrow> date \<Rightarrow> bool \<Rightarrow> ('s, 'x) world pipeline_context" where
  "context_with env s sv fb td enabled =
     \<lparr>cx_settings = s, services = sv, fallback = fb,
      audit = safe_emit (\<lambda>e. in_store (env_sink env e)), clock = read_clock (env_times env),
      sanctions = sanctions_service (registry_failure_rate s) (env_sanctions_draws env),
      pep = pep_service (registry_failure_rate s) (env_pep_draws env),
      today = td, evaluator_enabled = enabled\<rparr>"

definition build_context ::
  "(extraction_result \<Rightarrow> string) \<Rightarrow> ('s, 'x) world init_model \<Rightarrow> 's environment \<Rightarrow> settings \<Rightarrow> date \<Rightarrow> bool
    \<Rightarrow> exn + ('s, 'x) world pipeline_context" where
  "build_context dump init env s td enabled =
     (case build_services dump init s of Inl e \<Rightarrow> Inl e | Inr sv \<Rightarrow>
     (case build_fallback_services dump init s of Inl e \<Rightarrow> Inl e | Inr fb \<Rightarrow>
        Inr (context_with env s sv fb td enabled)))"

lemma context_with_sel [simp]:
  "cx_settings (context_with env s sv fb td en) = s" "services (context_with env s sv fb td en) = sv"
  "fallback (context_with env s sv fb td en) = fb" "today (context_with env s sv fb td en) = td"
  "evaluator_enabled (context_with env s sv fb td en) = en"
  by (simp_all add: context_with_def)

section \<open>What every built context guarantees\<close>

lemma map_sum_Inr: "map_sum id f r = Inr y \<longleftrightarrow> (\<exists>x. r = Inr x \<and> y = f x)"
  by (cases r) auto

lemma router_for_law: "router_for init spec s = Inr r \<Longrightarrow> router_service r"
  using fake_router.router_service_axioms live_router.router_service_axioms
  by (auto simp: router_for_def map_sum_Inr split: if_splits)

lemma extractor_for_law: "extractor_for init spec s = Inr r \<Longrightarrow> extractor_service r"
  using fake_extractor.extractor_service_axioms live_extractor.extractor_service_axioms
  by (auto simp: extractor_for_def map_sum_Inr split: if_splits)

lemma evaluator_for_law: "evaluator_for dump init spec s = Inr r \<Longrightarrow> evaluator_service r"
  using fake_evaluator.evaluator_service_axioms live_evaluator.evaluator_service_axioms
  by (auto simp: evaluator_for_def map_sum_Inr split: if_splits)

lemma services_from_lawful:
  assumes "services_from dump init rs xs vs ns s = Inr sv"
  shows "lawful sv"
proof -
  obtain r x v n where parts: "router_for init rs s = Inr r" "extractor_for init xs s = Inr x"
    "evaluator_for dump init vs s = Inr v"
    and sv: "sv = \<lparr>classify = r, extract_fields = x, verify_grounding = v, narrate = n\<rparr>"
    using assms by (auto simp: services_from_def split: sum.splits)
  show ?thesis
    using router_for_law [OF parts(1)] extractor_for_law [OF parts(2)] evaluator_for_law [OF parts(3)]
    by (simp add: lawful_def services_contract_def sv)
qed

lemma build_contextD:
  assumes "build_context dump init env s td en = Inr ctx"
  obtains sv fb where "build_services dump init s = Inr sv" "build_fallback_services dump init s = Inr fb"
    "ctx = context_with env s sv fb td en"
  using assms that by (auto simp: build_context_def split: sum.splits)

lemma context_with_lawful:
  assumes "lawful sv" "lawful fb"
  shows "lawful_context (context_with env s sv fb td en)"
  using assms by (simp add: lawful_context_def lawful_def)

lemma built_lawful:
  assumes "build_context dump init env s td en = Inr ctx"
  shows "lawful_context ctx"
  using assms
proof (rule build_contextD)
  fix sv fb
  assume b: "build_services dump init s = Inr sv" "build_fallback_services dump init s = Inr fb"
    and ctx: "ctx = context_with env s sv fb td en"
  have "lawful sv" "lawful fb"
    using b services_from_lawful by (auto simp: build_services_def build_fallback_services_def Let_def)
  then show ?thesis by (simp add: ctx context_with_lawful)
qed

lemma context_with_safe: "safe_audit (context_with env s sv fb td en)"
  by (simp add: safe_audit_def context_with_def)

lemma built_safe: "build_context dump init env s td en = Inr ctx \<Longrightarrow> safe_audit ctx"
  by (erule build_contextD) (simp add: context_with_safe)

text \<open>The default settings need no model: the offline context.\<close>

definition offline_context ::
  "'s environment \<Rightarrow> settings \<Rightarrow> date \<Rightarrow> bool \<Rightarrow> ('s, 'x) world pipeline_context" where
  "offline_context env s td en = context_with env s fake_services fake_services td en"

definition offline :: "settings \<Rightarrow> bool" where
  "offline s \<longleftrightarrow> (\<forall>spec \<in> {router_model s, extractor_model s, validator_model s, risk_model s, fallback_model s}.
     is_fake spec)"

lemma build_offline:
  assumes "offline s"
  shows "build_context dump init env s td en = Inr (offline_context env s td en)"
  using assms
  by (simp add: build_context_def build_services_def build_fallback_services_def services_from_def
      router_for_def extractor_for_def evaluator_for_def narrator_for_def offline_def
      offline_context_def fake_services_def)

lemma offline_default: "offline default_settings"
  by (simp add: offline_def default_settings_def is_fake_def provider_of_def)

interpretation off: lawful_context "offline_context env s td en" for env s td en
  unfolding offline_context_def by (rule context_with_lawful) (rule lawful_fake)+

text \<open>A specification without a model name is refused when the context is built.\<close>

lemma bad_spec:
  assumes "\<not> is_fake (router_model s)" "model_name_of (router_model s) = []"
  shows "build_context dump init env s td en = Inl (invalid_spec (router_model s))"
  using assms
  by (simp add: build_context_def build_services_def services_from_def router_for_def model_for_def
      chat_model_def creds_def)

section \<open>Searches of a built context\<close>

lemma sanctions_context [simp]:
  "sanctions (context_with env s sv fb td en) = sanctions_service (registry_failure_rate s) (env_sanctions_draws env)"
  "pep (context_with env s sv fb td en) = pep_service (registry_failure_rate s) (env_pep_draws env)"
  by (simp_all add: context_with_def)

lemma search_json_Inr: "search_json c v p = (Inr hits, p') \<Longrightarrow> \<exists>n. v = JStr n \<and> search c n p = (Inr hits, p')"
  by (cases v) (auto simp: search_json_def split: prod.splits sum.splits)

end
