(* ===== verification/NoCrash.thy ===== *)
theory NoCrash
  imports Factory
begin

text \<open>
  When no case can crash: with services that keep their contracts, a sink that never raises and
  extractors of typed fields, in every state a case can reach all extractions are typed, so
  neither the validation rules nor the screening can raise.
\<close>

text \<open>Both tiers extract typed fields from the documents of a set.\<close>

definition typed_services :: "'w pipeline_context \<Rightarrow> input_document set \<Rightarrow> bool" where
  "typed_services ctx D \<longleftrightarrow>
     typed_extractor (extract_fields (services ctx)) D \<and> typed_extractor (extract_fields (fallback ctx)) D"

definition typed_case :: "input_document set \<Rightarrow> kyc_state \<Rightarrow> task list \<Rightarrow> bool" where
  "typed_case D st tasks \<longleftrightarrow> (\<forall>e \<in> set (extractions st). typed_extraction e)
     \<and> (\<forall>t \<in> set (pending tasks). t_document t \<in> D) \<and> set (documents (package st)) \<subseteq> D"

lemma typed_initial: "set (documents p) \<subseteq> D \<Longrightarrow> typed_case D (initial_state c p s) start_tasks"
  by (simp add: typed_case_def initial_state_def start_tasks_def)

lemma failed_typed [simp]:
  "typed_extraction \<lparr>er_document_id = i, er_doc_type = t, er_fields = fs, field_confidence = c,
     extraction_error = Some x\<rparr>"
  by (simp add: typed_extraction_def)

lemma extract_typed:
  assumes "typed_services ctx D" "t_document t \<in> D" "extract_document ctx t w = (Inr (u, g), w')"
  shows "\<forall>e \<in> set (u_extractions u). typed_extraction e"
proof -
  note tiers = assms(1) [unfolded typed_services_def]
  have ok: "typed_extraction e" if "run_resilient EXTRACTOR (extract_node t)
      (extract_fields (services ctx) (t_document t) (t_doc_type t))
      (Some (extract_fields (fallback ctx) (t_document t) (t_doc_type t))) (retries ctx) w0 = (Inr (e, errs), w1)"
    for e errs w0 w1
    using that by (rule run_resilient_result)
      (use typed_extractor.typed [OF tiers [THEN conjunct1] assms(2)]
        typed_extractor.typed [OF tiers [THEN conjunct2] assms(2)] in auto)
  show ?thesis
    using assms(3) by (auto simp: extract_document_def Let_def act_simps dest: ok)
qed

lemma docs_by_id_mem: "dict_get (docs_by_id p) i = Some d \<Longrightarrow> d \<in> set (documents p)"
  using docs_by_id_key by blast

lemma orchestrator_documents:
  assumes "make_tasks c (docs_by_id p) ks = Inr ts" "t \<in> set ts"
  shows "t_document t \<in> set (documents p)"
  using make_tasks_tasks [OF assms(1)] assms(2)
  by (induction rule: list_all2_induct) (auto dest: docs_by_id_mem)

lemma typed_node:
  assumes "typed_case D st [TNode n]" and "run_task ctx rv st (TNode n) w = (Inr (Inr (u, g)), w')"
  shows "typed_case D (apply_update u st) (next_tasks [(TNode n, Inr (u, g))])"
proof -
  consider "n = Router" | "n = Orchestrator" | "n \<notin> {Router, Orchestrator}" by blast
  then show ?thesis
  proof cases
    case 1
    then obtain c where "router ctx st w = (Inr c, w')" "c = (u, g)"
      using assms(2) by (auto simp: act_simps)
    then show ?thesis
      using assms(1) 1 by (cases rule: router_cmd) (auto simp: typed_case_def no_update_def)
  next
    case 2
    then obtain c where c: "orchestrator ctx st w = (Inr c, w')" "c = (u, g)"
      using assms(2) by (auto simp: act_simps)
    from c(1) show ?thesis
    proof (cases rule: orchestrator_cmd)
      case (1 cs f)
      then show ?thesis using assms(1) c(2) by (auto simp: typed_case_def no_update_def)
    next
      case (2 cs tasks)
      have "\<forall>t \<in> set tasks. t_document t \<in> D"
        using orchestrator_documents [OF 2(3)] assms(1) by (auto simp: typed_case_def)
      then show ?thesis using assms(1) c(2) 2(4) by (auto simp: typed_case_def no_update_def)
    qed
  next
    case 3
    have "u_extractions u = []" "pending (next_tasks [(TNode n, Inr (u, g))]) = []"
      using other_cmd [OF assms(2) 3] by simp_all
    then show ?thesis using assms(1) by (simp add: typed_case_def)
  qed
qed

lemma extractions_apply_updates:
  "set (extractions (apply_updates us st)) = set (extractions st) \<union> (\<Union>u \<in> set us. set (u_extractions u))"
  "package (apply_updates us st) = package st"
  by (induction us arbitrary: st) auto

lemma typed_step:
  assumes "stage ctx st tasks" "typed_services ctx D" "typed_case D st tasks"
    and "gstep ctx rv (st, tasks, w) (st', tasks', w')"
  shows "typed_case D st' tasks'"
  using assms(1)
proof cases
  case (at_workers ts)
  obtain us where us: "st' = apply_updates us st" "tasks' = [TNode Validator]"
    "\<forall>u \<in> set us. worker_update u \<and> (\<exists>t \<in> set ts. \<exists>w1 w2. extract_document ctx t w1 = (Inr (u, Static), w2))"
    using gstep_workers [OF assms(4) [unfolded at_workers(1)]] by metis
  have "\<forall>e \<in> set (u_extractions u). typed_extraction e" if u: "u \<in> set us" for u
  proof -
    obtain t w1 w2 where t: "t \<in> set ts" "extract_document ctx t w1 = (Inr (u, Static), w2)"
      using bspec [OF us(3) u] by blast
    have "t_document t \<in> D" using assms(3) t(1) at_workers(1) by (simp add: typed_case_def)
    then show ?thesis using extract_typed [OF assms(2) _ t(2)] by blast
  qed
  then show ?thesis using assms(3) us(1,2) by (auto simp: typed_case_def extractions_apply_updates)
next
  case (at_end d)
  then show ?thesis using assms(4) by (auto elim: gstepE)
qed (use assms(3,4) in \<open>auto elim!: gstep_node intro: typed_node simp del: run_task.simps\<close>)

lemma typed_not_ill_formed: "typed_case D st tasks \<Longrightarrow> \<not> ill_formed ctx st x"
  using rules_typed [of "extractions st" "applicant (package st)" "today ctx" "match_thresholds_of (cx_settings ctx)"]
    names_typed [of st]
  by (auto simp: typed_case_def ill_formed_def)

section \<open>Contexts without crashes\<close>

locale sound_context = lawful_context ctx for ctx :: "'w pipeline_context" +
  fixes D :: "input_document set"
  assumes quiet: "safe_audit ctx" and typed_tiers: "typed_services ctx D"
begin

text \<open>What holds of every case at every moment.\<close>

definition sound_case :: "kyc_state \<Rightarrow> task list \<Rightarrow> bool" where
  "sound_case st tasks \<longleftrightarrow> stage ctx st tasks \<and> linked st tasks \<and> typed_case D st tasks"

lemma sound_initial:
  "set (documents p) \<subseteq> D \<Longrightarrow> s \<in> {None, Some RECEIVED} \<Longrightarrow> sound_case (initial_state c p s) start_tasks"
  by (simp add: sound_case_def stage_initial linked_initial typed_initial)

lemma sound_step:
  "sound_case st tasks \<Longrightarrow> gstep ctx rv (st, tasks, w) (st', tasks', w') \<Longrightarrow> sound_case st' tasks'"
  unfolding sound_case_def using stage_step linked_step typed_step [OF _ typed_tiers] by metis

lemma sound_no_raise: "sound_case st tasks \<Longrightarrow> t \<in> set tasks \<Longrightarrow> run_task ctx rv st t w \<noteq> (Inl x, w')"
  using stage_raises [OF _ _ quiet] typed_not_ill_formed unfolding sound_case_def by metis

lemma sound_tasks_return:
  assumes "sound_case st tasks" "set order \<subseteq> set tasks"
  shows "\<exists>rs w'. run_tasks ctx rv st order w = (Inr rs, w')"
proof -
  obtain r w' where r: "run_tasks ctx rv st order w = (r, w')" by (metis surj_pair)
  show ?thesis
  proof (cases r)
    case (Inl x)
    obtain t w1 w2 where "t \<in> set order" "run_task ctx rv st t w1 = (Inl x, w2)"
      using run_tasks_raises [OF r [unfolded Inl]] by blast
    then show ?thesis using sound_no_raise [OF assms(1)] assms(2) by blast
  qed (use r in blast)
qed

lemma sound_run:
  assumes "sound_case st tasks" "run ctx rv n st tasks w = (out, w')" "rank tasks < n"
  shows "(\<exists>s. out = Finished s) \<or> (\<exists>s p. out = Interrupted s p)"
proof (cases out)
  case (Crashed s x)
  have c: "stage ctx st tasks" "linked st tasks" using assms(1) by (simp_all add: sound_case_def)
  have reach: "\<exists>tasks' w''. reaches ctx rv (st, tasks, w) (s, tasks', w'')"
    using run_reaches [OF assms(2)] Crashed by auto
  then obtain tasks' where "typed_case D s tasks'"
  proof (elim exE)
    fix tasks' w'' assume "reaches ctx rv (st, tasks, w) (s, tasks', w'')"
    then have "sound_case s tasks'" by (rule reaches_invariant) (use assms(1) sound_step in blast)+
    then show thesis using that [of tasks'] unfolding sound_case_def by blast
  qed
  then show ?thesis
    using run_crashed [OF c quiet assms(2) [unfolded Crashed]] typed_not_ill_formed by blast
next
  case (Out_of_steps s)
  then show ?thesis using run_in_steps [OF _ assms(3,2)] assms(1) by (simp add: sound_case_def)
qed simp_all

end

section \<open>Every built context\<close>

definition plain_documents :: "input_document set" where
  "plain_documents = {d. no_glitch (text_content d)}"

definition honest_models :: "'w init_model \<Rightarrow> bool" where
  "honest_models init \<longleftrightarrow> (\<forall>name provider temp url key m. init name provider temp url key = Inr m \<longrightarrow> schema_honest m)"

lemma chat_model_honest: "honest_models init \<Longrightarrow> chat_model init spec temp url key = Inr m \<Longrightarrow> schema_honest m"
  unfolding honest_models_def chat_model_def by (auto split: if_splits)

lemma fake_extract_typed: "typed_extractor fake_extract plain_documents"
  unfolding plain_documents_def by (rule fake_typed.typed_extractor_axioms)

lemma live_extract_typed_extractor: "schema_honest m \<Longrightarrow> typed_extractor (live_extract m sm) D"
  by (intro typed_extractor.intro live_extractor.extractor_service_axioms typed_extractor_axioms.intro)
    (rule live_extract_typed)

lemma model_for_honest: "honest_models init \<Longrightarrow> model_for init spec step s = Inr m \<Longrightarrow> schema_honest m"
  by (cases "creds spec s") (simp add: model_for_def chat_model_honest)

lemma extractor_for_typed:
  assumes "honest_models init" "extractor_for init spec s = Inr x"
  shows "typed_extractor x plain_documents"
proof (cases "is_fake spec")
  case True
  then show ?thesis using assms(2) fake_extract_typed by (simp add: extractor_for_def)
next
  case False
  then obtain m where m: "model_for init spec EXTRACTOR s = Inr m" "x = live_extract m (structured_method_of spec)"
    using assms(2) by (auto simp: extractor_for_def map_sum_Inr)
  show ?thesis
    unfolding m(2) by (rule live_extract_typed_extractor [OF model_for_honest [OF assms(1) m(1)]])
qed

lemma services_from_extractor:
  "services_from dump init rs xs vs ns s = Inr sv \<Longrightarrow> extractor_for init xs s = Inr (extract_fields sv)"
  by (auto simp: services_from_def split: sum.splits)

lemma built_sound:
  assumes "build_context dump init env s td en = Inr ctx" and "honest_models init"
  shows "sound_context ctx plain_documents"
proof (intro sound_context.intro sound_context_axioms.intro)
  show "lawful_context ctx" by (rule built_lawful [OF assms(1)])
  show "safe_audit ctx" by (rule built_safe [OF assms(1)])
  obtain sv fb where b: "build_services dump init s = Inr sv" "build_fallback_services dump init s = Inr fb"
    and ctx: "ctx = context_with env s sv fb td en" by (rule build_contextD [OF assms(1)])
  show "typed_services ctx plain_documents"
    using services_from_extractor [OF b(1) [unfolded build_services_def]]
      services_from_extractor [OF b(2) [unfolded build_fallback_services_def Let_def]]
    by (simp add: typed_services_def ctx extractor_for_typed [OF assms(2)])
qed

interpretation calm: sound_context "offline_context env s td en" plain_documents for env s td en
  by (intro sound_context.intro sound_context_axioms.intro off.lawful_context_axioms)
    (simp_all add: offline_context_def context_with_safe typed_services_def fake_extract_typed)

end
