(* ===== verification/Confidence.thy ===== *)
theory Confidence
  imports Nodes
begin

text \<open>
  The confidence formula \<open>_overall_confidence\<close> of \<open>graph/nodes.py\<close> on doubles: its range, its
  caps, and how far warnings alone can lower it.
\<close>

section \<open>Constants of the formula\<close>

lemma fl_tieI:
  assumes "0 < x" "pow2 e \<le> x" "x < pow2 (e + 1)" "- 1022 \<le> e"
    and "x * pow2 (52 - e) = of_int k - 1 / 2" "even k"
  shows "fl x = of_int k * pow2 (e - 52)"
proof -
  have "ulp_expo x = e - 52" using expo_eqI [OF assms(1-3)] assms(4) by (simp add: ulp_expo_def)
  moreover have "x / pow2 (e - 52) = x * pow2 (52 - e)"
    using pow2_add [of "e - 52" "52 - e"] by (simp add: field_simps pow2_def)
  moreover have "rhe (of_int k - 1 / 2) = k"
  proof -
    have "\<lfloor>of_int k - 1 / 2 :: rat\<rfloor> = k - 1" by (rule floor_unique) simp_all
    then show ?thesis using assms(6) by (simp add: rhe_def)
  qed
  ultimately show ?thesis using assms(1,5) by (simp add: fl_def fl_pos_def Let_def)
qed

lemma fl_1_2 [simp]: "fl (1 / 2) = 1 / 2"
  by (subst fl_evalI [where e = "- 1" and k = 4503599627370496]) (simp_all add: pow2_def)

lemma fl_04: "fl (2 / 5) = 3602879701896397 / 9007199254740992"
  by (subst fl_evalI [where e = "- 2" and k = 7205759403792794]) (simp_all add: pow2_def)

lemma fl_fl_04: "fl (fl (2 / 5)) = fl (2 / 5)"
  unfolding fl_04
  by (subst fl_evalI [where e = "- 2" and k = 7205759403792794]) (simp_all add: pow2_def)

lemma round4_fl_04: "py_round4 (fl (2 / 5)) = fl (2 / 5)"
proof -
  have "rhe (fl (2 / 5) * 10000) = 4000" by (rule rhe_evalI) (simp_all add: fl_04)
  then show ?thesis by (simp add: py_round4_def)
qed

lemma round4_1_2: "py_round4 (1 / 2) = 1 / 2"
  using rhe_of_int [of 5000] by (simp add: py_round4_def)

lemma fl_005: "fl (1 / 20) = 3602879701896397 / 72057594037927936"
  by (subst fl_evalI [where e = "- 5" and k = 7205759403792794]) (simp_all add: pow2_def)

lemma fl_09: "fl (9 / 10) = 8106479329266893 / 9007199254740992"
  by (subst fl_evalI [where e = "- 1" and k = 8106479329266893]) (simp_all add: pow2_def)

definition shave :: "nat \<Rightarrow> rat" where
  "shave n = fl (fl (5 / 100) * of_nat (min n 3))"

lemma shave_nonneg [simp]: "0 \<le> shave n"
  by (simp add: shave_def fl_nonneg)

lemma shave_mono: "m \<le> n \<Longrightarrow> shave m \<le> shave n"
  unfolding shave_def by (intro fl_mono mult_left_mono) (simp_all add: fl_nonneg min_le_iff_disj)

lemma shave_3: "shave 3 = 1351079888211149 / 9007199254740992"
proof -
  have "fl (10808639105689191 / 72057594037927936) = 1351079888211149 / 9007199254740992"
    by (subst fl_tieI [where e = "- 3" and k = 5404319552844596]) (simp_all add: pow2_def)
  then show ?thesis by (simp add: shave_def fl_005)
qed

lemma shave_le_3: "shave n \<le> shave 3"
  by (simp add: shave_def)  (intro fl_mono mult_left_mono; simp add: fl_nonneg)

lemma worst_live: "py_round4 (fl (fl (9 / 10) - shave 3)) = 3 / 4"
proof -
  have "fl (fl (9 / 10) - shave 3) = 3 / 4"
    unfolding fl_09 shave_3
    by (subst fl_evalI [where e = "- 1" and k = 6755399441055744]) (simp_all add: pow2_def)
  moreover have "py_round4 (3 / 4) = 3 / 4" using rhe_of_int [of 7500] by (simp add: py_round4_def)
  ultimately show ?thesis by metis
qed

section \<open>The formula in two parts\<close>

definition base_confidence :: "extraction_result list \<Rightarrow> rule_flag list \<Rightarrow> rat" where
  "base_confidence es grounding =
     (let vals = concat (map (\<lambda>e. map snd (field_confidence e)) (filter usable es));
          c0 = py_min vals (fl (3 / 10));
          c1 = (if grounding \<noteq> [] then min c0 (fl (4 / 10)) else c0)
      in if \<exists>e \<in> set es. extraction_error e \<noteq> None then min c1 (1 / 2) else c1)"

definition warnings :: "rule_flag list \<Rightarrow> nat" where
  "warnings fs = length (filter (\<lambda>f. severity f = WARNING) fs)"

definition final_confidence :: "rat \<Rightarrow> nat \<Rightarrow> rat" where
  "final_confidence c n = max 0 (min 1 (py_round4 (fl (c - shave n))))"

lemma overall_confidence_eq:
  "overall_confidence_of es g fs = final_confidence (base_confidence es g) (warnings fs)"
  unfolding overall_confidence_of_def final_confidence_def base_confidence_def warnings_def shave_def Let_def by (rule refl)

lemma overall_bounds: "0 \<le> overall_confidence_of es g fs" "overall_confidence_of es g fs \<le> 1"
  by (simp_all add: overall_confidence_eq final_confidence_def)

lemma final_mono: "c \<le> d \<Longrightarrow> n \<le> m \<Longrightarrow> final_confidence c m \<le> final_confidence d n"
  unfolding final_confidence_def
  by (intro max.mono min.mono order_refl py_round4_mono fl_mono diff_mono shave_mono)

lemma final_cap:
  assumes "c \<le> d" "fl d = d" "py_round4 d = d" "0 \<le> d"
  shows "final_confidence c n \<le> d"
proof -
  have "fl (c - shave n) \<le> fl d" using assms(1) by (intro fl_mono) (simp add: add_increasing2 diff_le_eq)
  then have "py_round4 (fl (c - shave n)) \<le> d" using py_round4_mono assms(2,3) by metis
  then show ?thesis using assms(4) by (simp add: final_confidence_def min_le_iff_disj)
qed

text \<open>A grounding discrepancy caps the confidence at 0.4, an unreadable document at 0.5.\<close>

lemma grounding_cap:
  assumes "g \<noteq> []"
  shows "overall_confidence_of es g fs \<le> fl (4 / 10)"
  unfolding overall_confidence_eq using assms fl_fl_04 round4_fl_04
  by (intro final_cap) (auto simp: base_confidence_def Let_def fl_nonneg min_le_iff_disj)

lemma unreadable_cap:
  assumes "e \<in> set es" "extraction_error e \<noteq> None"
  shows "overall_confidence_of es g fs \<le> 1 / 2"
proof -
  have "\<exists>e \<in> set es. extraction_error e \<noteq> None" using assms by blast
  then show ?thesis unfolding overall_confidence_eq using round4_1_2
    by (intro final_cap) (simp_all add: base_confidence_def Let_def)
qed

lemma warnings_lower: "warnings fs \<le> warnings fs' \<Longrightarrow> overall_confidence_of es g fs' \<le> overall_confidence_of es g fs"
  unfolding overall_confidence_eq by (rule final_mono) simp_all

text \<open>Warnings alone take at most 0.15 off, so high field confidences stay above the threshold.\<close>

lemma py_min_ge: "(\<forall>x \<in> set xs. c \<le> x) \<Longrightarrow> xs \<noteq> [] \<Longrightarrow> c \<le> py_min xs d"
proof (cases xs)
  case (Cons x ys)
  have "(\<forall>y \<in> set ys. c \<le> y) \<Longrightarrow> c \<le> x \<Longrightarrow> c \<le> fold min ys x" for x
    by (induction ys arbitrary: x) auto
  then show "\<forall>x \<in> set xs. c \<le> x \<Longrightarrow> ?thesis" using Cons by simp
qed simp

lemma warnings_alone:
  assumes "\<forall>e \<in> set es. extraction_error e = None"
    and "\<forall>e \<in> set es. \<forall>c \<in> snd ` set (field_confidence e). fl (9 / 10) \<le> c"
    and "\<exists>e \<in> set es. field_confidence e \<noteq> []"
  shows "3 / 4 \<le> overall_confidence_of es [] fs"
proof -
  let ?vals = "concat (map (\<lambda>e. map snd (field_confidence e)) (filter usable es))"
  have "fl (9 / 10) \<le> py_min ?vals (fl (3 / 10))"
    using assms by (intro py_min_ge) (auto simp: usable_def)
  then have "fl (9 / 10) \<le> base_confidence es []" using assms(1) by (auto simp: base_confidence_def Let_def)
  then have "fl (fl (9 / 10) - shave 3) \<le> fl (base_confidence es [] - shave (warnings fs))"
    by (intro fl_mono diff_mono shave_le_3)
  then have "3 / 4 \<le> py_round4 (fl (base_confidence es [] - shave (warnings fs)))"
    using py_round4_mono worst_live by metis
  then show ?thesis by (simp add: overall_confidence_eq final_confidence_def)
qed

section \<open>Properties\<close>

text \<open>C24: what the evaluator or an unreadable document casts doubt on goes to a human. With a
  confidence threshold above one half, a grounding discrepancy or one extraction in error fires
  \<open>LOW_CONFIDENCE\<close>, however high the confidence of the fields is.\<close>

theorem doubt_fires_low_confidence:
  assumes "g \<noteq> [] \<or> (\<exists>e \<in> set es. extraction_error e \<noteq> None)" "1 / 2 < confidence_threshold th"
  shows "LOW_CONFIDENCE \<in> rule_id ` set (evaluate_risk_rules ct v (overall_confidence_of es g fs) vfs sh ph uh un th)"
proof -
  have "fl (4 / 10) \<le> 1 / 2" using fl_mono [of "4 / 10" "1 / 2"] by simp
  then have "overall_confidence_of es g fs \<le> 1 / 2"
    using assms(1) grounding_cap [of g es fs] unreadable_cap [of _ es g fs] by fastforce
  then show ?thesis using assms(2) by (simp add: triggered_ids)
qed

lemma doubt_fires_low_confidence_witness:
  "LOW_CONFIDENCE \<in> rule_id ` set (evaluate_risk_rules INDIVIDUAL (dec_of_nat 0)
     (overall_confidence_of [] [critical_flag EVALUATOR_DISCREPANCY []] []) [] [] [] [] [] default_risk_thresholds)"
  by (rule doubt_fires_low_confidence) (simp_all add: default_risk_thresholds_def)

text \<open>C25: warnings alone never escalate. When every document was read, no discrepancy was found and
  each field has a confidence of at least 0.9, the overall confidence stays at 0.75 or above, however
  many warnings - missing fields among them - there are.\<close>

theorem warnings_never_escalate:
  assumes "\<forall>e \<in> set es. extraction_error e = None"
    and "\<forall>e \<in> set es. \<forall>c \<in> snd ` set (field_confidence e). fl (9 / 10) \<le> c"
    and "\<exists>e \<in> set es. field_confidence e \<noteq> []"
  shows "LOW_CONFIDENCE \<notin> rule_id ` set (evaluate_risk_rules ct v (overall_confidence_of es [] fs) vfs sh ph uh un
    default_risk_thresholds)"
  using warnings_alone [OF assms] by (simp add: triggered_ids default_risk_thresholds_def not_less)

lemma warnings_never_escalate_witness:
  "LOW_CONFIDENCE \<notin> rule_id ` set (evaluate_risk_rules INDIVIDUAL (dec_of_nat 0)
     (overall_confidence_of [\<lparr>er_document_id = ''d'', er_doc_type = ID_DOCUMENT, er_fields = [(''full_name'', JStr ''A'')],
        field_confidence = [(''full_name'', fl (9 / 10))], extraction_error = None\<rparr>] []
        (replicate 4 \<lparr>rule_id = EXTRACTION_INCOMPLETE, severity = WARNING, details = []\<rparr>))
     [] [] [] [] [] default_risk_thresholds)"
  by (rule warnings_never_escalate) simp_all

end
