(* ===== verification/Guarantees.thy ===== *)
theory Guarantees
  imports Contracts Confidence Registries
begin

text \<open>
  Consequences of the invariants: what an automatic approval means for the state, what the
  hits and the availability of the screening mean for the single names, and what both mean for
  the clients of \<open>tools/registries.py\<close>.
\<close>

section \<open>Screening\<close>

lemma resilient_search:
  assumes "run_resilient step node p None mr w = (Inr (found, errs), w')"
  shows "\<exists>w1 w2. p w1 = (Inr found, w2)"
  using assms by (rule run_resilient_result) auto

text \<open>An available registry has answered for every name, and every answer is among the hits.\<close>

definition answered :: "'w registry_service \<Rightarrow> jval \<Rightarrow> registry_hit list \<Rightarrow> bool" where
  "answered client name found \<longleftrightarrow> (\<exists>w w'. rs_search client name w = (Inr found, w'))"

lemma screen_answers:
  assumes "screen ctx client names cid hits w = (Inr (hs, True), w')"
  shows "\<exists>answers. list_all2 (answered client) names answers \<and> hs = hits @ concat answers"
  using assms
proof (induction names arbitrary: hits w)
  case (Cons n names)
  obtain found errs w1 w2 where r: "run_resilient RISK (''risk:'' @ registry_value (rs_registry client))
      (rs_search client n) None (retries ctx) w = (Inr (found, errs), w1)"
    "screen ctx client names cid (hits @ found) w2 = (Inr (hs, True), w')"
    using Cons.prems by (auto simp: act_simps)
  obtain answers where "list_all2 (answered client) names answers" "hs = (hits @ found) @ concat answers"
    using Cons.IH [OF r(2)] by blast
  moreover have "answered client n found" using resilient_search [OF r(1)] by (auto simp: answered_def)
  ultimately show ?case by (intro exI [of _ "found # answers"]) simp
qed (simp add: act_simps)

lemma screen_no_hits:
  assumes "screen ctx client names cid [] w = (Inr ([], True), w')" and "n \<in> set names"
  shows "answered client n []"
proof -
  obtain answers where a: "list_all2 (answered client) names answers" "[] = concat answers"
    using screen_answers [OF assms(1)] by auto
  then obtain found where "answered client n found" "found \<in> set answers"
    using assms(2) by (metis in_set_conv_nth list_all2_conv_all_nth)
  then show ?thesis using a(2) by (metis concat_eq_Nil_conv)
qed

text \<open>A registry that never answers is reported as soon as there is a name to screen.\<close>

lemma screen_down:
  assumes "\<And>n w. \<exists>e w'. rs_search client n w = (Inl e, w')" and "names \<noteq> []"
    and "screen ctx client names cid hits w = (Inr r, w')"
  shows "r = (hits, False)"
proof -
  obtain n ns where names: "names = n # ns" using assms(2) by (cases names) auto
  obtain errs w1 where "run_resilient RISK (''risk:'' @ registry_value (rs_registry client))
      (rs_search client n) None (retries ctx) w = (Inl (StepExhausted RISK errs), w1)"
    using run_resilient_always_fails [of "rs_search client n"] assms(1) by metis
  then show ?thesis using assms(3) names by (auto simp: act_simps)
qed

text \<open>The applicant is always among the names, whatever was extracted.\<close>

lemma add_names_persons: "add_names e (p, c, ow) = Inr (p', c', ow') \<Longrightarrow> set p \<subseteq> set p' \<and> set c \<subseteq> set c'"
  by (auto simp: add_names_def Let_def split: if_splits sum.splits option.splits jval.splits)

lemma add_all_names_persons:
  "add_all_names es (p, c, ow) = Inr (p', c', ow') \<Longrightarrow> set p \<subseteq> set p' \<and> set c \<subseteq> set c'"
proof (induction es arbitrary: p c ow)
  case (Cons e es)
  then obtain p1 c1 ow1 where "add_names e (p, c, ow) = Inr (p1, c1, ow1)"
    "add_all_names es (p1, c1, ow1) = Inr (p', c', ow')"
    by (auto split: sum.splits)
  then show ?case using Cons.IH add_names_persons by blast
qed simp

lemma screening_applicant:
  assumes "screening_names st = Inr (persons, companies, owners)"
  shows "full_name (applicant (package st)) \<in> set persons"
  using assms add_all_names_persons by (fastforce simp: screening_names_def Let_def)

text \<open>So is every name of a usable identity document or proof of address.\<close>

lemma add_names_full_name:
  assumes "add_names e (p, c, ow) = Inr (p', c', ow')" "extraction_error e = None"
    and "er_doc_type e \<in> set person_doc_types" "dict_get (er_fields e) ''full_name'' = Some (JStr n)"
  shows "n \<in> set p'"
  using assms by (auto simp: add_names_def Let_def split: sum.splits)

lemma add_all_names_full_name:
  assumes "add_all_names es (p, c, ow) = Inr (p', c', ow')" "e \<in> set es" "extraction_error e = None"
    and "er_doc_type e \<in> set person_doc_types" "dict_get (er_fields e) ''full_name'' = Some (JStr n)"
  shows "n \<in> set p'"
  using assms(1,2)
proof (induction es arbitrary: p c ow)
  case (Cons e' es)
  then obtain p1 c1 ow1 where s: "add_names e' (p, c, ow) = Inr (p1, c1, ow1)"
    "add_all_names es (p1, c1, ow1) = Inr (p', c', ow')"
    by (auto split: sum.splits)
  show ?case
  proof (cases "e' = e")
    case True
    then have "n \<in> set p1" using add_names_full_name s(1) assms(3-5) by blast
    then show ?thesis using add_all_names_persons [OF s(2)] by blast
  next
    case False
    then show ?thesis using Cons s(2) by auto
  qed
qed simp

section \<open>What an approval means\<close>

lemma approve_complete:
  assumes "ready ctx st" "outcome (gate_decision st) = APPROVE"
  shows "complete ctx st" "\<not> is_degraded st" "state_triggers st = []"
    "\<forall>f \<in> set (validation_flags st). rule_id f \<noteq> DOC_EXPIRED"
  using assms by (auto simp: gate_decision_def decide_gate_approve_iff ready_def)

text \<open>The facts an approved case guarantees, as one predicate on its final state.\<close>

definition clean :: "'w pipeline_context \<Rightarrow> kyc_state \<Rightarrow> bool" where
  "clean ctx st \<longleftrightarrow>
     \<not> is_degraded st
     \<and> (\<exists>cs. classified_documents st = Some cs \<and> unknown_docs cs = []
          \<and> set (required_docs_by_customer (customer_type (package st))) \<subseteq> cd_doc_type ` set cs
          \<and> length (extractions st) = length cs)
     \<and> (\<forall>e \<in> set (extractions st). extraction_error e = None)
     \<and> (\<exists>v r. validation st = Some v \<and> risk st = Some r
          \<and> (\<forall>f \<in> set (rule_flags v). rule_id f \<noteq> DOC_EXPIRED
               \<and> (rule_id f \<in> set critical_mismatch_sources \<longrightarrow> severity f = WARNING))
          \<and> set_confidence_threshold (cx_settings ctx) \<le> overall_confidence v
          \<and> triggered_rules r = [] \<and> sanctions_hits r = [] \<and> pep_hits r = [] \<and> level r = LOW)
     \<and> dec_value (expected_monthly_volume_eur (applicant (package st)))
         \<le> dec_value (volume_limit (risk_thresholds_of (cx_settings ctx)) (customer_type (package st)))"

lemma assessment_of_sel [simp]:
  "triggered_rules (assessment_of t sc n) = t" "level (assessment_of t sc n) = Risk.risk_level t"
  by (simp_all add: assessment_of_def split: prod.split)

lemma approve_clean:
  assumes "ready ctx st" "outcome (gate_decision st) = APPROVE"
  shows "clean ctx st"
proof -
  note facts = approve_complete [OF assms]
  obtain cs where cs: "classified_documents st = Some cs" "package_check (package st) cs = None" "unknown_docs cs = []"
    using facts(1,2) by (auto simp: complete_def classified_ok_def)
  have known: "known_docs cs = cs" using cs(3) by (auto simp: known_docs_def unknown_docs_def filter_empty_conv intro: filter_True)
  then have req: "set (required_docs_by_customer (customer_type (package st))) \<subseteq> cd_doc_type ` set cs"
    using cs(2) by (simp add: package_check_def completeness_None_iff)
  have ext: "length (extractions st) = length cs" "\<forall>e \<in> set (extractions st). extraction_error e = None"
    using facts(1,2) cs(1) known by (auto simp: complete_def extracted_ok_def known_count_def)
  obtain v where v: "validation st = Some v" using facts(1) by (auto simp: complete_def validated_def)
  obtain w shits phits ubo un w' nar where sc: "screen_all ctx st w = (Inr (shits, phits, ubo, un), w')"
    "risk st = Some (assessment_of (triggers_of ctx st (shits, phits, ubo, un)) (shits, phits, ubo, un) nar)"
    using facts(1) by (auto simp: complete_def screened_def)
  then have "triggers_of ctx st (shits, phits, ubo, un) = []" using facts(3) by (simp add: state_triggers_def)
  then have t: "shits = []" "phits = []" "ubo = []" "un = []"
    "dec_value (expected_monthly_volume_eur (applicant (package st)))
       \<le> dec_value (volume_limit (risk_thresholds_of (cx_settings ctx)) (customer_type (package st)))"
    "set_confidence_threshold (cx_settings ctx) \<le> state_confidence st"
    "critical_mismatches (validation_flags st) = []"
    by (auto simp: triggers_of_def triggered_Nil_iff risk_thresholds_of_def)
  have "\<forall>f \<in> set (rule_flags v). rule_id f \<noteq> DOC_EXPIRED
      \<and> (rule_id f \<in> set critical_mismatch_sources \<longrightarrow> severity f = WARNING)"
    using facts(4) t(7) v by (auto simp: critical_mismatches_Nil_iff validation_flags_def) (metis severity.exhaust)
  moreover have "set_confidence_threshold (cx_settings ctx) \<le> overall_confidence v"
    using t(6) v by (simp add: state_confidence_def)
  moreover have "triggers_of ctx st ([], [], [], []) = []"
    using \<open>triggers_of ctx st (shits, phits, ubo, un) = []\<close> t by simp
  then have "risk st = Some (assessment_of [] ([], [], [], []) nar)" using sc(2) t by simp
  ultimately show ?thesis
    unfolding clean_def using facts(2) cs req ext t(5) v
    by (simp add: assessment_of_def risk_level_Low_iff)
qed

text \<open>And every registry has answered for every name, with no hit.\<close>

lemma approve_screened:
  assumes "ready ctx st" "outcome (gate_decision st) = APPROVE"
  shows "\<exists>persons companies owners. screening_names st = Inr (persons, companies, owners)
     \<and> (\<forall>n \<in> JStr ` (set persons \<union> set companies) \<union> set owners. answered (sanctions ctx) n [])
     \<and> (\<forall>n \<in> JStr ` set persons \<union> set owners. answered (pep ctx) n [])"
proof -
  note facts = approve_complete [OF assms]
  obtain w shits phits ubo un w' nar where sc: "screen_all ctx st w = (Inr (shits, phits, ubo, un), w')"
    "risk st = Some (assessment_of (triggers_of ctx st (shits, phits, ubo, un)) (shits, phits, ubo, un) nar)"
    using facts(1) by (auto simp: complete_def screened_def)
  then have "triggers_of ctx st (shits, phits, ubo, un) = []" using facts(3) by (simp add: state_triggers_def)
  then have t: "shits = []" "phits = []" "ubo = []" "un = []"
    by (auto simp: triggers_of_def triggered_Nil_iff)
  then obtain persons companies owners w1 w2 w3 w4 w5 where s:
    "screening_names st = Inr (persons, companies, owners)"
    "screen ctx (sanctions ctx) (map JStr (persons @ companies)) (case_id st) [] w1 = (Inr ([], True), w2)"
    "screen ctx (pep ctx) (map JStr persons) (case_id st) [] w3 = (Inr ([], True), w4)"
    "ubo_screen ctx owners (case_id st) w4 = (Inr (([], True), ([], True)), w5)"
    using sc(1) by (auto simp: screen_all_def Let_def act_simps split: if_splits)
  have "\<forall>n \<in> set owners. answered (sanctions ctx) n [] \<and> answered (pep ctx) n []"
    using s(4) screen_no_hits by (fastforce simp: ubo_screen_def act_simps)
  then show ?thesis
    using s(1) screen_no_hits [OF s(2)] screen_no_hits [OF s(3)] by auto
qed

end
