(* ===== verification/Service.thy ===== *)
theory Service
  imports NoCrash Guarantees
begin

text \<open>
  \<open>api/service.py\<close>: the cases of a process. What the checkpointer keeps of a case - the values
  of the state, the pending tasks, and the interrupt of a suspended task - is durable; the map of
  running tasks belongs to the process. Background runs advance one superstep at a time and
  interleave with each other and with the requests; a review resumes its case within the request,
  as one step. The checkpointer is the documented one: it stores the input before the first
  superstep and the state after every superstep, and keeps the interrupts of a pending task.
\<close>

section \<open>Snapshots and the service\<close>

record checkpoint =
  cp_state :: kyc_state
  cp_tasks :: "task list"
  cp_interrupts :: "review_payload list"
  cp_steps :: nat

text \<open>A background task holds the package until its first checkpoint is written.\<close>

record 'w service =
  sv_cases :: "string \<rightharpoonup> checkpoint"
  sv_tasks :: "string \<rightharpoonup> kyc_package option"
  sv_world :: 'w

datatype service_error =
    CaseNotFoundError string
  | CaseNotAwaitingReviewError string
  | Unhandled exn

record case_response =
  cr_case_id :: string
  cr_status :: case_status
  cr_decision :: "decision option"
  cr_risk_level :: "risk_level option"
  cr_overall_confidence :: "rat option"
  cr_degraded :: bool
  cr_degraded_reasons :: "string list"
  cr_review_request :: "review_payload option"

definition received_response :: "string \<Rightarrow> case_response" where
  "received_response cid = \<lparr>cr_case_id = cid, cr_status = RECEIVED, cr_decision = None,
     cr_risk_level = None, cr_overall_confidence = None, cr_degraded = False,
     cr_degraded_reasons = [], cr_review_request = None\<rparr>"

definition first_of :: "'a list \<Rightarrow> 'a option" where
  "first_of xs = (case xs of [] \<Rightarrow> None | x # _ \<Rightarrow> Some x)"

definition snapshot_response :: "string \<Rightarrow> checkpoint \<Rightarrow> case_response" where
  "snapshot_response cid cp =
     (let st = cp_state cp in
      \<lparr>cr_case_id = cid,
       cr_status = (case status st of None \<Rightarrow> RECEIVED | Some x \<Rightarrow> x),
       cr_decision = decision st,
       cr_risk_level = map_option level (risk st),
       cr_overall_confidence = map_option overall_confidence (validation st),
       cr_degraded = (degraded_reasons st \<noteq> []),
       cr_degraded_reasons = degraded_reasons st,
       cr_review_request = first_of (cp_interrupts cp)\<rparr>)"

definition case_status :: "'w service \<Rightarrow> string \<Rightarrow> service_error + case_response" where
  "case_status sv cid =
     (case sv_cases sv cid of
        Some cp \<Rightarrow> Inr (snapshot_response cid cp)
      | None \<Rightarrow> if cid \<in> dom (sv_tasks sv) then Inr (received_response cid)
                else Inl (CaseNotFoundError cid))"

definition case_exists :: "'w service \<Rightarrow> string \<Rightarrow> bool" where
  "case_exists sv cid \<longleftrightarrow> sv_cases sv cid \<noteq> None \<or> cid \<in> dom (sv_tasks sv)"

definition is_finished :: "'w service \<Rightarrow> string \<Rightarrow> service_error + bool" where
  "is_finished sv cid = map_sum id (\<lambda>r. cr_status r \<in> {COMPLETED, FAILED}) (case_status sv cid)"

definition submit :: "string \<Rightarrow> kyc_package \<Rightarrow> 'w service \<Rightarrow> 'w service" where
  "submit cid p sv = sv\<lparr>sv_tasks := (sv_tasks sv)(cid \<mapsto> Some p)\<rparr>"

section \<open>Reviews\<close>

text \<open>
  \<open>ainvoke(Command(resume=...))\<close> on a checkpoint: ticks as in \<open>run\<close>, with each superstep stored
  when it is done. A superstep that raises, or that the limit forbids, leaves the checkpoint as it
  was before it. The review node that raises after it took the decision keeps its interrupt; that
  the checkpointer also keeps the decision it took, and offers it to the node before the next one,
  is not modelled: it needs a sink that raises, and the wired ones do not.
\<close>

datatype run_end = Done | Raised exn | Tripped

fun advance ::
  "'w pipeline_context \<Rightarrow> jval list \<Rightarrow> nat \<Rightarrow> checkpoint \<Rightarrow> 'w \<Rightarrow> run_end \<times> checkpoint \<times> 'w" where
  "advance ctx rv 0 cp w = (Tripped, cp, w)"
| "advance ctx rv (Suc n) cp w =
     (if cp_tasks cp = [] then (Done, cp, w)
      else case run_tasks ctx rv (cp_state cp) (cp_tasks cp) w of
        (Inl e, w') \<Rightarrow> (Raised e, cp, w')
      | (Inr rs, w') \<Rightarrow>
          if interrupts rs \<noteq> [] then (Done, cp\<lparr>cp_interrupts := interrupts rs\<rparr>, w')
          else advance ctx rv n (cp\<lparr>cp_state := apply_updates (updates rs) (cp_state cp),
                 cp_tasks := next_tasks rs, cp_interrupts := [], cp_steps := cp_steps cp + 1\<rparr>) w')"

definition recursion_error :: exn where
  "recursion_error = Exn ''GraphRecursionError'' ''Recursion limit reached''"

definition put_case :: "string \<Rightarrow> checkpoint \<Rightarrow> 'w service \<Rightarrow> 'w service" where
  "put_case cid cp sv = sv\<lparr>sv_cases := (sv_cases sv)(cid \<mapsto> cp)\<rparr>"

definition review ::
  "'w pipeline_context \<Rightarrow> string \<Rightarrow> human_decision \<Rightarrow> 'w service
    \<Rightarrow> (service_error + case_response) \<times> 'w service" where
  "review ctx cid h sv =
     (case sv_cases sv cid of
        None \<Rightarrow> (Inl (CaseNotFoundError cid), sv)
      | Some cp \<Rightarrow>
          if cp_interrupts cp = [] then (Inl (CaseNotAwaitingReviewError cid), sv)
          else (case advance ctx [dump_human_decision h] (limit_of ctx + 2) cp (sv_world sv) of (r, cp', w') \<Rightarrow>
            let sv' = put_case cid cp' (sv\<lparr>sv_world := w'\<rparr>)
            in (case r of
                  Done \<Rightarrow> (case_status sv' cid, sv')
                | Raised e \<Rightarrow> (Inl (Unhandled e), sv')
                | Tripped \<Rightarrow> (Inl (Unhandled recursion_error), sv'))))"

section \<open>Steps of the process\<close>

definition task_done :: "string \<Rightarrow> 'w service \<Rightarrow> 'w service" where
  "task_done cid sv = sv\<lparr>sv_tasks := (sv_tasks sv)(cid := None)\<rparr>"

definition first_checkpoint :: "string \<Rightarrow> kyc_package \<Rightarrow> checkpoint" where
  "first_checkpoint cid p = \<lparr>cp_state = initial_state cid p (Some RECEIVED), cp_tasks = start_tasks,
     cp_interrupts = [], cp_steps = 0\<rparr>"

definition fresh :: "'w service \<Rightarrow> string \<Rightarrow> bool" where
  "fresh sv cid \<longleftrightarrow> sv_cases sv cid = None \<and> sv_tasks sv cid = None"

text \<open>
  \<open>_run\<close> as steps, with as many supersteps as the limit has ticks: the first checkpoint; a superstep within the limit; the end of the graph; an
  interrupt; an exception, logged and dropped; the recursion limit, logged and dropped. The
  world may change between the steps.
\<close>

inductive service_step :: "'w pipeline_context \<Rightarrow> 'w service \<Rightarrow> 'w service \<Rightarrow> bool" for ctx where
  step_submit: "fresh sv cid \<Longrightarrow> service_step ctx sv (submit cid p sv)"
| step_start: "sv_tasks sv cid = Some (Some p) \<Longrightarrow>
    service_step ctx sv (put_case cid (first_checkpoint cid p) (sv\<lparr>sv_tasks := (sv_tasks sv)(cid \<mapsto> None)\<rparr>))"
| step_lost: "sv_tasks sv cid = Some (Some p) \<Longrightarrow> service_step ctx sv (task_done cid sv)"
| step_super: "sv_tasks sv cid = Some None \<Longrightarrow> sv_cases sv cid = Some cp \<Longrightarrow>
    cp_steps cp < limit_of ctx \<Longrightarrow>
    gstep ctx [] (cp_state cp, cp_tasks cp, sv_world sv) (st', tasks', w') \<Longrightarrow>
    service_step ctx sv (put_case cid (cp\<lparr>cp_state := st', cp_tasks := tasks', cp_interrupts := [],
        cp_steps := cp_steps cp + 1\<rparr>) (sv\<lparr>sv_world := w'\<rparr>))"
| step_end: "sv_tasks sv cid = Some None \<Longrightarrow> sv_cases sv cid = Some cp \<Longrightarrow> cp_tasks cp = [] \<Longrightarrow>
    service_step ctx sv (task_done cid sv)"
| step_interrupt: "sv_tasks sv cid = Some None \<Longrightarrow> sv_cases sv cid = Some cp \<Longrightarrow>
    run_tasks ctx [] (cp_state cp) (cp_tasks cp) (sv_world sv) = (Inr rs, w') \<Longrightarrow> interrupts rs \<noteq> [] \<Longrightarrow>
    service_step ctx sv (task_done cid (put_case cid (cp\<lparr>cp_interrupts := interrupts rs\<rparr>) (sv\<lparr>sv_world := w'\<rparr>)))"
| step_crash: "sv_tasks sv cid = Some None \<Longrightarrow> sv_cases sv cid = Some cp \<Longrightarrow>
    mset order = mset (cp_tasks cp) \<Longrightarrow>
    run_tasks ctx [] (cp_state cp) order (sv_world sv) = (Inl e, w') \<Longrightarrow>
    service_step ctx sv (task_done cid (sv\<lparr>sv_world := w'\<rparr>))"
| step_limit: "sv_tasks sv cid = Some None \<Longrightarrow> sv_cases sv cid = Some cp \<Longrightarrow>
    cp_steps cp = limit_of ctx \<Longrightarrow> service_step ctx sv (task_done cid sv)"
| step_review: "service_step ctx sv (snd (review ctx cid h sv))"
| step_world: "service_step ctx sv (sv\<lparr>sv_world := w'\<rparr>)"

definition empty_service :: "'w \<Rightarrow> 'w service" where
  "empty_service w = \<lparr>sv_cases = Map.empty, sv_tasks = Map.empty, sv_world = w\<rparr>"

text \<open>A restart forgets the running tasks; what is stored stays.\<close>

definition restart :: "'w service \<Rightarrow> 'w service" where
  "restart sv = sv\<lparr>sv_tasks := Map.empty\<rparr>"

inductive served :: "'w pipeline_context \<Rightarrow> 'w service \<Rightarrow> bool" for ctx where
  served_empty: "served ctx (empty_service w)"
| served_step: "served ctx sv \<Longrightarrow> service_step ctx sv sv' \<Longrightarrow> served ctx sv'"
| served_restart: "served ctx sv \<Longrightarrow> served ctx (restart sv)"

lemmas service_defs = put_case_def task_done_def submit_def

section \<open>What holds of every stored case\<close>

text \<open>The interrupt of a stored case is the review request of its state.\<close>

definition stored :: "'w pipeline_context \<Rightarrow> string \<Rightarrow> checkpoint \<Rightarrow> bool" where
  "stored ctx cid cp \<longleftrightarrow>
     stage ctx (cp_state cp) (cp_tasks cp) \<and> case_id (cp_state cp) = cid
     \<and> (cp_interrupts cp \<noteq> [] \<longrightarrow>
          cp_tasks cp = [TNode Human_review] \<and> cp_interrupts cp = [review_payload_of (cp_state cp) None])
     \<and> cp_steps cp + rank (cp_tasks cp) \<le> 9
     \<and> (cp_tasks cp = start_tasks \<longrightarrow> status (cp_state cp) = Some RECEIVED)"

definition all_stored :: "'w pipeline_context \<Rightarrow> 'w service \<Rightarrow> bool" where
  "all_stored ctx sv \<longleftrightarrow> (\<forall>cid cp. sv_cases sv cid = Some cp \<longrightarrow> stored ctx cid cp)"

lemma gstep_case_id:
  assumes "gstep ctx rv (st, tasks, w) (st', tasks', w')"
  shows "case_id st' = case_id st \<and> package st' = package st"
proof -
  have "case_id (apply_updates us s) = case_id s \<and> package (apply_updates us s) = package s" for us s
    by (induction us arbitrary: s) simp_all
  then show ?thesis using gstepD [OF assms] by auto
qed

lemma run_package:
  assumes "run ctx rv n st tasks w = (out, w')"
  shows "package (final_state out) = package st"
proof -
  obtain tasks' w'' where "reaches ctx rv (st, tasks, w) (final_state out, tasks', w'')"
    using run_reaches [OF assms] by blast
  then show ?thesis
    by (rule reaches_invariant [where P = "\<lambda>s t. package s = package st"]) (auto dest: gstep_case_id)
qed

lemma initial_package [simp]: "package (initial_state c p s) = p"
  by (simp add: initial_state_def)

lemma stored_first: "stored ctx cid (first_checkpoint cid p)"
  using stage_initial [of "Some RECEIVED"]
  by (simp add: stored_def first_checkpoint_def) (simp add: start_tasks_def initial_state_def)

lemma stored_super:
  assumes "stored ctx cid cp" "gstep ctx rv (cp_state cp, cp_tasks cp, w) (st', tasks', w')"
  shows "stored ctx cid (cp\<lparr>cp_state := st', cp_tasks := tasks', cp_interrupts := [], cp_steps := cp_steps cp + 1\<rparr>)"
proof -
  have st: "stage ctx (cp_state cp) (cp_tasks cp)" using assms(1) by (simp add: stored_def)
  have "rank tasks' < 9" using gstep_rank [OF st assms(2)] rank_le_9 [OF st] by simp
  then have "tasks' \<noteq> start_tasks" by (auto simp: start_tasks_def)
  then show ?thesis
    using assms stage_step [OF st assms(2)] gstep_rank [OF st assms(2)] gstep_case_id [OF assms(2)]
    by (auto simp: stored_def)
qed

text \<open>An interrupt comes from the review node, with no resume value left.\<close>

lemma interrupt_review:
  assumes "stage ctx st tasks" "run_tasks ctx rv st tasks w = (Inr rs, w')" "interrupts rs \<noteq> []"
  shows "tasks = [TNode Human_review] \<and> (\<exists>p. interrupts rs = [p] \<and> review_loop st None rv = Inl p)"
proof -
  obtain p where "p \<in> set (interrupts rs)" using assms(3) by (cases "interrupts rs") auto
  then obtain t where t: "(t, Inl p) \<in> set rs" using interrupts_mem by blast
  obtain w1 w2 where tt: "t \<in> set tasks" "run_task ctx rv st t w1 = (Inr (Inl p), w2)"
    using run_tasks_results [OF assms(2) t] by blast
  then have r: "TNode Human_review \<in> set tasks" "review_loop st None rv = Inl p"
    using run_task_interrupt [OF tt(2)] by simp_all
  from assms(1) r(1) have one: "tasks = [TNode Human_review]" by cases auto
  then obtain x where "run_task ctx rv st (TNode Human_review) w = (Inr x, w')" "rs = [(TNode Human_review, x)]"
    using assms(2) by (auto simp: run_tasks_single simp del: run_tasks.simps)
  then show ?thesis using t r one by (auto simp: interrupts_def)
qed

lemma stored_interrupt:
  assumes "stored ctx cid cp" "run_tasks ctx [] (cp_state cp) (cp_tasks cp) w = (Inr rs, w')" "interrupts rs \<noteq> []"
  shows "stored ctx cid (cp\<lparr>cp_interrupts := interrupts rs\<rparr>)"
  using assms interrupt_review [OF _ assms(2,3)] by (auto simp: stored_def)

lemma all_stored_put: "all_stored ctx sv \<Longrightarrow> stored ctx cid cp \<Longrightarrow> sv_cases sv' = (sv_cases sv)(cid \<mapsto> cp) \<Longrightarrow> all_stored ctx sv'"
  by (auto simp: all_stored_def)

lemma advance_stored:
  assumes "stored ctx cid cp" "advance ctx [dump_human_decision h] n cp w = (r, cp', w')"
  shows "stored ctx cid cp'"
  using assms
proof (induction n arbitrary: cp w)
  case 0
  then show ?case by (auto simp: stored_def)
next
  case (Suc n)
  show ?case
  proof (cases "cp_tasks cp")
    case Nil
    then show ?thesis using Suc.prems by simp
  next
    case (Cons t ts)
    obtain x w1 where x: "run_tasks ctx [dump_human_decision h] (cp_state cp) (cp_tasks cp) w = (x, w1)" by fastforce
    show ?thesis
    proof (cases x)
      case (Inl e)
      then show ?thesis using Suc.prems x Cons by (simp del: run_tasks.simps)
    next
      case (Inr rs)
      have st: "stage ctx (cp_state cp) (cp_tasks cp)" using Suc.prems(1) by (simp add: stored_def)
      have none: "interrupts rs = []"
        using interrupt_review [OF st x [unfolded Inr]] by (auto simp: validate_dump)
      let ?cp = "cp\<lparr>cp_state := apply_updates (updates rs) (cp_state cp), cp_tasks := next_tasks rs,
                    cp_interrupts := [], cp_steps := cp_steps cp + 1\<rparr>"
      have g: "gstep ctx [dump_human_decision h] (cp_state cp, cp_tasks cp, w)
          (apply_updates (updates rs) (cp_state cp), next_tasks rs, w1)"
        using run_gstep [OF _ none] x Inr Cons by (simp del: run_tasks.simps)
      note next_cp = stored_super [OF Suc.prems(1) g]
      have "advance ctx [dump_human_decision h] n ?cp w1 = (r, cp', w')"
        using Suc.prems(2) x Inr none Cons by (simp del: run_tasks.simps)
      then show ?thesis using Suc.IH next_cp by blast
    qed
  qed
qed

lemma review_stored:
  assumes "all_stored ctx sv"
  shows "all_stored ctx (snd (review ctx cid h sv))"
proof (cases "sv_cases sv cid")
  case (Some cp)
  obtain r cp' w' where adv: "advance ctx [dump_human_decision h] (limit_of ctx + 2) cp (sv_world sv) = (r, cp', w')"
    by (metis prod_cases3)
  have "stored ctx cid cp'" by (rule advance_stored [OF _ adv]) (use assms Some in \<open>simp add: all_stored_def\<close>)
  then have "all_stored ctx (put_case cid cp' (sv\<lparr>sv_world := w'\<rparr>))"
    using assms by (auto simp: all_stored_def put_case_def)
  then show ?thesis using assms Some adv by (auto simp: review_def Let_def split: run_end.splits)
qed (use assms in \<open>simp add: review_def\<close>)

theorem service_step_stored:
  assumes "service_step ctx sv sv'" "all_stored ctx sv"
  shows "all_stored ctx sv'"
  using assms(1)
proof cases
  case (step_start cid p)
  then show ?thesis using assms(2) stored_first [of ctx cid p] by (auto simp: all_stored_def service_defs)
next
  case (step_super cid cp st' tasks' w')
  then have "stored ctx cid cp" using assms(2) by (simp add: all_stored_def)
  from stored_super [OF this step_super(5)] show ?thesis
    using assms(2) step_super(1) by (auto simp: all_stored_def service_defs)
next
  case (step_interrupt cid cp rs w')
  then have "stored ctx cid cp" using assms(2) by (simp add: all_stored_def)
  from stored_interrupt [OF this step_interrupt(4,5)] show ?thesis
    using assms(2) step_interrupt(1) by (auto simp: all_stored_def service_defs)
next
  case (step_review cid h)
  then show ?thesis using review_stored [OF assms(2)] by simp
qed (use assms(2) in \<open>auto simp: all_stored_def service_defs\<close>)

lemma served_stored: "served ctx sv \<Longrightarrow> all_stored ctx sv"
  by (induction rule: served.induct)
    (simp_all add: all_stored_def empty_service_def restart_def service_step_stored [unfolded all_stored_def])

lemma served_case: "served ctx sv \<Longrightarrow> sv_cases sv cid = Some cp \<Longrightarrow> stored ctx cid cp"
  using served_stored by (auto simp: all_stored_def)

text \<open>A decision the system approved is the gate's, on a state that was ready for it.\<close>

lemma stage_approved:
  assumes "stage ctx st tasks" "decision st = Some d" "outcome d = APPROVE" "decided_by d = SYSTEM"
  shows "ready ctx st \<and> outcome (gate_decision st) = APPROVE"
  using assms by cases (auto simp: early_def undecided_def by_system_def by_human_def)

lemma served_approved:
  assumes "served ctx sv" "sv_cases sv cid = Some cp"
    and "decision (cp_state cp) = Some d" "outcome d = APPROVE" "decided_by d = SYSTEM"
  shows "ready ctx (cp_state cp)" "outcome (gate_decision (cp_state cp)) = APPROVE"
  using stage_approved [OF _ assms(3-5)] served_case [OF assms(1,2)] by (auto simp: stored_def)

text \<open>A decision of a finished case the gate had escalated is a human's, with the gate's codes.\<close>

lemma stage_by_human:
  assumes "stage ctx st []" "outcome (gate_decision st) = ESCALATE"
  shows "\<exists>d. decision st = Some d \<and> decided_by d = HUMAN \<and> reviewer d \<noteq> None \<and> outcome d \<noteq> ESCALATE
    \<and> reason_codes d = reason_codes (gate_decision st)"
  using assms by (auto elim!: stage_endE simp: by_system_def by_human_def)

section \<open>Every run of the graph is a run of the service\<close>

lemma super_served:
  assumes "served ctx sv" "sv_tasks sv cid = Some None" "sv_cases sv cid = Some cp"
    and "cp_steps cp < limit_of ctx" "gstep ctx [] (cp_state cp, cp_tasks cp, sv_world sv) (st', tasks', w')"
  shows "\<exists>sv' cp'. served ctx sv' \<and> sv_tasks sv' cid = Some None \<and> sv_cases sv' cid = Some cp'
    \<and> cp_state cp' = st' \<and> cp_tasks cp' = tasks' \<and> cp_interrupts cp' = [] \<and> sv_world sv' = w'"
proof -
  let ?sv = "put_case cid (cp\<lparr>cp_state := st', cp_tasks := tasks', cp_interrupts := [],
        cp_steps := cp_steps cp + 1\<rparr>) (sv\<lparr>sv_world := w'\<rparr>)"
  have "served ctx ?sv" by (rule served_step [OF assms(1)]) (rule step_super [OF assms(2-5)])
  then show ?thesis using assms(2) by (auto simp: put_case_def)
qed

lemma started:
  "\<exists>sv cp. served ctx sv \<and> sv_tasks sv cid = Some None \<and> sv_cases sv cid = Some cp
     \<and> cp_state cp = initial_state cid p (Some RECEIVED) \<and> cp_tasks cp = start_tasks \<and> cp_interrupts cp = []
     \<and> sv_world sv = w"
proof -
  let ?s1 = "submit cid p (empty_service w)"
  have "served ctx ?s1"
    by (rule served_step [OF served_empty]) (rule step_submit, simp add: fresh_def empty_service_def)
  moreover have "sv_tasks ?s1 cid = Some (Some p)" by (simp add: submit_def)
  ultimately have "served ctx (put_case cid (first_checkpoint cid p) (?s1\<lparr>sv_tasks := (sv_tasks ?s1)(cid \<mapsto> None)\<rparr>))"
    (is "served ctx ?s2") by (intro served_step [OF _ step_start])
  then show ?thesis
    by (intro exI [of _ ?s2] exI [of _ "first_checkpoint cid p"])
      (simp add: put_case_def first_checkpoint_def submit_def empty_service_def)
qed

lemma reaches_served:
  assumes "reaches ctx [] (initial_state cid p (Some RECEIVED), start_tasks, w) (st, tasks, w')" "9 \<le> limit_of ctx"
  shows "\<exists>sv cp. served ctx sv \<and> sv_tasks sv cid = Some None \<and> sv_cases sv cid = Some cp
     \<and> cp_state cp = st \<and> cp_tasks cp = tasks \<and> cp_interrupts cp = [] \<and> sv_world sv = w'"
  using assms(1)
proof (induction "(initial_state cid p (Some RECEIVED), start_tasks, w)" "(st, tasks, w')"
    arbitrary: st tasks w' rule: reaches.induct)
  case reaches_refl
  then show ?case using started by simp
next
  case (reaches_step c' st tasks w')
  obtain s1 t1 w1 where c': "c' = (s1, t1, w1)" by (cases c')
  obtain sv cp where sv: "served ctx sv" "sv_tasks sv cid = Some None" "sv_cases sv cid = Some cp"
    "cp_state cp = s1" "cp_tasks cp = t1" "sv_world sv = w1"
    using reaches_step(2) c' by blast
  have st: "stored ctx cid cp" by (rule served_case [OF sv(1,3)])
  have g: "gstep ctx [] (cp_state cp, cp_tasks cp, sv_world sv) (st, tasks, w')"
    using reaches_step(3) c' sv by simp
  have "rank tasks < rank (cp_tasks cp)" using gstep_rank [OF _ g] st by (simp add: stored_def)
  then have "cp_steps cp < limit_of ctx" using st assms(2) by (simp add: stored_def)
  from super_served [OF sv(1-3) this g] show ?case by blast
qed

text \<open>A run that waits for the reviewer, with its interrupt stored.\<close>

lemma interrupted_served:
  assumes "served ctx sv" "sv_tasks sv cid = Some None" "sv_cases sv cid = Some cp" "cp_tasks cp = [TNode Human_review]"
  shows "\<exists>sv' cp'. served ctx sv' \<and> sv_cases sv' cid = Some cp' \<and> sv_tasks sv' cid = None
    \<and> cp_state cp' = cp_state cp \<and> cp_interrupts cp' \<noteq> []"
proof -
  let ?p = "review_payload_of (cp_state cp) None"
  have r: "run_tasks ctx [] (cp_state cp) (cp_tasks cp) (sv_world sv) = (Inr [(TNode Human_review, Inl ?p)], sv_world sv)"
    by (simp add: assms(4) act_simps human_review_def)
  have i: "interrupts [(TNode Human_review, Inl ?p)] = [?p]" by (simp add: interrupts_def)
  let ?sv = "task_done cid (put_case cid (cp\<lparr>cp_interrupts := [?p]\<rparr>) (sv\<lparr>sv_world := sv_world sv\<rparr>))"
  have "served ctx ?sv"
    by (rule served_step [OF assms(1)]) (use step_interrupt [OF assms(2,3) r] i in simp)
  then show ?thesis
    by (intro exI [of _ ?sv] exI [of _ "cp\<lparr>cp_interrupts := [?p]\<rparr>"]) (simp add: task_done_def put_case_def)
qed

section \<open>Answers about a case\<close>

text \<open>The status of a stored case by its pending task.\<close>

lemma stage_status:
  assumes "stage ctx st tasks" "tasks = start_tasks \<longrightarrow> status st = Some RECEIVED"
  shows "status st \<in> {Some RECEIVED, Some PROCESSING, Some AWAITING_HUMAN_REVIEW, Some COMPLETED}"
    and "status st = Some COMPLETED \<longleftrightarrow> tasks = []"
    and "tasks = [TNode Human_review] \<Longrightarrow> status st = Some AWAITING_HUMAN_REVIEW"
  using assms(1) by (cases; use assms(2) in \<open>auto simp: start_tasks_def\<close>)+

lemma stored_status:
  assumes "stored ctx cid cp"
  shows "status (cp_state cp) \<in> {Some RECEIVED, Some PROCESSING, Some AWAITING_HUMAN_REVIEW, Some COMPLETED}"
    and "status (cp_state cp) = Some COMPLETED \<longleftrightarrow> cp_tasks cp = []"
    and "cp_interrupts cp \<noteq> [] \<Longrightarrow> status (cp_state cp) = Some AWAITING_HUMAN_REVIEW"
proof -
  have st: "stage ctx (cp_state cp) (cp_tasks cp)"
    "cp_tasks cp = start_tasks \<longrightarrow> status (cp_state cp) = Some RECEIVED"
    using assms by (simp_all add: stored_def)
  show "status (cp_state cp) \<in> {Some RECEIVED, Some PROCESSING, Some AWAITING_HUMAN_REVIEW, Some COMPLETED}"
    "status (cp_state cp) = Some COMPLETED \<longleftrightarrow> cp_tasks cp = []"
    by (rule stage_status [OF st])+
  show "status (cp_state cp) = Some AWAITING_HUMAN_REVIEW" if "cp_interrupts cp \<noteq> []"
    using stage_status(3) [OF st] assms that by (simp add: stored_def)
qed

lemma status_response:
  assumes "served ctx sv" "case_status sv cid = Inr r"
  shows "cr_case_id r = cid \<and> cr_status r \<noteq> FAILED
    \<and> (cr_review_request r \<noteq> None \<longrightarrow> cr_status r = AWAITING_HUMAN_REVIEW)
    \<and> (cr_status r = COMPLETED \<longrightarrow> (\<exists>d. cr_decision r = Some d \<and> outcome d \<noteq> ESCALATE))"
proof (cases "sv_cases sv cid")
  case None
  then show ?thesis using assms(2) by (auto simp: case_status_def received_response_def split: if_splits)
next
  case (Some cp)
  have st: "stored ctx cid cp" by (rule served_case [OF assms(1) Some])
  have r: "r = snapshot_response cid cp" using assms(2) Some by (simp add: case_status_def)
  have fin: "\<exists>d. decision (cp_state cp) = Some d \<and> outcome d \<noteq> ESCALATE" if "cp_tasks cp = []"
  proof -
    have "stage ctx (cp_state cp) []" using st that by (simp add: stored_def)
    then show ?thesis by (cases rule: stage_endE) (auto simp: by_system_def by_human_def)
  qed
  show ?thesis
    using stored_status [OF st] fin
    by (auto simp: r snapshot_response_def Let_def first_of_def split: list.splits)
qed

text \<open>A run that is over is decided, and its status says so.\<close>

lemma finished_iff:
  assumes "served ctx sv" "sv_cases sv cid = Some cp"
  shows "is_finished sv cid = Inr (cp_tasks cp = [])"
  using stored_status [OF served_case [OF assms]] assms(2)
  by (auto simp: is_finished_def case_status_def snapshot_response_def Let_def)

section \<open>A review completes its case\<close>

lemma review_step:
  assumes "safe_audit ctx"
  shows "\<exists>w1. run_tasks ctx [dump_human_decision h] st [TNode Human_review] w =
     (Inr [(TNode Human_review, Inr (no_update\<lparr>u_decision := Some (human_decision_of st h)\<rparr>, Static))], w1)"
proof -
  obtain x w1 where x: "human_review ctx [dump_human_decision h] st w = (Inr x, w1)"
    using total_actionD [OF total_simple_nodes(5) [OF assms], where w = w] by blast
  from x have "x = Inr (no_update\<lparr>u_decision := Some (human_decision_of st h)\<rparr>, Static)"
  proof (cases rule: human_review_cmd)
    case (1 p)
    then show ?thesis by (simp add: validate_dump)
  next
    case (2 h')
    then show ?thesis by (simp add: validate_dump)
  qed
  with x have "run_task ctx [dump_human_decision h] st (TNode Human_review) w =
      (Inr (Inr (no_update\<lparr>u_decision := Some (human_decision_of st h)\<rparr>, Static)), w1)" by simp
  then show ?thesis unfolding run_tasks_single by blast
qed

lemma finalize_step:
  assumes "safe_audit ctx" "decision st = Some d"
  shows "\<exists>w1. run_tasks ctx rv st [TNode Finalize] w =
     (Inr [(TNode Finalize, Inr (no_update\<lparr>u_status := Some COMPLETED\<rparr>, Static))], w1)"
proof -
  have dn: "decision st \<noteq> None" using assms(2) by simp
  obtain x w1 where x: "finalize ctx st w = (Inr x, w1)"
    using total_actionD [OF total_simple_nodes(8) [OF assms(1) dn], of w] by blast
  then have "x = (no_update\<lparr>u_status := Some COMPLETED\<rparr>, Static)" using finalize_cmd [OF x] by simp
  then show ?thesis using x by (simp add: run_tasks_single act_simps del: run_tasks.simps)
qed

lemma review_advance:
  assumes "safe_audit ctx" "cp_tasks cp = [TNode Human_review]"
  shows "\<exists>cp' w'. advance ctx [dump_human_decision h] (Suc (Suc (Suc n))) cp w = (Done, cp', w')
    \<and> cp_tasks cp' = [] \<and> cp_interrupts cp' = []
    \<and> status (cp_state cp') = Some COMPLETED \<and> decision (cp_state cp') = Some (human_decision_of (cp_state cp) h)"
proof -
  let ?u = "no_update\<lparr>u_decision := Some (human_decision_of (cp_state cp) h)\<rparr>"
  obtain w1 where w1: "run_tasks ctx [dump_human_decision h] (cp_state cp) [TNode Human_review] w =
      (Inr [(TNode Human_review, Inr (?u, Static))], w1)" using review_step [OF assms(1)] by blast
  have d: "decision (apply_update ?u (cp_state cp)) = Some (human_decision_of (cp_state cp) h)" by simp
  obtain w2 where w2: "run_tasks ctx [dump_human_decision h] (apply_update ?u (cp_state cp)) [TNode Finalize] w1 =
      (Inr [(TNode Finalize, Inr (no_update\<lparr>u_status := Some COMPLETED\<rparr>, Static))], w2)"
    using finalize_step [OF assms(1) d] by blast
  have no: "interrupts [(t, Inr c)] = []" "updates [(t, Inr (u, g))] = [u]" for t c u g
    by (simp_all add: interrupts_def updates_def)
  show ?thesis
    by (simp add: assms(2) w1 w2 no del: run_tasks.simps)
qed

text \<open>What the review endpoint answers: not found, not awaiting, or the completed case.\<close>

definition reviewed :: "human_decision \<Rightarrow> review_payload \<Rightarrow> case_response \<Rightarrow> bool" where
  "reviewed h request r \<longleftrightarrow> cr_status r = COMPLETED \<and> cr_review_request r = None
     \<and> (\<exists>d. cr_decision r = Some d \<and> decided_by d = HUMAN
          \<and> outcome d = decision_outcome_of (h_outcome h) \<and> reviewer d = Some (h_reviewer h)
          \<and> reason_codes d = rp_reason_codes request)"

lemma review_unknown: "sv_cases sv cid = None \<Longrightarrow> review ctx cid h sv = (Inl (CaseNotFoundError cid), sv)"
  by (simp add: review_def)

lemma review_not_awaiting:
  "sv_cases sv cid = Some cp \<Longrightarrow> cp_interrupts cp = [] \<Longrightarrow>
     review ctx cid h sv = (Inl (CaseNotAwaitingReviewError cid), sv)"
  by (simp add: review_def)

lemma review_completes:
  assumes "served ctx sv" "safe_audit ctx" "0 < limit_of ctx"
    and "sv_cases sv cid = Some cp" "cp_interrupts cp \<noteq> []"
  shows "\<exists>r sv'. review ctx cid h sv = (Inr r, sv') \<and> reviewed h (hd (cp_interrupts cp)) r
     \<and> (\<exists>cp'. sv_cases sv' = (sv_cases sv)(cid \<mapsto> cp') \<and> cp_tasks cp' = [])"
proof -
  have st: "stored ctx cid cp" by (rule served_case [OF assms(1,4)])
  then have tasks: "cp_tasks cp = [TNode Human_review]" and ints: "cp_interrupts cp = [review_payload_of (cp_state cp) None]"
    using assms(5) by (simp_all add: stored_def)
  obtain n where n: "limit_of ctx + 2 = Suc (Suc (Suc n))" using assms(3) by (cases "limit_of ctx") auto
  obtain cp' w' where adv: "advance ctx [dump_human_decision h] (limit_of ctx + 2) cp (sv_world sv) = (Done, cp', w')"
    "cp_tasks cp' = []" "cp_interrupts cp' = []" "status (cp_state cp') = Some COMPLETED"
    "decision (cp_state cp') = Some (human_decision_of (cp_state cp) h)"
    using review_advance [OF assms(2) tasks] unfolding n by blast
  let ?sv = "put_case cid cp' (sv\<lparr>sv_world := w'\<rparr>)"
  have "review ctx cid h sv = (Inr (snapshot_response cid cp'), ?sv)"
    using assms(4,5) adv(1) by (simp add: review_def case_status_def put_case_def)
  moreover have "reviewed h (hd (cp_interrupts cp)) (snapshot_response cid cp')"
    using adv ints
    by (simp add: reviewed_def snapshot_response_def Let_def first_of_def human_decision_of_def review_payload_of_def)
  moreover have "sv_cases ?sv = (sv_cases sv)(cid \<mapsto> cp')" by (simp add: put_case_def)
  ultimately show ?thesis using adv(2) by blast
qed

text \<open>Malformed resume values are asked for again, with the errors of the last one.\<close>

lemma review_loop_malformed:
  "vs \<noteq> [] \<Longrightarrow> \<forall>v \<in> set vs. \<exists>n. validate_human_decision v = Inl n \<Longrightarrow>
     validate_human_decision (last vs) = Inl n \<Longrightarrow>
     review_loop st err vs = Inl (review_payload_of st (Some (resume_error_text n)))"
proof (induction vs arbitrary: err)
  case (Cons v vs)
  then obtain k where k: "validate_human_decision v = Inl k" by auto
  show ?case
  proof (cases "vs = []")
    case True
    then show ?thesis using Cons.prems k by simp
  next
    case False
    then show ?thesis using Cons.IH [OF False] Cons.prems k by simp
  qed
qed simp

lemma resume_malformed:
  assumes "vs \<noteq> []" "\<forall>v \<in> set vs. \<exists>n. validate_human_decision v = Inl n"
    and "validate_human_decision (last vs) = Inl n"
  shows "resume_with ctx vs st w = (Interrupted st (review_payload_of st (Some (resume_error_text n))), w)"
proof -
  have r: "run_tasks ctx vs st [TNode Human_review] w =
      (Inr [(TNode Human_review, Inl (review_payload_of st (Some (resume_error_text n))))], w)"
    using review_loop_malformed [OF assms(1,2,3)] by (simp add: act_simps human_review_def)
  show ?thesis by (simp add: resume_with_def r interrupts_def del: run_tasks.simps)
qed

section \<open>Cases that no step changes\<close>

text \<open>
  A stored case that is not running and not awaiting a review never changes again: nothing
  resumes it. For a finished case this is as it should be; a case left by a crash or a restart
  keeps its status for ever.
\<close>

definition at_rest :: "'w service \<Rightarrow> string \<Rightarrow> checkpoint \<Rightarrow> bool" where
  "at_rest sv cid cp \<longleftrightarrow> sv_cases sv cid = Some cp \<and> cp_interrupts cp = [] \<and> sv_tasks sv cid = None"

lemma review_other:
  assumes "sv_cases sv cid = Some cp" "cp_interrupts cp = []"
  shows "sv_cases (snd (review ctx cid' h sv)) cid = Some cp \<and> sv_tasks (snd (review ctx cid' h sv)) = sv_tasks sv"
proof (cases "cid' = cid")
  case True
  then show ?thesis using assms by (simp add: review_def)
next
  case False
  then show ?thesis
    using assms(1)
    by (auto simp: review_def put_case_def Let_def split: option.splits prod.splits run_end.splits)
qed

lemma at_rest_step:
  assumes "at_rest sv cid cp" "service_step ctx sv sv'"
  shows "at_rest sv' cid cp"
  using assms(2)
proof cases
  case (step_review cid' h)
  then show ?thesis using assms(1) review_other [of sv cid cp ctx cid' h] by (simp add: at_rest_def)
qed (use assms(1) in \<open>auto simp: at_rest_def service_defs fresh_def\<close>)

lemma at_rest_stays:
  assumes "at_rest sv cid cp" "(service_step ctx)\<^sup>*\<^sup>* sv sv'"
  shows "at_rest sv' cid cp"
  using assms(2,1) by (induction rule: rtranclp_induct) (auto intro: at_rest_step)

section \<open>Services that never lose a case\<close>

text \<open>In a sound context and without restarts, a case is running, waits for a review, or is decided.\<close>

inductive operated :: "'w pipeline_context \<Rightarrow> input_document set \<Rightarrow> 'w service \<Rightarrow> bool" for ctx D where
  operated_empty: "operated ctx D (empty_service w)"
| operated_step: "operated ctx D sv \<Longrightarrow> service_step ctx sv sv' \<Longrightarrow>
    (\<And>cid p. sv_tasks sv' cid = Some (Some p) \<Longrightarrow> set (documents p) \<subseteq> D) \<Longrightarrow> operated ctx D sv'"

lemma operated_started:
  fixes ctx :: "'w pipeline_context" and p :: kyc_package
  assumes "set (documents p) \<subseteq> D"
  shows "\<exists>sv cp. operated ctx D sv \<and> sv_cases sv cid = Some cp \<and> sv_tasks sv cid = Some None"
proof -
  let ?s1 = "submit cid p (empty_service (undefined :: 'w))"
  let ?s2 = "put_case cid (first_checkpoint cid p) (?s1\<lparr>sv_tasks := (sv_tasks ?s1)(cid \<mapsto> None)\<rparr>)"
  have s1: "operated ctx D ?s1"
    by (rule operated_step [OF operated_empty [of ctx D undefined]], rule step_submit)
      (use assms in \<open>auto simp: fresh_def empty_service_def submit_def split: if_splits\<close>)
  have s2: "service_step ctx ?s1 ?s2" by (rule step_start) (simp add: submit_def)
  have "operated ctx D ?s2"
    by (rule operated_step [OF s1 s2]) (auto simp: put_case_def submit_def empty_service_def split: if_splits)
  then show ?thesis
    by (intro exI [of _ ?s2] exI [of _ "first_checkpoint cid p"]) (simp add: put_case_def)
qed

lemma operated_served: "operated ctx D sv \<Longrightarrow> served ctx sv"
  by (induction rule: operated.induct) (auto intro: served.intros)

definition alive :: "'w service \<Rightarrow> string \<Rightarrow> checkpoint \<Rightarrow> bool" where
  "alive sv cid cp \<longleftrightarrow> (sv_tasks sv cid = Some None \<and> cp_interrupts cp = [])
     \<or> (sv_tasks sv cid = None \<and> (cp_tasks cp = [] \<or> cp_interrupts cp \<noteq> []))"

context sound_context
begin

definition kept :: "'w service \<Rightarrow> bool" where
  "kept sv \<longleftrightarrow> (\<forall>cid cp. sv_cases sv cid = Some cp \<longrightarrow> alive sv cid cp \<and> sound_case (cp_state cp) (cp_tasks cp))
     \<and> (\<forall>cid p. sv_tasks sv cid = Some (Some p) \<longrightarrow> sv_cases sv cid = None \<and> set (documents p) \<subseteq> D)
     \<and> (\<forall>cid. sv_tasks sv cid = Some None \<longrightarrow> sv_cases sv cid \<noteq> None)"

lemma sound_advance:
  assumes "sound_case (cp_state cp) (cp_tasks cp)" "advance ctx rv n cp w = (r, cp', w')"
  shows "sound_case (cp_state cp') (cp_tasks cp')"
  using assms
proof (induction n arbitrary: cp w)
  case 0
  then show ?case by auto
next
  case (Suc n)
  show ?case
  proof (cases "cp_tasks cp")
    case Nil
    then show ?thesis using Suc.prems by auto
  next
    case (Cons t ts)
    obtain rs w1 where rs: "run_tasks ctx rv (cp_state cp) (cp_tasks cp) w = (Inr rs, w1)"
      using sound_tasks_return [OF Suc.prems(1) subset_refl] by blast
    show ?thesis
    proof (cases "interrupts rs = []")
      case True
      let ?cp = "cp\<lparr>cp_state := apply_updates (updates rs) (cp_state cp), cp_tasks := next_tasks rs,
                    cp_interrupts := [], cp_steps := cp_steps cp + 1\<rparr>"
      have "gstep ctx rv (cp_state cp, cp_tasks cp, w) (apply_updates (updates rs) (cp_state cp), next_tasks rs, w1)"
        using run_gstep [OF _ True] rs Cons by (simp del: run_tasks.simps)
      then have "sound_case (cp_state ?cp) (cp_tasks ?cp)" using sound_step [OF Suc.prems(1)] by simp
      moreover have "advance ctx rv n ?cp w1 = (r, cp', w')"
        using Suc.prems(2) rs True Cons by (simp del: run_tasks.simps)
      ultimately show ?thesis using Suc.IH by blast
    next
      case False
      then show ?thesis using Suc.prems rs Cons by (auto simp del: run_tasks.simps)
    qed
  qed
qed

lemma keptD:
  assumes "kept sv"
  shows "sv_cases sv cid = Some cp \<Longrightarrow> alive sv cid cp" "sv_cases sv cid = Some cp \<Longrightarrow> sound_case (cp_state cp) (cp_tasks cp)"
    "sv_tasks sv cid = Some (Some p) \<Longrightarrow> sv_cases sv cid = None \<and> set (documents p) \<subseteq> D"
    "sv_tasks sv cid = Some None \<Longrightarrow> sv_cases sv cid \<noteq> None"
  using assms unfolding kept_def by blast+

lemma kept_review:
  assumes "kept sv" "all_stored ctx sv" "0 < limit_of ctx"
  shows "kept (snd (review ctx cid h sv))"
proof (cases "\<exists>cp. sv_cases sv cid = Some cp \<and> cp_interrupts cp \<noteq> []")
  case True
  then obtain cp where cp: "sv_cases sv cid = Some cp" "cp_interrupts cp \<noteq> []" by blast
  have tasks: "cp_tasks cp = [TNode Human_review]" using assms(2) cp by (auto simp: all_stored_def stored_def)
  obtain n where n: "limit_of ctx + 2 = Suc (Suc (Suc n))" using assms(3) by (cases "limit_of ctx") auto
  obtain cp' w' where adv: "advance ctx [dump_human_decision h] (limit_of ctx + 2) cp (sv_world sv) = (Done, cp', w')"
    "cp_tasks cp' = []" "cp_interrupts cp' = []"
    using review_advance [OF quiet tasks] unfolding n by blast
  have sv': "snd (review ctx cid h sv) = put_case cid cp' (sv\<lparr>sv_world := w'\<rparr>)"
    using cp adv(1) by (simp add: review_def Let_def)
  have "sound_case (cp_state cp') (cp_tasks cp')" by (rule sound_advance [OF keptD(2) [OF assms(1) cp(1)] adv(1)])
  moreover have "sv_tasks sv cid = None" using keptD(1) [OF assms(1) cp(1)] cp(2) by (auto simp: alive_def)
  ultimately show ?thesis
    using assms(1) adv(2) unfolding sv' kept_def put_case_def alive_def by auto
next
  case False
  then have "snd (review ctx cid h sv) = sv" by (auto simp: review_def split: option.split)
  then show ?thesis using assms(1) by simp
qed

lemma kept_step:
  assumes "service_step ctx sv sv'" "kept sv" "all_stored ctx sv" "9 \<le> limit_of ctx"
    and new: "\<And>cid p. sv_tasks sv' cid = Some (Some p) \<Longrightarrow> set (documents p) \<subseteq> D"
  shows "kept sv'"
  using assms(1)
proof cases
  case (step_submit cid p)
  then show ?thesis
    using assms(2) new [of cid p] unfolding kept_def service_defs fresh_def alive_def by auto
next
  case (step_start cid p)
  then have "sound_case (initial_state cid p (Some RECEIVED)) start_tasks"
    using keptD(3) [OF assms(2)] sound_initial by blast
  then show ?thesis
    using assms(2) step_start unfolding kept_def service_defs alive_def first_checkpoint_def by auto
next
  case (step_lost cid p)
  then show ?thesis
    using assms(2) keptD(3) [OF assms(2)] unfolding kept_def service_defs alive_def by auto
next
  case (step_super cid cp st' tasks' w')
  have "sound_case st' tasks'"
    by (rule sound_step [OF keptD(2) [OF assms(2) step_super(3)] step_super(5)])
  then show ?thesis
    using assms(2) step_super(1-3) unfolding kept_def service_defs alive_def by auto
next
  case (step_end cid cp)
  then show ?thesis using assms(2) unfolding kept_def service_defs alive_def by auto
next
  case (step_interrupt cid cp rs w')
  then show ?thesis
    using assms(2) keptD(2) [OF assms(2) step_interrupt(3)] unfolding kept_def service_defs alive_def by auto
next
  case (step_crash cid cp order e w')
  have "set order \<subseteq> set (cp_tasks cp)" using mset_eq_setD [OF step_crash(4)] by simp
  from sound_tasks_return [OF keptD(2) [OF assms(2) step_crash(3)] this, of "[]" "sv_world sv"]
  show ?thesis using step_crash(5) by auto
next
  case (step_limit cid cp)
  have "stored ctx cid cp" using assms(3) step_limit(3) unfolding all_stored_def by blast
  then have "cp_steps cp + rank (cp_tasks cp) \<le> 9" by (simp add: stored_def)
  then have "rank (cp_tasks cp) = 0" using step_limit assms(4) by simp
  moreover have "0 < node_rank n" for n by (cases n) simp_all
  ultimately have "cp_tasks cp = []" by (cases "cp_tasks cp") (auto, metis less_numeral_extra(3))
  then show ?thesis using assms(2) step_limit unfolding kept_def service_defs alive_def by auto
next
  case (step_review cid h)
  then show ?thesis using kept_review [OF assms(2,3)] assms(4) by simp
next
  case (step_world w')
  then show ?thesis using assms(2) unfolding kept_def alive_def by simp
qed

lemma operated_kept:
  assumes "operated ctx D sv" "9 \<le> limit_of ctx"
  shows "kept sv"
  using assms(1)
proof (induction rule: operated.induct)
  case (operated_empty w)
  then show ?case by (simp add: kept_def empty_service_def)
next
  case (operated_step sv sv')
  then show ?case
    using kept_step [OF operated_step(2) operated_step(4) served_stored [OF operated_served [OF operated_step(1)]] assms(2)]
    by blast
qed

lemma never_lost:
  assumes "operated ctx D sv" "9 \<le> limit_of ctx" "sv_cases sv cid = Some cp" "sv_tasks sv cid = None"
  shows "status (cp_state cp) = Some COMPLETED \<or>
    (status (cp_state cp) = Some AWAITING_HUMAN_REVIEW \<and> cp_interrupts cp \<noteq> [])"
proof -
  have "alive sv cid cp" by (rule keptD(1) [OF operated_kept [OF assms(1,2)] assms(3)])
  then show ?thesis
    using stored_status [OF served_case [OF operated_served [OF assms(1)] assms(3)]] assms(4) by (auto simp: alive_def)
qed

lemma never_stuck:
  assumes "operated ctx D sv" "9 \<le> limit_of ctx" "sv_cases sv cid = Some cp"
  shows "sv_tasks sv cid = Some None \<or> status (cp_state cp) = Some COMPLETED \<or>
    (status (cp_state cp) = Some AWAITING_HUMAN_REVIEW \<and> cp_interrupts cp \<noteq> [])"
  using never_lost [OF assms] keptD(1) [OF operated_kept [OF assms(1,2)] assms(3)] by (auto simp: alive_def)

text \<open>A running case can make its next step, and every step brings it closer to its end.\<close>

lemma operated_next:
  assumes "operated ctx D sv" "9 \<le> limit_of ctx" "service_step ctx sv sv'"
    and "\<And>c q. sv_tasks sv' c = Some (Some q) \<Longrightarrow> sv_tasks sv c = Some (Some q)"
  shows "operated ctx D sv'"
proof (rule operated_step [OF assms(1,3)])
  fix c q
  assume "sv_tasks sv' c = Some (Some q)"
  then show "set (documents q) \<subseteq> D" using keptD(3) [OF operated_kept [OF assms(1,2)] assms(4)] by blast
qed

lemma next_step:
  assumes op: "operated ctx D sv" "9 \<le> limit_of ctx" and t: "sv_tasks sv cid = Some None"
    and cp: "sv_cases sv cid = Some cp"
  shows "\<exists>sv' cp'. service_step ctx sv sv' \<and> operated ctx D sv' \<and> sv_cases sv' cid = Some cp'
    \<and> (sv_tasks sv' cid = None \<or> sv_tasks sv' cid = Some None \<and> rank (cp_tasks cp') < rank (cp_tasks cp))"
proof (cases "cp_tasks cp = []")
  case True
  have s: "service_step ctx sv (task_done cid sv)" by (rule step_end [OF t cp True])
  have "operated ctx D (task_done cid sv)"
    by (rule operated_next [OF op s]) (simp add: task_done_def split: if_splits)
  with s show ?thesis using cp by (intro exI [of _ "task_done cid sv"]) (auto simp: task_done_def)
next
  case False
  note k = operated_kept [OF op]
  obtain rs w' where rs: "run_tasks ctx [] (cp_state cp) (cp_tasks cp) (sv_world sv) = (Inr rs, w')"
    using sound_tasks_return [OF keptD(2) [OF k cp] subset_refl] by blast
  have st: "stored ctx cid cp" by (rule served_case [OF operated_served [OF op(1)] cp])
  show ?thesis
  proof (cases "interrupts rs = []")
    case True
    have "0 < node_rank n" for n by (cases n) simp_all
    then have "0 < rank (cp_tasks cp)" using False by (cases "cp_tasks cp") simp_all
    then have lim: "cp_steps cp < limit_of ctx" using st op(2) by (simp add: stored_def)
    have g: "gstep ctx [] (cp_state cp, cp_tasks cp, sv_world sv)
        (apply_updates (updates rs) (cp_state cp), next_tasks rs, w')"
      using run_gstep [OF _ True] rs False by (cases "cp_tasks cp") (simp_all del: run_tasks.simps)
    let ?cp = "cp\<lparr>cp_state := apply_updates (updates rs) (cp_state cp), cp_tasks := next_tasks rs,
        cp_interrupts := [], cp_steps := cp_steps cp + 1\<rparr>"
    let ?sv = "put_case cid ?cp (sv\<lparr>sv_world := w'\<rparr>)"
    have s: "service_step ctx sv ?sv" by (rule step_super [OF t cp lim g])
    have "rank (cp_tasks ?cp) < rank (cp_tasks cp)" using gstep_rank [OF _ g] st by (simp add: stored_def)
    moreover have "operated ctx D ?sv" by (rule operated_next [OF op s]) (simp add: put_case_def)
    moreover have "sv_cases ?sv cid = Some ?cp" "sv_tasks ?sv cid = Some None" using t by (simp_all add: put_case_def)
    ultimately show ?thesis using s by blast
  next
    case False
    let ?sv = "task_done cid (put_case cid (cp\<lparr>cp_interrupts := interrupts rs\<rparr>) (sv\<lparr>sv_world := w'\<rparr>))"
    have s: "service_step ctx sv ?sv" by (rule step_interrupt [OF t cp rs False])
    have "operated ctx D ?sv" by (rule operated_next [OF op s]) (simp add: service_defs split: if_splits)
    moreover have "sv_cases ?sv cid = Some (cp\<lparr>cp_interrupts := interrupts rs\<rparr>)" "sv_tasks ?sv cid = None"
      by (simp_all add: service_defs)
    ultimately show ?thesis using s by blast
  qed
qed

lemma running_ends:
  assumes "operated ctx D sv" "9 \<le> limit_of ctx" "sv_tasks sv cid = Some None" "sv_cases sv cid = Some cp"
  shows "\<exists>sv' cp'. (service_step ctx)\<^sup>*\<^sup>* sv sv' \<and> sv_cases sv' cid = Some cp' \<and> sv_tasks sv' cid = None
    \<and> (status (cp_state cp') = Some COMPLETED
       \<or> status (cp_state cp') = Some AWAITING_HUMAN_REVIEW \<and> cp_interrupts cp' \<noteq> [])"
  using assms(1,3,4)
proof (induction "rank (cp_tasks cp)" arbitrary: sv cp rule: less_induct)
  case less
  obtain sv1 cp1 where s: "service_step ctx sv sv1" "operated ctx D sv1" "sv_cases sv1 cid = Some cp1"
    "sv_tasks sv1 cid = None \<or> sv_tasks sv1 cid = Some None \<and> rank (cp_tasks cp1) < rank (cp_tasks cp)"
    using next_step [OF less.prems(1) assms(2) less.prems(2,3)] by blast
  from s(4) show ?case
  proof
    assume "sv_tasks sv1 cid = None"
    then show ?thesis using never_lost [OF s(2) assms(2) s(3)] s(1,3) by blast
  next
    assume "sv_tasks sv1 cid = Some None \<and> rank (cp_tasks cp1) < rank (cp_tasks cp)"
    then obtain sv' cp' where e: "(service_step ctx)\<^sup>*\<^sup>* sv1 sv'" "sv_cases sv' cid = Some cp'" "sv_tasks sv' cid = None"
      "status (cp_state cp') = Some COMPLETED
       \<or> status (cp_state cp') = Some AWAITING_HUMAN_REVIEW \<and> cp_interrupts cp' \<noteq> []"
      using less.hyps [OF _ s(2) _ s(3)] by blast
    have "(service_step ctx)\<^sup>*\<^sup>* sv sv'" by (rule converse_rtranclp_into_rtranclp [OF s(1) e(1)])
    with e(2-4) show ?thesis by (intro exI [of _ sv'] exI [of _ cp'] conjI)
  qed
qed

end

end
