(* ===== verification/Api.thy ===== *)
theory Api
  imports Service "HOL-Library.Sublist"
begin

text \<open>
  \<open>api/main.py\<close> and \<open>api/schemas.py\<close>: the routes as functions on the service, with their status
  codes. A request body that FastAPI cannot validate is answered 422, an exception no handler
  catches 500. The event stream is a function of what its polls observe.
\<close>

datatype 'a http = Ok nat 'a | Fail nat string

definition not_found :: "string \<Rightarrow> 'a http" where
  "not_found cid = Fail 404 (''case '' @ cid @ '' not found'')"

definition internal_error :: "'a http" where
  "internal_error = Fail 500 ''Internal Server Error''"

definition post_case :: "string \<Rightarrow> kyc_package \<Rightarrow> 'w service \<Rightarrow> (string \<times> case_status) http \<times> 'w service" where
  "post_case cid p sv = (Ok 202 (cid, RECEIVED), submit cid p sv)"

definition get_case :: "'w service \<Rightarrow> string \<Rightarrow> case_response http" where
  "get_case sv cid = (case case_status sv cid of
     Inr r \<Rightarrow> Ok 200 r
   | Inl (CaseNotFoundError _) \<Rightarrow> not_found cid
   | Inl _ \<Rightarrow> internal_error)"

definition post_review ::
  "'w pipeline_context \<Rightarrow> string \<Rightarrow> jval \<Rightarrow> 'w service \<Rightarrow> case_response http \<times> 'w service" where
  "post_review ctx cid body sv =
     (case validate_human_decision body of
        Inl _ \<Rightarrow> (Fail 422 ''Unprocessable Entity'', sv)
      | Inr h \<Rightarrow> (case review ctx cid h sv of (r, sv') \<Rightarrow>
          (case r of
             Inr resp \<Rightarrow> Ok 200 resp
           | Inl (CaseNotFoundError _) \<Rightarrow> not_found cid
           | Inl (CaseNotAwaitingReviewError _) \<Rightarrow>
               Fail 409 (''case '' @ cid @ '' is not awaiting human review'')
           | Inl (Unhandled _) \<Rightarrow> internal_error, sv')))"

record event_response =
  re_ts :: nat
  re_node :: string
  re_event_type :: string
  re_payload :: "(string \<times> pval) list"

definition event_response_of :: "audit_event \<Rightarrow> event_response" where
  "event_response_of e = \<lparr>re_ts = ev_ts e, re_node = ev_node e, re_event_type = event_type e,
     re_payload = payload e\<rparr>"

text \<open>\<open>read\<close> is the sink's \<open>events\<close> on the world of the service.\<close>

definition get_audit ::
  "(string \<Rightarrow> ('w, audit_event list) action) \<Rightarrow> 'w service \<Rightarrow> string
    \<Rightarrow> event_response list http \<times> 'w service" where
  "get_audit read sv cid =
     (if \<not> case_exists sv cid then (not_found cid, sv)
      else case read cid (sv_world sv) of
        (Inl _, w') \<Rightarrow> (internal_error, sv\<lparr>sv_world := w'\<rparr>)
      | (Inr es, w') \<Rightarrow> (Ok 200 (map event_response_of es), sv\<lparr>sv_world := w'\<rparr>))"

definition health :: "bool option \<Rightarrow> (string \<times> string) http" where
  "health pool_up = (case pool_up of
     None \<Rightarrow> Ok 200 (''ok'', ''memory'')
   | Some up \<Rightarrow> if up then Ok 200 (''ok'', ''postgres'') else Fail 503 ''database unavailable'')"

section \<open>The event stream\<close>

text \<open>
  One poll: the events read first, whether the case is finished, the events read again, and
  whether the client has gone. \<open>sse\<close> is what the generator has sent after some polls, and
  whether it has returned.
\<close>

record poll =
  po_events :: "audit_event list"
  po_finished :: bool
  po_again :: "audit_event list"
  po_gone :: bool

fun sse :: "nat \<Rightarrow> poll list \<Rightarrow> (string \<times> event_response) list \<times> bool" where
  "sse sent [] = ([], False)"
| "sse sent (p # ps) =
     (let items = map (\<lambda>e. (event_type e, event_response_of e)) (drop sent (po_events p));
          sent' = length (po_events p)
      in if po_finished p \<and> sent' = length (po_again p) then (items, True)
         else if po_gone p then (items, True)
         else (case sse sent' ps of (rest, fin) \<Rightarrow> (items @ rest, fin)))"

definition get_events :: "'w service \<Rightarrow> string \<Rightarrow> poll list \<Rightarrow> ((string \<times> event_response) list \<times> bool) http" where
  "get_events sv cid polls = (if case_exists sv cid then Ok 200 (sse 0 polls) else not_found cid)"

definition items_of :: "audit_event list \<Rightarrow> (string \<times> event_response) list" where
  "items_of es = map (\<lambda>e. (event_type e, event_response_of e)) es"

text \<open>
  The polls of a store that events are emitted to: a turn holds the events emitted before the first
  read and those between the two reads, of all cases. Reads are taken to answer; one that raises
  ends the stream with its exception.
\<close>

record turn =
  tu_before :: "audit_event list"
  tu_finished :: bool
  tu_between :: "audit_event list"
  tu_gone :: bool

definition emitted :: "turn list \<Rightarrow> audit_event list" where
  "emitted turns = concat (map (\<lambda>t. tu_before t @ tu_between t) turns)"

lemma emitted_simps [simp]: "emitted [] = []" "emitted (t # ts) = tu_before t @ tu_between t @ emitted ts"
  by (simp_all add: emitted_def)

fun watch ::
  "(audit_event \<Rightarrow> ('s, unit) action) \<Rightarrow> (string \<Rightarrow> 's \<Rightarrow> audit_event list) \<Rightarrow> string \<Rightarrow> 's \<Rightarrow> turn list
    \<Rightarrow> poll list" where
  "watch sink read cid s [] = []"
| "watch sink read cid s (t # ts) =
     (let s1 = emit_all sink (tu_before t) s; s2 = emit_all sink (tu_between t) s1
      in \<lparr>po_events = read cid s1, po_finished = tu_finished t, po_again = read cid s2, po_gone = tu_gone t\<rparr>
         # watch sink read cid s2 ts)"

text \<open>What a stream should send: everything there was at its last poll, which is the first one at which
  the client has gone or the case is finished with no event left to send.\<close>

definition stops :: "poll \<Rightarrow> bool" where
  "stops p \<longleftrightarrow> po_gone p \<or> (po_finished p \<and> po_events p = po_again p)"

definition streamed :: "poll list \<Rightarrow> (string \<times> event_response) list \<times> bool" where
  "streamed polls = (case find stops polls of
     Some p \<Rightarrow> (items_of (po_events p), True)
   | None \<Rightarrow> (items_of (if polls = [] then [] else po_events (last polls)), False))"

text \<open>The generator does that on a log that only grows: what a poll reads extends what was read before.\<close>

fun growing :: "audit_event list \<Rightarrow> poll list \<Rightarrow> bool" where
  "growing es [] \<longleftrightarrow> True"
| "growing es (p # ps) \<longleftrightarrow> prefix es (po_events p) \<and> prefix (po_events p) (po_again p) \<and> growing (po_again p) ps"

lemma growing_mono: "prefix es fs \<Longrightarrow> growing fs polls \<Longrightarrow> growing es polls"
  by (cases polls) auto

lemma sse_sent:
  assumes "growing es polls" "polls \<noteq> []"
  shows "(items_of es @ fst (sse (length es) polls), snd (sse (length es) polls)) = streamed polls"
  using assms
proof (induction polls arbitrary: es)
  case (Cons p ps)
  have pre: "prefix es (po_events p)" "prefix (po_events p) (po_again p)" "growing (po_events p) ps"
    using Cons.prems(1) growing_mono by auto
  have split: "items_of es @ items_of (drop (length es) (po_events p)) = items_of (po_events p)"
    using pre(1) by (auto simp: items_of_def prefix_def)
  have same: "length (po_events p) = length (po_again p) \<longleftrightarrow> po_events p = po_again p"
    using pre(2) by (auto simp: prefix_def)
  have first: "sse (length es) (p # ps) =
      (if stops p then (items_of (drop (length es) (po_events p)), True)
       else (items_of (drop (length es) (po_events p)) @ fst (sse (length (po_events p)) ps),
             snd (sse (length (po_events p)) ps)))"
    by (auto simp: Let_def stops_def same items_of_def case_prod_unfold)
  show ?case
  proof (cases "stops p \<or> ps = []")
    case True
    then show ?thesis unfolding first using split by (auto simp: streamed_def)
  next
    case False
    then have "streamed (p # ps) = streamed ps" by (auto simp: streamed_def split: option.splits)
    then show ?thesis unfolding first using False Cons.IH [OF pre(3)] split by simp (metis append.assoc)
  qed
qed simp

context audit_sink
begin

lemma watch_growing:
  assumes "in_order s (emitted turns)"
  shows "growing (events cid s) (watch sink events cid s turns)"
  using assms
proof (induction turns arbitrary: s)
  case (Cons t ts)
  let ?s1 = "emit_all sink (tu_before t) s"
  let ?s2 = "emit_all sink (tu_between t) ?s1"
  have o: "in_order s (tu_before t)" "in_order ?s1 (tu_between t)" "in_order ?s2 (emitted ts)"
    using Cons.prems by (simp_all add: in_order_append)
  show ?case using trail [OF o(1), of cid] trail [OF o(2), of cid] Cons.IH [OF o(3)] by (simp add: Let_def)
qed simp

lemma stream_sent:
  assumes "in_order s (emitted turns)" "turns \<noteq> []"
  shows "sse 0 (watch sink events cid s turns) = streamed (watch sink events cid s turns)"
proof -
  have "growing [] (watch sink events cid s turns)"
    by (rule growing_mono [OF _ watch_growing [OF assms(1)]]) simp
  moreover have "watch sink events cid s turns \<noteq> []" using assms(2) by (cases turns) (simp_all add: Let_def)
  ultimately show ?thesis using sse_sent [of "[]"] by (simp add: items_of_def)
qed

end

lemma sse_open: "\<forall>p \<in> set polls. \<not> po_finished p \<and> \<not> po_gone p \<Longrightarrow> \<not> snd (sse sent polls)"
  by (induction polls arbitrary: sent) (simp_all add: Let_def case_prod_unfold)

section \<open>Routes\<close>

lemma get_case_codes: "get_case sv cid = (case case_status sv cid of Inr r \<Rightarrow> Ok 200 r | Inl _ \<Rightarrow> not_found cid)"
  by (auto simp: get_case_def case_status_def split: option.splits if_splits)

text \<open>
  What the order of time is needed for. An event that is inserted late, after one with a later
  timestamp, is read before it; the generator skips as many events as it has sent, so it sends the
  other event twice and this one never.
\<close>

definition stamped :: "nat \<Rightarrow> audit_event" where
  "stamped t = \<lparr>ev_case_id = ''a'', ev_ts = t, ev_node = ''n'', event_type = ''t'', payload = []\<rparr>"

lemma late_insert_repeats:
  "sse 0 (watch (safe_emit (pg_emit (\<lambda>_. True))) pg_select ''a'' \<lparr>pg_rows = [], pg_next_id = 1, pg_statements = 0\<rparr>
     [\<lparr>tu_before = [stamped 2], tu_finished = False, tu_between = [], tu_gone = False\<rparr>,
      \<lparr>tu_before = [stamped 1], tu_finished = True, tu_between = [], tu_gone = False\<rparr>]) =
   (items_of [stamped 2, stamped 2], True)"
  by (simp add: Let_def safe_emit_snd pg_emit_def pg_select_def stamped_def items_of_def)

section \<open>Properties\<close>

text \<open>C35: the event stream. However the emits of the pipeline fall between the reads of the generator,
  and on either sink, the generator sends exactly the trail of the case at its last poll, every event
  once and in order, and it returns at the first poll at which the client has gone or the case is
  finished with no event left to send, and not before. For the sink in memory that always holds; for
  the one in the database, whatever inserts fail, when the rows are in order of time and stay so -
  \<open>late_insert_repeats\<close> shows what happens otherwise.\<close>

theorem stream_complete:
  assumes "turns \<noteq> []"
  shows "sse 0 (watch mem_emit mem_events cid es turns) = streamed (watch mem_emit mem_events cid es turns)
    \<and> (sorted (map row_id (pg_rows s)) \<and> (\<forall>r \<in> set (pg_rows s). row_id r < pg_next_id s)
       \<and> sorted (map ev_ts (map row_event (pg_rows s) @ emitted turns)) \<longrightarrow>
       sse 0 (watch (safe_emit (pg_emit up)) pg_select cid s turns) =
         streamed (watch (safe_emit (pg_emit up)) pg_select cid s turns))"
proof (intro conjI impI)
  show "sse 0 (watch mem_emit mem_events cid es turns) = streamed (watch mem_emit mem_events cid es turns)"
    by (rule mem.stream_sent [OF mem_in_order assms])
next
  assume s: "sorted (map row_id (pg_rows s)) \<and> (\<forall>r \<in> set (pg_rows s). row_id r < pg_next_id s)
    \<and> sorted (map ev_ts (map row_event (pg_rows s) @ emitted turns))"
  then have "emitted turns = [] \<or> pg_upto s (ev_ts (hd (emitted turns)))"
    by (cases "emitted turns") (auto simp: pg_upto_def sorted_append comp_def)
  with s have "pg.safe.in_order up s (emitted turns)" by (intro pg.safe.in_order_sorted) (simp_all add: sorted_append)
  then show "sse 0 (watch (safe_emit (pg_emit up)) pg_select cid s turns) =
      streamed (watch (safe_emit (pg_emit up)) pg_select cid s turns)"
    by (rule pg.safe.stream_sent [OF _ assms])
qed

lemma stream_complete_witness:
  "sse 0 (watch (safe_emit (pg_emit (\<lambda>i. i \<noteq> 1))) pg_select ''a'' \<lparr>pg_rows = [], pg_next_id = 1, pg_statements = 0\<rparr>
     [\<lparr>tu_before = [stamped 1], tu_finished = False, tu_between = [], tu_gone = False\<rparr>,
      \<lparr>tu_before = [stamped 2, stamped 3], tu_finished = True, tu_between = [stamped 4], tu_gone = False\<rparr>,
      \<lparr>tu_before = [], tu_finished = True, tu_between = [], tu_gone = False\<rparr>]) =
   (items_of [stamped 1, stamped 3, stamped 4], True)"
proof -
  let ?s = "\<lparr>pg_rows = [], pg_next_id = 1, pg_statements = 0\<rparr>"
  let ?turns = "[\<lparr>tu_before = [stamped 1], tu_finished = False, tu_between = [], tu_gone = False\<rparr>,
      \<lparr>tu_before = [stamped 2, stamped 3], tu_finished = True, tu_between = [stamped 4], tu_gone = False\<rparr>,
      \<lparr>tu_before = [], tu_finished = True, tu_between = [], tu_gone = False\<rparr>]"
  have "?turns \<noteq> []" by simp
  from stream_complete [OF this, of _ _ ?s "\<lambda>i. i \<noteq> 1"]
  have "sse 0 (watch (safe_emit (pg_emit (\<lambda>i. i \<noteq> 1))) pg_select ''a'' ?s ?turns) =
      streamed (watch (safe_emit (pg_emit (\<lambda>i. i \<noteq> 1))) pg_select ''a'' ?s ?turns)"
    by (simp add: stamped_def del: sse.simps watch.simps)
  then show ?thesis
    by (simp add: streamed_def stops_def Let_def safe_emit_snd pg_emit_def pg_select_def stamped_def del: sse.simps)
qed

end
