(* ===== verification/App.thy ===== *)
theory App
  imports Api
begin

text \<open>
  The start of the process: \<open>create_app\<close> with its lifespan in \<open>api/main.py\<close>, and \<open>create_pool\<close>
  and \<open>setup_postgres\<close> in \<open>persistence/db.py\<close>. The backend of the settings decides where cases
  and audit events live: in the database, or in the memory of the process. The lemmas show that
  the migrations are idempotent and what of a service survives a restart of the process.
\<close>

section \<open>The database\<close>

text \<open>
  The audit table once it exists, its index, and the cases of the checkpointer; \<open>up\<close> tells of each
  statement whether it executes.
\<close>

record database =
  db_audit :: "pg_state option"
  db_indexed :: bool
  db_cases :: "string \<rightharpoonup> checkpoint"
  db_statements :: nat

definition execute :: "(nat \<Rightarrow> bool) \<Rightarrow> (database \<Rightarrow> database) \<Rightarrow> (database, unit) action" where
  "execute up f db =
     (if up (db_statements db) then (Inr (), (f db)\<lparr>db_statements := db_statements db + 1\<rparr>)
      else (Inl pg_error, db\<lparr>db_statements := db_statements db + 1\<rparr>))"

definition create_audit_table :: "database \<Rightarrow> database" where
  "create_audit_table db = (case db_audit db of
     None \<Rightarrow> db\<lparr>db_audit := Some \<lparr>pg_rows = [], pg_next_id = 1, pg_statements = 0\<rparr>\<rparr>
   | Some _ \<Rightarrow> db)"

definition create_audit_index :: "database \<Rightarrow> database" where
  "create_audit_index db = db\<lparr>db_indexed := True\<rparr>"

definition audit_ddl :: "(database \<Rightarrow> database) list" where
  "audit_ddl = [create_audit_table, create_audit_index]"

text \<open>The pool is opened without waiting for a connection; \<open>saver\<close> is the checkpointer's own setup.\<close>

definition setup_postgres :: "(database, unit) action \<Rightarrow> (nat \<Rightarrow> bool) \<Rightarrow> (database, unit) action" where
  "setup_postgres saver up = abind saver (\<lambda>_. aforeach (execute up) audit_ddl)"

section \<open>The two sinks on the storage of the process\<close>

record store =
  so_db :: database
  so_log :: "audit_event list"

definition no_table :: exn where
  "no_table = Exn ''UndefinedTable'' ''relation does not exist''"

definition db_emit :: "(nat \<Rightarrow> bool) \<Rightarrow> audit_event \<Rightarrow> (store, unit) action" where
  "db_emit up e so = (case db_audit (so_db so) of
     None \<Rightarrow> (Inl no_table, so)
   | Some t \<Rightarrow> (case pg_emit up e t of (r, t') \<Rightarrow> (r, so\<lparr>so_db := (so_db so)\<lparr>db_audit := Some t'\<rparr>\<rparr>)))"

definition db_events :: "(nat \<Rightarrow> bool) \<Rightarrow> string \<Rightarrow> (store, audit_event list) action" where
  "db_events up cid so = (case db_audit (so_db so) of
     None \<Rightarrow> (Inl no_table, so)
   | Some t \<Rightarrow> (case pg_events up cid t of (r, t') \<Rightarrow> (r, so\<lparr>so_db := (so_db so)\<lparr>db_audit := Some t'\<rparr>\<rparr>)))"

definition log_emit :: "audit_event \<Rightarrow> (store, unit) action" where
  "log_emit e so = (case mem_emit e (so_log so) of (r, es) \<Rightarrow> (r, so\<lparr>so_log := es\<rparr>))"

definition log_events :: "string \<Rightarrow> (store, audit_event list) action" where
  "log_events cid so = (Inr (mem_events cid (so_log so)), so)"

section \<open>create_app\<close>

text \<open>What the lifespan leaves in the state of the application.\<close>

record 'x app =
  ap_pool :: bool
  ap_emit :: "audit_event \<Rightarrow> (store, unit) action"
  ap_events :: "string \<Rightarrow> (store, audit_event list) action"
  ap_context :: "(store, 'x) world pipeline_context"
  ap_cases :: "string \<rightharpoonup> checkpoint"

text \<open>The choice of the backend: pool, sink, its reader, and the cases the checkpointer holds.\<close>

definition choose_backend ::
  "settings \<Rightarrow> (database, unit) action \<Rightarrow> (nat \<Rightarrow> bool)
    \<Rightarrow> (store, bool \<times> (audit_event \<Rightarrow> (store, unit) action)
          \<times> (string \<Rightarrow> (store, audit_event list) action) \<times> (string \<rightharpoonup> checkpoint)) action" where
  "choose_backend s saver up so =
     (case persistence_backend s of
        Postgres \<Rightarrow>
          (case setup_postgres saver up (so_db so) of
             (Inl e, db) \<Rightarrow> (Inl e, so\<lparr>so_db := db\<rparr>)
           | (Inr _, db) \<Rightarrow> (Inr (True, db_emit up, db_events up, db_cases db), so\<lparr>so_db := db\<rparr>))
      | Memory \<Rightarrow> (Inr (False, log_emit, log_events, Map.empty), so\<lparr>so_log := []\<rparr>))"

text \<open>A specification of a model that is refused ends the start with its exception.\<close>

definition lifespan ::
  "(extraction_result \<Rightarrow> string) \<Rightarrow> (store, 'x) world init_model \<Rightarrow> store environment \<Rightarrow> settings \<Rightarrow> date
    \<Rightarrow> (database, unit) action \<Rightarrow> (nat \<Rightarrow> bool) \<Rightarrow> (store, 'x app) action" where
  "lifespan dump init env s td saver up =
     abind (choose_backend s saver up) (\<lambda>(pool, sink, events, cases).
     abind (of_result (build_context dump init (env\<lparr>env_sink := sink\<rparr>) s td True)) (\<lambda>ctx.
     ret \<lparr>ap_pool = pool, ap_emit = sink, ap_events = events, ap_context = ctx, ap_cases = cases\<rparr>))"

text \<open>\<open>CaseService(graph, context)\<close> on the checkpointer: no task runs.\<close>

definition case_service :: "'x app \<Rightarrow> (store, 'x) world \<Rightarrow> (store, 'x) world service" where
  "case_service app w = \<lparr>sv_cases = ap_cases app, sv_tasks = Map.empty, sv_world = w\<rparr>"

text \<open>\<open>/health\<close> on the application: \<open>SELECT 1\<close> when there is a pool.\<close>

definition app_health :: "'x app \<Rightarrow> bool \<Rightarrow> (string \<times> string) http" where
  "app_health app reachable = health (if ap_pool app then Some reachable else None)"

section \<open>What survives a start\<close>

text \<open>The documented behaviour of the checkpointer's setup: it touches neither cases nor audit.\<close>

definition keeps_data :: "(database, unit) action \<Rightarrow> bool" where
  "keeps_data saver \<longleftrightarrow> (\<forall>db r db'. saver db = (r, db') \<longrightarrow>
     db_cases db' = db_cases db \<and> db_audit db' = db_audit db \<and> db_indexed db' = db_indexed db)"

definition trail_of :: "database \<Rightarrow> string \<Rightarrow> audit_event list" where
  "trail_of db cid = (case db_audit db of None \<Rightarrow> [] | Some t \<Rightarrow> pg_select cid t)"

lemma ddl_facts:
  "aforeach (execute up) audit_ddl db = (Inr u, db') \<Longrightarrow>
     db_cases db' = db_cases db \<and> trail_of db' = trail_of db \<and> db_audit db' \<noteq> None \<and> db_indexed db'
     \<and> (db_audit db \<noteq> None \<longrightarrow> db_audit db' = db_audit db)"
  by (auto simp: audit_ddl_def act_simps execute_def create_audit_table_def create_audit_index_def trail_of_def
      pg_select_def fun_eq_iff split: if_splits option.splits)

lemma setup_facts:
  assumes "keeps_data saver" "setup_postgres saver up db = (Inr u, db')"
  shows "db_cases db' = db_cases db" "trail_of db' = trail_of db" "db_audit db' \<noteq> None" "db_indexed db'"
    and "db_audit db \<noteq> None \<Longrightarrow> db_audit db' = db_audit db"
proof -
  obtain db1 v where s: "saver db = (Inr v, db1)" "aforeach (execute up) audit_ddl db1 = (Inr u, db')"
    using assms(2) by (auto simp: setup_postgres_def act_simps)
  have k: "db_cases db1 = db_cases db" "db_audit db1 = db_audit db"
    using assms(1) s(1) unfolding keeps_data_def by blast+
  then have "trail_of db1 = trail_of db" by (simp add: trail_of_def fun_eq_iff)
  then show "db_cases db' = db_cases db" "trail_of db' = trail_of db" "db_audit db' \<noteq> None" "db_indexed db'"
    "db_audit db \<noteq> None \<Longrightarrow> db_audit db' = db_audit db"
    using ddl_facts [OF s(2)] k by auto
qed

text \<open>The migrations are idempotent.\<close>

lemma setup_twice:
  assumes "keeps_data saver" "setup_postgres saver up db = (Inr u, db1)" "setup_postgres saver up db1 = (Inr u', db2)"
  shows "db_cases db2 = db_cases db1" "db_audit db2 = db_audit db1" "db_indexed db2 = db_indexed db1"
  using setup_facts [OF assms(1,2)] setup_facts [OF assms(1,3)] by simp_all

lemma lifespanD:
  assumes "lifespan dump init env s td saver up so = (Inr app, so')"
  obtains ctx where "choose_backend s saver up so = (Inr (ap_pool app, ap_emit app, ap_events app, ap_cases app), so')"
    "build_context dump init (env\<lparr>env_sink := ap_emit app\<rparr>) s td True = Inr ctx" "ap_context app = ctx"
  using assms that by (auto simp: lifespan_def act_simps)

lemma start_backend:
  assumes "keeps_data saver" "lifespan dump init env s td saver up so = (Inr app, so')"
  shows "ap_pool app \<longleftrightarrow> persistence_backend s = Postgres"
    and "ap_cases app = (if persistence_backend s = Postgres then db_cases (so_db so) else Map.empty)"
    and "trail_of (so_db so') = trail_of (so_db so)"
    and "persistence_backend s = Memory \<Longrightarrow> so_log so' = []"
proof -
  have c: "choose_backend s saver up so = (Inr (ap_pool app, ap_emit app, ap_events app, ap_cases app), so')"
    using assms(2) by (rule lifespanD)
  have "(ap_pool app \<longleftrightarrow> persistence_backend s = Postgres)
      \<and> ap_cases app = (if persistence_backend s = Postgres then db_cases (so_db so) else Map.empty)
      \<and> trail_of (so_db so') = trail_of (so_db so) \<and> (persistence_backend s = Memory \<longrightarrow> so_log so' = [])"
    using c setup_facts(1,2) [OF assms(1)]
    by (cases "persistence_backend s") (auto simp: choose_backend_def split: prod.splits sum.splits)
  then show "ap_pool app \<longleftrightarrow> persistence_backend s = Postgres"
    "ap_cases app = (if persistence_backend s = Postgres then db_cases (so_db so) else Map.empty)"
    "trail_of (so_db so') = trail_of (so_db so)" "persistence_backend s = Memory \<Longrightarrow> so_log so' = []" by blast+
qed

section \<open>Properties\<close>

text \<open>C40: what a start of the process finds. After any start that succeeds, with the database of the
  previous process, every case is answered as after the restart of the service in the postgres
  backend and unknown in the memory backend; the trail in the database is untouched, the migrations
  included; and \<open>/health\<close> names the backend of the settings.\<close>

theorem start_of_process:
  assumes "keeps_data saver" "lifespan dump init env s td saver up so = (Inr app, so')"
    and "sv_cases sv = db_cases (so_db so)"
  shows "case_status (case_service app w) cid =
      (if persistence_backend s = Postgres then case_status (restart sv) cid else Inl (CaseNotFoundError cid))
    \<and> trail_of (so_db so') = trail_of (so_db so)
    \<and> app_health app True = Ok 200 (''ok'', if persistence_backend s = Postgres then ''postgres'' else ''memory'')"
  using start_backend [OF assms(1,2)] assms(3)
  by (auto simp: case_status_def case_service_def restart_def app_health_def health_def)

lemma start_of_process_witness:
  "\<exists>(app :: unit app) so'. lifespan (\<lambda>e. []) (\<lambda>name provider temp url key. Inl no_table)
       \<lparr>env_sink = \<lambda>e so. (Inr (), so), env_times = \<lambda>i. 0, env_sanctions_draws = \<lambda>i. 0, env_pep_draws = \<lambda>i. 0\<rparr>
       default_settings (Date 2026 7 13) (ret ()) (\<lambda>i. True)
       \<lparr>so_db = \<lparr>db_audit = None, db_indexed = False, db_cases = Map.empty, db_statements = 0\<rparr>, so_log = []\<rparr> = (Inr app, so')
     \<and> app_health app True = Ok 200 (''ok'', ''postgres'')"
proof -
  let ?env = "\<lparr>env_sink = \<lambda>e so. (Inr (), so), env_times = \<lambda>i. 0, env_sanctions_draws = \<lambda>i. 0, env_pep_draws = \<lambda>i. 0\<rparr>
    :: store environment"
  let ?so = "\<lparr>so_db = \<lparr>db_audit = None, db_indexed = False, db_cases = Map.empty, db_statements = 0\<rparr>, so_log = []\<rparr>"
  let ?init = "(\<lambda>name provider temp url key. Inl no_table) :: (store, unit) world init_model"
  have k: "keeps_data (ret ())" by (simp add: keeps_data_def ret_def)
  have b: "build_context (\<lambda>e. []) ?init (?env\<lparr>env_sink := x\<rparr>) default_settings (Date 2026 7 13) True =
      Inr (offline_context (?env\<lparr>env_sink := x\<rparr>) default_settings (Date 2026 7 13) True)" for x
    by (rule build_offline [OF offline_default])
  have p: "persistence_backend default_settings = Postgres" by (simp add: default_settings_def)
  obtain db where "setup_postgres (ret ()) (\<lambda>i. True) (so_db ?so) = (Inr (), db)"
    by (simp add: setup_postgres_def audit_ddl_def execute_def abind_def ret_def)
  then obtain app so' where l: "lifespan (\<lambda>e. []) ?init ?env default_settings (Date 2026 7 13) (ret ()) (\<lambda>i. True) ?so
      = (Inr app, so')"
    by (simp add: lifespan_def choose_backend_def p b [simplified] abind_def ret_def of_result_def del: abind_ret)
  have c: "sv_cases (empty_service (undefined :: (store, unit) world)) = db_cases (so_db ?so)"
    by (simp add: empty_service_def)
  have "app_health app True = Ok 200 (''ok'', if persistence_backend default_settings = Postgres then ''postgres'' else ''memory'')"
    using start_of_process [OF k l c, where cid = "[]" and w = undefined] by blast
  then have "app_health app True = Ok 200 (''ok'', ''postgres'')" using p by simp
  with l show ?thesis by blast
qed

end
