(* ===== verification/Reference.thy ===== *)
theory Reference
  imports Factory
begin

text \<open>
  The reference specification of the pipeline: a pure function from the answers of the services
  and registries to the decision, with no graph, no retries and no audit. The contract of a
  context that gives these answers whatever the world is a locale; in it the graph is shown to
  end with the decision of the reference. The offline context interprets the locale.
\<close>

section \<open>Calls that always answer the same\<close>

named_theorems returns_intros \<open>calls with a fixed answer\<close>

definition returns :: "('w, 'a) action \<Rightarrow> 'a \<Rightarrow> bool" where
  "returns m x \<longleftrightarrow> (\<forall>w. \<exists>w'. m w = (Inr x, w'))"

lemma returnsD: "returns m x \<Longrightarrow> \<exists>w'. m w = (Inr x, w')"
  by (simp add: returns_def)

lemma returns_ret [returns_intros]: "returns (ret x) x"
  by (simp add: returns_def ret_def)

lemma returns_of_result [returns_intros]: "r = Inr x \<Longrightarrow> returns (of_result r) x"
  by (simp add: returns_def of_result_def)

lemma returns_bind:
  assumes "returns m x" "returns (f x) y"
  shows "returns (abind m f) y"
  unfolding returns_def
proof
  fix w
  obtain w1 where "m w = (Inr x, w1)" using returnsD [OF assms(1)] by blast
  moreover obtain w2 where "f x w1 = (Inr y, w2)" using returnsD [OF assms(2)] by blast
  ultimately show "\<exists>w'. abind m f w = (Inr y, w')" by (simp add: abind_def)
qed

lemma returns_unit: "total_action m \<Longrightarrow> returns m ()"
  by (auto simp: returns_def total_action_def)

lemma returns_log [returns_intros]: "safe_audit ctx \<Longrightarrow> returns (log_event ctx c n t args) ()"
  by (intro returns_unit total_log_event)

lemma returns_foreach [returns_intros]: "safe_audit ctx \<Longrightarrow> returns (aforeach (\<lambda>x. log_event ctx c n t (args x)) xs) ()"
  by (intro returns_unit total_aforeach total_log_event)

lemma returns_amap: "returns m x \<Longrightarrow> returns (amap f m) (f x)"
  unfolding amap_def by (rule returns_bind) (auto intro: returns_ret)

lemma returns_resilient:
  assumes "returns p x" and "0 \<le> mr"
  shows "returns (resilient step node p f mr) (Inr (x, []))"
  unfolding returns_def
proof
  fix w
  obtain w1 where p: "p w = (Inr x, w1)" using returnsD [OF assms(1)] by blast
  obtain n where n: "nat (1 + mr) = Suc n" using assms(2) by (cases "nat (1 + mr)") auto
  have "run_resilient step node p f mr w = (Inr (x, []), w1)"
    by (simp add: run_resilient_def n p)
  then show "\<exists>w'. resilient step node p f mr w = (Inr (Inr (x, [])), w')"
    by (simp add: pure_st_def)
qed

section \<open>The reference\<close>

record answers =
  a_classify :: "input_document list \<Rightarrow> customer_type \<Rightarrow> classified_document list"
  a_extract :: "input_document \<Rightarrow> document_type \<Rightarrow> extraction_result"
  a_verify :: "input_document \<Rightarrow> extraction_result \<Rightarrow> rule_flag list"
  a_narrate :: "applicant_declared \<Rightarrow> rule_flag list \<Rightarrow> rule_flag list \<Rightarrow> string"
  a_sanctions :: "string \<Rightarrow> registry_hit list"
  a_pep :: "string \<Rightarrow> registry_hit list"

definition doc_of :: "kyc_package \<Rightarrow> string \<Rightarrow> input_document" where
  "doc_of p i = the (dict_get (docs_by_id p) i)"

definition ref_extractions :: "answers \<Rightarrow> kyc_package \<Rightarrow> classified_document list \<Rightarrow> extraction_result list" where
  "ref_extractions a p cs = map (\<lambda>c. a_extract a (doc_of p (cd_document_id c)) (cd_doc_type c)) (known_docs cs)"

definition ref_grounding :: "answers \<Rightarrow> kyc_package \<Rightarrow> extraction_result list \<Rightarrow> rule_flag list" where
  "ref_grounding a p es = concat (map (\<lambda>e. a_verify a (doc_of p (er_document_id e)) e) (filter usable es))"

definition ref_report ::
  "'w pipeline_context \<Rightarrow> answers \<Rightarrow> kyc_package \<Rightarrow> extraction_result list \<Rightarrow> exn + validation_report" where
  "ref_report ctx a p es =
     map_sum id (\<lambda>(checks, rflags).
        report_of ctx es checks rflags (if evaluator_enabled ctx then ref_grounding a p es else []))
       (run_validation_rules (applicant p) es (today ctx) (match_thresholds_of (cx_settings ctx)))"

definition ref_names :: "kyc_package \<Rightarrow> extraction_result list \<Rightarrow> exn + names" where
  "ref_names p es = screening_names ((initial_state [] p None)\<lparr>extractions := es\<rparr>)"

definition hits_of :: "(string \<Rightarrow> registry_hit list) \<Rightarrow> string list \<Rightarrow> registry_hit list" where
  "hits_of f names = concat (map f names)"

fun str_of :: "jval \<Rightarrow> string" where
  "str_of (JStr s) = s"
| "str_of _ = []"

definition ref_triggers ::
  "'w pipeline_context \<Rightarrow> answers \<Rightarrow> kyc_package \<Rightarrow> validation_report \<Rightarrow> names \<Rightarrow> rule_flag list" where
  "ref_triggers ctx a p v = (\<lambda>(persons, companies, owners).
     evaluate_risk_rules (customer_type p) (expected_monthly_volume_eur (applicant p))
       (overall_confidence v) (rule_flags v)
       (hits_of (a_sanctions a) (persons @ companies)) (hits_of (a_pep a) persons)
       (hits_of (a_sanctions a) (map str_of owners) @ hits_of (a_pep a) (map str_of owners)) []
       (risk_thresholds_of (cx_settings ctx)))"

text \<open>\<open>Inl\<close> is the exception that ends the case without a decision.\<close>

definition ref_decision :: "'w pipeline_context \<Rightarrow> answers \<Rightarrow> kyc_package \<Rightarrow> exn + decision" where
  "ref_decision ctx a p =
     (let cs = a_classify a (documents p) (customer_type p);
          flag = package_check p cs; unreadable = unknown_docs cs \<noteq> []
      in if flag \<noteq> None then Inr (decide_gate flag [] [] unreadable)
         else let es = ref_extractions a p cs
              in case ref_report ctx a p es of Inl x \<Rightarrow> Inl x
                 | Inr v \<Rightarrow> (case ref_names p es of Inl x \<Rightarrow> Inl x
                   | Inr ns \<Rightarrow> Inr (decide_gate None (rule_flags v) (ref_triggers ctx a p v ns)
                       (unreadable \<or> (\<exists>e \<in> set es. extraction_error e \<noteq> None)))))"

section \<open>Runs with a fixed end\<close>

text \<open>Whatever the world, \<open>n\<close> supersteps and the tick that sees the end are enough.\<close>

definition settles ::
  "'w pipeline_context \<Rightarrow> nat \<Rightarrow> kyc_state \<Rightarrow> task list \<Rightarrow> (run_outcome \<Rightarrow> bool) \<Rightarrow> bool" where
  "settles ctx n st tasks P \<longleftrightarrow> (\<forall>w. \<exists>out w'. run ctx [] (Suc n) st tasks w = (out, w') \<and> P out)"

lemma settles_end: "P (Finished st) \<Longrightarrow> settles ctx n st [] P"
  by (simp add: settles_def)

lemma run_one:
  assumes "run_task ctx [] st t w = (Inr (Inr (u, g)), w1)"
  shows "run ctx [] (Suc n) st [t] w = run ctx [] n (apply_update u st) (next_tasks [(t, Inr (u, g))]) w1"
proof -
  have "run_tasks ctx [] st [t] w = (Inr [(t, Inr (u, g))], w1)"
    using assms by (simp add: run_tasks_single del: run_tasks.simps)
  then show ?thesis by (simp add: interrupts_def updates_def del: run_tasks.simps)
qed

lemma settles_task:
  assumes "returns (run_task ctx [] st t) (Inr (u, g))"
    and "settles ctx n (apply_update u st) (next_tasks [(t, Inr (u, g))]) P"
  shows "settles ctx (Suc n) st [t] P"
  unfolding settles_def
proof
  fix w
  obtain w1 where "run_task ctx [] st t w = (Inr (Inr (u, g)), w1)" using returnsD [OF assms(1)] by blast
  from run_one [OF this] show "\<exists>out w'. run ctx [] (Suc (Suc n)) st [t] w = (out, w') \<and> P out"
    using assms(2) unfolding settles_def by metis
qed

lemma settles_interrupt:
  assumes "returns (run_task ctx [] st t) (Inl p)" and "P (Interrupted st p)"
  shows "settles ctx (Suc n) st [t] P"
  unfolding settles_def
proof
  fix w
  obtain w1 where "run_task ctx [] st t w = (Inr (Inl p), w1)" using returnsD [OF assms(1)] by blast
  then have "run_tasks ctx [] st [t] w = (Inr [(t, Inl p)], w1)"
    by (simp add: run_tasks_single del: run_tasks.simps)
  then have "run ctx [] (Suc (Suc n)) st [t] w = (Interrupted st p, w1)"
    by (simp add: interrupts_def del: run_tasks.simps)
  then show "\<exists>out w'. run ctx [] (Suc (Suc n)) st [t] w = (out, w') \<and> P out" using assms(2) by auto
qed

lemma ref_names_state: "ref_names (package st) (extractions st) = screening_names st"
  by (cases "company_name (applicant (package st))")
    (simp_all add: ref_names_def screening_names_def initial_state_def Let_def)

text \<open>A run that ends with a decision: finished, or waiting for the reviewer.\<close>

definition ends_with :: "decision \<Rightarrow> run_outcome \<Rightarrow> bool" where
  "ends_with d out \<longleftrightarrow> decision (final_state out) = Some d
     \<and> (if outcome d = ESCALATE
        then (\<exists>s p. out = Interrupted s p \<and> status s = Some AWAITING_HUMAN_REVIEW)
        else (\<exists>s. out = Finished s \<and> status s = Some COMPLETED))"

definition ends_reading :: "extraction_result list \<Rightarrow> decision \<Rightarrow> run_outcome \<Rightarrow> bool" where
  "ends_reading es d out \<longleftrightarrow> ends_with d out \<and> extractions (final_state out) = es"

text \<open>Every owner name the screening reads is a string.\<close>

definition string_owners :: "kyc_package \<Rightarrow> extraction_result list \<Rightarrow> bool" where
  "string_owners p es \<longleftrightarrow> (case ref_names p es of
     Inl _ \<Rightarrow> True
   | Inr (persons, companies, owners) \<Rightarrow> owners = map JStr (map str_of owners))"

section \<open>Contexts with fixed answers\<close>

locale answering =
  fixes ctx :: "'w pipeline_context" and a :: answers
    and readable :: "input_document \<Rightarrow> document_type \<Rightarrow> bool"
  assumes safe: "safe_audit ctx" and patient: "0 \<le> retries ctx"
    and classify_answer: "returns (classify (services ctx) ds ct) (a_classify a ds ct)"
    and classify_ids: "map cd_document_id (a_classify a ds ct) = map document_id ds"
    and extract_answer: "readable d t \<Longrightarrow> returns (extract_fields (services ctx) d t) (a_extract a d t)"
    and extract_id: "readable d t \<Longrightarrow> er_document_id (a_extract a d t) = document_id d"
    and verify_answer: "readable d t \<Longrightarrow>
      returns (verify_grounding (services ctx) d (a_extract a d t)) (a_verify a d (a_extract a d t))"
    and narrate_answer: "returns (narrate (services ctx) ap ts fs) (a_narrate a ap ts fs)"
    and sanctions_answer: "returns (rs_search (sanctions ctx) (JStr n)) (a_sanctions a n)"
    and pep_answer: "returns (rs_search (pep ctx) (JStr n)) (a_pep a n)"
begin

lemmas log = returns_log [OF safe]
lemmas logs = returns_foreach [OF safe]

lemma intake_returns: "returns (intake ctx st) (no_update\<lparr>u_status := Some PROCESSING\<rparr>, Static)"
  unfolding intake_def by (rule returns_bind [OF log returns_ret])

lemma router_returns:
  "returns (router ctx st) (no_update\<lparr>u_classified := Some (a_classify a (documents (package st)) (customer_type (package st))),
     u_errors := [], u_retry := [(''router'', 1)]\<rparr>, Goto Orchestrator)"
  unfolding router_def Let_def
  apply (rule returns_bind [OF returns_resilient [OF classify_answer patient]])
  apply (simp only: sum.case prod.case list.size add_0)
  by (rule returns_bind [OF log returns_ret])

lemma orchestrator_incomplete:
  assumes "classified_documents st = Some cs" "package_check (package st) cs = Some f"
  shows "returns (orchestrator ctx st)
    (no_update\<lparr>u_degraded := map unreadable_reason (unknown_docs cs), u_completeness := Some (Some f)\<rparr>, Goto Decision_gate)"
  unfolding orchestrator_def Let_def assms(1) option.case
    assms(2) [unfolded package_check_def known_docs_def] unknown_docs_def [symmetric]
  by (rule returns_bind [OF logs]) (rule returns_bind [OF log returns_ret])

lemma orchestrator_complete:
  assumes "classified_documents st = Some cs" "package_check (package st) cs = None"
    and "make_tasks (case_id st) (docs_by_id (package st)) (known_docs cs) = Inr ts"
  shows "returns (orchestrator ctx st)
    (no_update\<lparr>u_degraded := map unreadable_reason (unknown_docs cs), u_completeness := Some None\<rparr>, Send ts)"
  unfolding orchestrator_def Let_def assms(1) option.case
    assms(2) [unfolded package_check_def known_docs_def] unknown_docs_def [symmetric]
  apply (rule returns_bind [OF logs])
  apply (rule returns_bind [OF log])
  by (rule returns_bind [OF returns_of_result returns_ret])
    (rule assms(3) [unfolded known_docs_def])

definition extracted :: "extract_task \<Rightarrow> extraction_result" where
  "extracted t = a_extract a (t_document t) (t_doc_type t)"

definition extraction_update :: "extract_task \<Rightarrow> kyc_update" where
  "extraction_update t = no_update\<lparr>u_extractions := [extracted t], u_errors := [],
     u_retry := [(extract_node t, 1)],
     u_degraded := (case extraction_error (extracted t) of None \<Rightarrow> []
       | Some e \<Rightarrow> [''document '' @ document_id (t_document t) @ '' unreadable: '' @ e])\<rparr>"

lemma extract_returns:
  assumes "readable (t_document t) (t_doc_type t)"
  shows "returns (extract_document ctx t) (extraction_update t, Static)"
  unfolding extract_document_def Let_def extraction_update_def extracted_def
  apply (rule returns_bind [OF returns_resilient [OF extract_answer [OF assms] patient]])
  apply (simp only: sum.case prod.case list.size add_0)
  by (rule returns_bind [OF log returns_ret])

text \<open>Extractions of the documents of a package.\<close>

definition own_extractions :: "(string, input_document) dict \<Rightarrow> extraction_result list \<Rightarrow> bool" where
  "own_extractions docs es \<longleftrightarrow> (\<forall>e \<in> set es. \<exists>d t. dict_get docs (er_document_id e) = Some d
     \<and> readable d t \<and> e = a_extract a d t)"

lemma grounding_returns:
  "own_extractions docs es \<Longrightarrow>
     returns (grounding_pass ctx cid docs es acc)
       (Inr (acc @ concat (map (\<lambda>e. a_verify a (the (dict_get docs (er_document_id e))) e) (filter usable es))))"
proof (induction es arbitrary: acc)
  case (Cons e es)
  then have own: "own_extractions docs es" by (simp add: own_extractions_def)
  obtain d t where d: "dict_get docs (er_document_id e) = Some d" "readable d t" "e = a_extract a d t"
    using Cons.prems by (auto simp: own_extractions_def)
  have step: "returns (resilient VALIDATOR ''validator'' (verify_grounding (services ctx) d e) fb (retries ctx))
      (Inr (a_verify a d e, []))" for fb
    using returns_resilient [OF verify_answer [OF d(2)] patient] d(3) by simp
  show ?case
  proof (cases "extraction_error e = None")
    case True
    have "returns (grounding_pass ctx cid docs (e # es) acc)
        (Inr ((acc @ a_verify a d e) @ concat (map (\<lambda>e. a_verify a (the (dict_get docs (er_document_id e))) e) (filter usable es))))"
      using True d(1)
      apply simp
      apply (rule returns_bind [OF step])
      apply simp
      using Cons.IH [OF own, of "acc @ a_verify a d e"] by simp
    moreover have "usable e" using True by (simp add: usable_def)
    ultimately show ?thesis using d(1) by simp
  next
    case False
    then have "\<not> usable e" by (simp add: usable_def)
    then show ?thesis using False Cons.IH [OF own] by simp
  qed
qed (simp add: returns_ret)

lemma validator_returns:
  assumes "own_extractions (docs_by_id (package st)) (extractions st)"
    and "ref_report ctx a (package st) (extractions st) = Inr v"
  shows "returns (validator ctx st) (no_update\<lparr>u_validation := Some v\<rparr>, Goto Risk_scorer)"
proof -
  let ?g = "if evaluator_enabled ctx then ref_grounding a (package st) (extractions st) else []"
  obtain checks rflags where rules: "run_validation_rules (applicant (package st)) (extractions st) (today ctx)
      (match_thresholds_of (cx_settings ctx)) = Inr (checks, rflags)"
    and v: "v = report_of ctx (extractions st) checks rflags ?g"
    using assms(2) by (auto simp: ref_report_def map_sum_Inr)
  have g: "returns (ground ctx st) (Inr ?g)"
    using grounding_returns [OF assms(1), of "case_id st" "[]"]
    by (simp add: ground_def ref_grounding_def doc_of_def returns_ret)
  show ?thesis
    unfolding validator_def Let_def rules
    apply (rule returns_bind [OF returns_of_result [OF refl]])
    apply (simp only: prod.case)
    apply (rule returns_bind [OF g])
    apply (simp only: sum.case v [symmetric])
    apply (rule returns_bind [OF returns_unit [OF total_log_flags [OF safe]]])
    by (rule returns_bind [OF log returns_ret])
qed

lemma screen_returns:
  assumes "\<And>n. returns (rs_search client (JStr n)) (f n)"
  shows "returns (screen ctx client (map JStr names) cid hits) (hits @ hits_of f names, True)"
proof (induction names arbitrary: hits)
  case (Cons n names)
  show ?case
    apply simp
    apply (rule returns_bind [OF returns_resilient [OF assms patient]])
    apply simp
    apply (rule returns_bind [OF log])
    using Cons.IH [of "hits @ f n"] by (simp add: hits_of_def)
qed (simp add: returns_ret hits_of_def)

lemmas screen_sanctions = screen_returns [OF sanctions_answer, where hits = "[]", unfolded append_Nil]
lemmas screen_pep = screen_returns [OF pep_answer, where hits = "[]", unfolded append_Nil]

lemma ubo_returns:
  "returns (ubo_screen ctx (map JStr owners) cid)
     ((hits_of (a_sanctions a) owners, True), (hits_of (a_pep a) owners, True))"
proof (cases "owners = []")
  case False
  then show ?thesis
    unfolding ubo_screen_def map_is_Nil_conv
    by (simp only: if_False) (rule returns_bind [OF screen_sanctions] returns_bind [OF screen_pep] returns_ret)+
qed (simp add: ubo_screen_def returns_ret hits_of_def)

definition ref_screening :: "string list \<Rightarrow> string list \<Rightarrow> string list \<Rightarrow> screening" where
  "ref_screening persons companies owners =
     (hits_of (a_sanctions a) (persons @ companies), hits_of (a_pep a) persons,
      hits_of (a_sanctions a) owners @ hits_of (a_pep a) owners, [])"

lemma screen_all_returns:
  assumes "screening_names st = Inr (persons, companies, map JStr owners)"
  shows "returns (screen_all ctx st) (ref_screening persons companies owners)"
  unfolding screen_all_def Let_def assms ref_screening_def
  apply (rule returns_bind [OF returns_of_result [OF refl]])
  apply (simp only: prod.case)
  apply (rule returns_bind [OF screen_sanctions])
  apply (simp only: prod.case)
  apply (rule returns_bind [OF screen_pep])
  apply (simp only: prod.case)
  apply (rule returns_bind [OF ubo_returns])
  by (simp add: returns_ret)

lemma risk_returns:
  assumes "screening_names st = Inr (persons, companies, map JStr owners)"
    and "triggers_of ctx st (ref_screening persons companies owners) = ts"
  shows "\<exists>nar. returns (risk_scorer ctx st)
     (no_update\<lparr>u_risk := Some (assessment_of ts (ref_screening persons companies owners) nar)\<rparr>, Static)"
proof -
  obtain sh ph uh un where sc: "ref_screening persons companies owners = (sh, ph, uh, un)" by (metis prod_cases4)
  let ?nar = "a_narrate a (applicant (package st)) ts (validation_flags st)"
  have "returns (risk_scorer ctx st) (no_update\<lparr>u_risk := Some (assessment_of ts (sh, ph, uh, un) ?nar)\<rparr>, Static)"
    unfolding risk_scorer_def Let_def
    apply (rule returns_bind [OF screen_all_returns [OF assms(1)]])
    apply (simp only: sc prod.case assms(2) [unfolded sc])
    apply (rule returns_bind [OF returns_resilient [OF narrate_answer patient]])
    apply (simp only: sum.case prod.case)
    apply (rule returns_bind [OF returns_unit [OF total_log_flags [OF safe]]])
    by (rule returns_bind [OF log returns_ret])
  then show ?thesis unfolding sc by blast
qed

lemma gate_returns:
  "outcome (gate_decision st) = ESCALATE \<Longrightarrow> returns (decision_gate ctx st)
     (no_update\<lparr>u_decision := Some (gate_decision st), u_status := Some AWAITING_HUMAN_REVIEW\<rparr>, Goto Human_review)"
  "outcome (gate_decision st) \<noteq> ESCALATE \<Longrightarrow> returns (decision_gate ctx st)
     (no_update\<lparr>u_decision := Some (gate_decision st)\<rparr>, Goto Auto_decision)"
  unfolding decision_gate_def Let_def by (simp_all only: if_True if_False simp_thms) (rule returns_bind [OF log returns_ret])+

lemma auto_returns: "decision st = Some d \<Longrightarrow> returns (auto_decision ctx st) (no_update, Static)"
  unfolding auto_decision_def by (simp only: option.case) (rule returns_bind [OF log returns_ret])

lemma finalize_returns:
  "decision st = Some d \<Longrightarrow> returns (finalize ctx st) (no_update\<lparr>u_status := Some COMPLETED\<rparr>, Static)"
  unfolding finalize_def by (simp only: option.case) (rule returns_bind [OF log returns_ret])

lemma review_returns: "returns (human_review ctx [] st) (Inl (review_payload_of st None))"
  by (simp add: human_review_def returns_ret)

section \<open>From the gate to the end\<close>

lemma node_task: "returns (run_task ctx [] st (TNode n)) (Inr c)"
  if "n = Intake \<Longrightarrow> returns (intake ctx st) c" "n = Router \<Longrightarrow> returns (router ctx st) c"
    "n = Orchestrator \<Longrightarrow> returns (orchestrator ctx st) c" "n = Validator \<Longrightarrow> returns (validator ctx st) c"
    "n = Risk_scorer \<Longrightarrow> returns (risk_scorer ctx st) c" "n = Decision_gate \<Longrightarrow> returns (decision_gate ctx st) c"
    "n = Auto_decision \<Longrightarrow> returns (auto_decision ctx st) c" "n = Finalize \<Longrightarrow> returns (finalize ctx st) c"
    "n \<notin> {Extract_document, Human_review, Handle_error}"
  for n c using that by (cases n) (auto intro: returns_amap)

lemma gate_settles:
  assumes "gate_decision st = d" "extractions st = es"
  shows "settles ctx (Suc (Suc (Suc n))) st [TNode Decision_gate] (ends_reading es d)"
proof (cases "outcome d = ESCALATE")
  case True
  show ?thesis
    apply (rule settles_task [where u = "no_update\<lparr>u_decision := Some d, u_status := Some AWAITING_HUMAN_REVIEW\<rparr>" and g = "Goto Human_review"])
     apply (rule node_task; simp add: gate_returns assms(1) [symmetric] True [folded assms(1)])
    apply (simp only: next_single)
    apply (rule settles_interrupt)
     apply (simp only: run_task.simps, rule review_returns)
    by (simp add: ends_reading_def ends_with_def assms(2) True no_update_def)
next
  case False
  show ?thesis
    apply (rule settles_task [where u = "no_update\<lparr>u_decision := Some d\<rparr>" and g = "Goto Auto_decision"])
     apply (rule node_task; simp add: gate_returns assms(1) [symmetric] False [folded assms(1)])
    apply (simp only: next_single)
    apply (rule settles_task [where u = no_update and g = Static])
     apply (rule node_task; simp add: auto_returns [where d = d])
    apply (simp only: next_single task_node.simps static_edge.simps option.case)
    apply (rule settles_task [where u = "no_update\<lparr>u_status := Some COMPLETED\<rparr>" and g = Static])
     apply (rule node_task; simp add: finalize_returns [where d = d])
    apply (simp only: next_single task_node.simps static_edge.simps option.case)
    by (rule settles_end) (simp add: ends_reading_def ends_with_def assms(2) False no_update_def)
qed

section \<open>From the validator to the end\<close>

lemma risk_settles:
  assumes "validation st = Some v" "completeness_flag st = None" "package st = p" "extractions st = es"
    and "ref_names p es = Inr (persons, companies, map JStr owners)"
    and "is_degraded st \<longleftrightarrow> degraded"
  shows "settles ctx (Suc (Suc (Suc (Suc n)))) st [TNode Risk_scorer]
    (ends_reading es (decide_gate None (rule_flags v) (ref_triggers ctx a p v (persons, companies, map JStr owners)) degraded))"
proof -
  let ?sc = "ref_screening persons companies owners"
  have names: "screening_names st = Inr (persons, companies, map JStr owners)"
    using assms(3-5) ref_names_state [of st] by simp
  have trig: "triggers_of ctx st ?sc = ref_triggers ctx a p v (persons, companies, map JStr owners)"
    using assms(1,3)
    by (simp add: triggers_of_def ref_triggers_def ref_screening_def state_confidence_def
        validation_flags_def comp_def)
  obtain nar where risk: "returns (risk_scorer ctx st)
      (no_update\<lparr>u_risk := Some (assessment_of (ref_triggers ctx a p v (persons, companies, map JStr owners)) ?sc nar)\<rparr>, Static)"
    (is "returns _ (?u, _)")
    using risk_returns [OF names trig] by blast
  have "gate_decision (apply_update ?u st) =
      decide_gate None (rule_flags v) (ref_triggers ctx a p v (persons, companies, map JStr owners)) degraded"
    using assms(1,2,6)
    by (simp add: gate_decision_def validation_flags_def state_triggers_def is_degraded_apply
        assessment_of_def split: prod.split)
  then show ?thesis
    apply (intro settles_task [where u = ?u and g = Static])
     apply (rule node_task; simp add: risk)
    apply (simp only: next_single task_node.simps static_edge.simps option.case)
    by (rule gate_settles) (simp_all add: assms(4))
qed

lemma validator_settles:
  assumes "completeness_flag st = None" "package st = p" "extractions st = es"
    and "own_extractions (docs_by_id p) es" and "ref_report ctx a p es = Inr v"
    and "ref_names p es = Inr (persons, companies, map JStr owners)"
    and "is_degraded st \<longleftrightarrow> degraded"
  shows "settles ctx (Suc (Suc (Suc (Suc (Suc n))))) st [TNode Validator]
    (ends_reading es (decide_gate None (rule_flags v) (ref_triggers ctx a p v (persons, companies, map JStr owners)) degraded))"
proof -
  have v: "returns (validator ctx st) (no_update\<lparr>u_validation := Some v\<rparr>, Goto Risk_scorer)"
    using validator_returns [of st v] assms(2-5) by simp
  show ?thesis
    apply (rule settles_task [where u = "no_update\<lparr>u_validation := Some v\<rparr>" and g = "Goto Risk_scorer"])
     apply (rule node_task; simp add: v)
    apply (simp only: next_single)
    by (rule risk_settles) (use assms in \<open>simp_all add: is_degraded_apply\<close>)
qed

section \<open>From the start to the end\<close>

lemma workers_run:
  assumes "\<forall>t \<in> set ts. readable (t_document t) (t_doc_type t)"
  shows "\<exists>w'. run_tasks ctx [] st (map TWorker ts) w =
     (Inr (map (\<lambda>t. (TWorker t, Inr (extraction_update t, Static))) ts), w')"
  using assms
proof (induction ts arbitrary: w)
  case (Cons t ts)
  obtain w1 where w1: "extract_document ctx t w = (Inr (extraction_update t, Static), w1)"
    using returnsD [OF extract_returns] Cons.prems by fastforce
  obtain w2 where "run_tasks ctx [] st (map TWorker ts) w1 =
      (Inr (map (\<lambda>t. (TWorker t, Inr (extraction_update t, Static))) ts), w2)"
    using Cons by auto
  then show ?case using w1 by (simp add: abind_def amap_def ret_def)
qed (simp add: ret_def)

lemma workers_settles:
  assumes "\<forall>t \<in> set ts. readable (t_document t) (t_doc_type t)" "ts \<noteq> []"
    and "settles ctx n (apply_updates (map extraction_update ts) st) [TNode Validator] P"
  shows "settles ctx (Suc n) st (map TWorker ts) P"
  unfolding settles_def
proof
  fix w
  let ?rs = "map (\<lambda>t. (TWorker t, Inr (extraction_update t, Static))) ts :: results"
  obtain w1 where w1: "run_tasks ctx [] st (map TWorker ts) w = (Inr ?rs, w1)"
    using workers_run [OF assms(1)] by blast
  have "interrupts ?rs = []" by (induction ts) (simp_all add: interrupts_def)
  moreover have "updates ?rs = map extraction_update ts" by (induction ts) (simp_all add: updates_def)
  moreover have "next_tasks ?rs = [TNode Validator]"
  proof -
    obtain k where k: "length ts = Suc k" using assms(2) by (cases ts) auto
    have "concat (map (\<lambda>(t, r). case r of Inl _ \<Rightarrow> [] | Inr (u, g) \<Rightarrow> goto_nodes t g) ?rs)
        = replicate (length ?rs) Validator"
      by (rule concat_singletons) (auto simp: goto_nodes_def)
    moreover have "concat (map (\<lambda>(t, r). case r of Inr (u, Send ts) \<Rightarrow> map TWorker ts | _ \<Rightarrow> []) ?rs) = []"
      by simp
    ultimately show ?thesis by (simp only: next_tasks_def length_map k remdups_replicate) simp
  qed
  ultimately have "run ctx [] (Suc (Suc n)) st (map TWorker ts) w =
      run ctx [] (Suc n) (apply_updates (map extraction_update ts) st) [TNode Validator] w1"
    using w1 assms(2) by (cases ts) (simp_all del: run_tasks.simps)
  then show "\<exists>out w'. run ctx [] (Suc (Suc n)) st (map TWorker ts) w = (out, w') \<and> P out"
    using assms(3) unfolding settles_def by metis
qed

lemma tasks_documents:
  assumes "make_tasks cid (docs_by_id p) ks = Inr ts"
  shows "map extracted ts = map (\<lambda>c. a_extract a (doc_of p (cd_document_id c)) (cd_doc_type c)) ks"
    and "\<forall>t \<in> set ts. \<exists>c \<in> set ks. t_document t = doc_of p (cd_document_id c) \<and> t_doc_type t = cd_doc_type c
           \<and> dict_get (docs_by_id p) (cd_document_id c) = Some (t_document t)"
proof -
  have all: "list_all2 (\<lambda>t k. t_case_id t = cid \<and> dict_get (docs_by_id p) (cd_document_id k) = Some (t_document t)
      \<and> t_doc_type t = cd_doc_type k) ts ks" by (rule make_tasks_tasks [OF assms])
  show "map extracted ts = map (\<lambda>c. a_extract a (doc_of p (cd_document_id c)) (cd_doc_type c)) ks"
    using all by (induction rule: list_all2_induct) (simp_all add: extracted_def doc_of_def)
  show "\<forall>t \<in> set ts. \<exists>c \<in> set ks. t_document t = doc_of p (cd_document_id c) \<and> t_doc_type t = cd_doc_type c
           \<and> dict_get (docs_by_id p) (cd_document_id c) = Some (t_document t)"
    using all by (induction rule: list_all2_induct) (auto simp: doc_of_def)
qed

lemma worker_extraction_update: "worker_update (extraction_update t)"
  by (simp add: worker_update_def extraction_update_def)

lemma extraction_updates:
  "concat (map u_extractions (map extraction_update ts)) = map extracted ts"
  "concat (map u_degraded (map extraction_update ts)) = [] \<longleftrightarrow> (\<forall>t \<in> set ts. extraction_error (extracted t) = None)"
  by (induction ts) (auto simp: extraction_update_def split: option.splits)

lemma orchestrator_settles:
  assumes cs: "classified_documents st = Some cs" "map cd_document_id cs = map document_id (documents p)"
    and st: "package st = p" "validation st = None" "risk st = None" "extractions st = []" "degraded_reasons st = []"
    and readable: "\<forall>c \<in> set (known_docs cs). readable (doc_of p (cd_document_id c)) (cd_doc_type c)"
    and complete: "package_check p cs = None"
    and es: "es = ref_extractions a p cs"
    and v: "ref_report ctx a p es = Inr v" and ns: "ref_names p es = Inr (persons, companies, map JStr owners)"
  shows "settles ctx (Suc (Suc (Suc (Suc (Suc (Suc (Suc n))))))) st [TNode Orchestrator]
    (ends_reading es (decide_gate None (rule_flags v) (ref_triggers ctx a p v (persons, companies, map JStr owners))
      (unknown_docs cs \<noteq> [] \<or> (\<exists>e \<in> set es. extraction_error e \<noteq> None))))"
proof -
  have "\<forall>c \<in> set (known_docs cs). cd_document_id c \<in> document_id ` set (documents p)"
    using cs(2) by (metis (no_types, lifting) filter_is_subset image_eqI known_docs_def list.set_map subsetD)
  then obtain ts where ts: "make_tasks (case_id st) (docs_by_id p) (known_docs cs) = Inr ts"
    using make_tasks_known by blast
  note docs = tasks_documents [OF ts]
  have ne: "ts \<noteq> []" using make_tasks_length [OF ts] complete_known_docs [OF complete] by auto
  have read: "\<forall>t \<in> set ts. readable (t_document t) (t_doc_type t)" using docs(2) readable by fastforce
  have es': "map extracted ts = es" using docs(1) by (simp add: es ref_extractions_def)
  let ?u = "no_update\<lparr>u_degraded := map unreadable_reason (unknown_docs cs), u_completeness := Some None\<rparr>"
  let ?st = "apply_updates (map extraction_update ts) (apply_update ?u st)"
  have st': "?st = (apply_update ?u st)\<lparr>extractions := es, errors := errors ?st, retry_counts := retry_counts ?st,
      degraded_reasons := map unreadable_reason (unknown_docs cs) @ concat (map u_degraded (map extraction_update ts))\<rparr>"
    using st es' extraction_updates(1) [of ts]
    by (subst (1 2 3) apply_updates_workers) (simp_all add: worker_extraction_update)
  have own: "own_extractions (docs_by_id p) es"
    unfolding own_extractions_def
  proof
    fix e assume "e \<in> set es"
    then obtain t where t: "t \<in> set ts" "e = extracted t" using es' by auto
    obtain c :: classified_document where c: "dict_get (docs_by_id p) (cd_document_id c) = Some (t_document t)"
      using bspec [OF docs(2) t(1)] by blast
    then have "document_id (t_document t) = cd_document_id c" using docs_by_id_key by blast
    moreover have "er_document_id e = document_id (t_document t)"
      using extract_id read t by (simp add: extracted_def)
    ultimately show "\<exists>d t. dict_get (docs_by_id p) (er_document_id e) = Some d \<and> readable d t \<and> e = a_extract a d t"
      using c read t by (auto simp: extracted_def)
  qed
  have deg: "is_degraded ?st \<longleftrightarrow> unknown_docs cs \<noteq> [] \<or> (\<exists>e \<in> set es. extraction_error e \<noteq> None)"
    unfolding is_degraded_def by (subst st') (use extraction_updates(2) [of ts] es' in auto)
  have orch: "returns (orchestrator ctx st) (?u, Send ts)"
    by (rule orchestrator_complete) (simp_all add: cs(1) st(1) complete ts)
  show ?thesis
    apply (rule settles_task [where u = ?u and g = "Send ts"])
     apply (rule node_task; simp add: orch)
    apply (simp only: next_single)
    apply (rule workers_settles [OF read ne])
    by (rule validator_settles [OF _ _ _ own v ns deg]; subst st'; simp add: st)
qed

lemma incomplete_settles:
  assumes cs: "classified_documents st = Some cs" "package_check (package st) cs = Some f"
    and st: "validation st = None" "risk st = None" "degraded_reasons st = []" "extractions st = []"
  shows "settles ctx (Suc (Suc (Suc (Suc n)))) st [TNode Orchestrator]
    (ends_reading [] (decide_gate (Some f) [] [] (unknown_docs cs \<noteq> [])))"
proof -
  let ?u = "no_update\<lparr>u_degraded := map unreadable_reason (unknown_docs cs), u_completeness := Some (Some f)\<rparr>"
  have orch: "returns (orchestrator ctx st) (?u, Goto Decision_gate)" by (rule orchestrator_incomplete [OF cs])
  have "gate_decision (apply_update ?u st) = decide_gate (Some f) [] [] (unknown_docs cs \<noteq> [])"
    using st by (simp add: gate_decision_def validation_flags_def state_triggers_def is_degraded_def)
  then show ?thesis
    apply (intro settles_task [where u = ?u and g = "Goto Decision_gate"])
     apply (rule node_task; simp add: orch)
    apply (simp only: next_single)
    by (rule gate_settles) (simp_all add: st(4))
qed

text \<open>The graph decides what the reference decides, whatever the world.\<close>

lemma run_refines:
  assumes "ref_decision ctx a p = Inr d" and "10 \<le> limit_of ctx"
    and "cs = a_classify a (documents p) (customer_type p)"
    and "\<forall>c \<in> set (known_docs cs). readable (doc_of p (cd_document_id c)) (cd_doc_type c)"
    and "string_owners p (ref_extractions a p cs)"
  shows "\<exists>out w'. invoke ctx (initial_state cid p s) w = (out, w')
    \<and> ends_reading (if package_check p cs = None then ref_extractions a p cs else []) d out"
proof -
  obtain n where n: "limit_of ctx = Suc (Suc (Suc (Suc (Suc (Suc (Suc (Suc (Suc (Suc n)))))))))"
    using le_Suc_ex [OF assms(2)] by (auto simp: numeral_eq_Suc)
  let ?u1 = "no_update\<lparr>u_status := Some PROCESSING\<rparr>"
  let ?u2 = "no_update\<lparr>u_classified := Some cs, u_errors := [], u_retry := [(''router'', 1)]\<rparr>"
  let ?st = "apply_update ?u2 (apply_update ?u1 (initial_state cid p s))"
  have st: "classified_documents ?st = Some cs" "package ?st = p" "validation ?st = None" "risk ?st = None"
    "extractions ?st = []" "degraded_reasons ?st = []"
    by (simp_all add: initial_state_def)
  let ?es = "if package_check p cs = None then ref_extractions a p cs else []"
  have "settles ctx (Suc (Suc (Suc (Suc (Suc (Suc (Suc n))))))) ?st [TNode Orchestrator] (ends_reading ?es d)"
  proof (cases "package_check p cs")
    case None
    obtain v persons companies owners where v: "ref_report ctx a p (ref_extractions a p cs) = Inr v"
      "ref_names p (ref_extractions a p cs) = Inr (persons, companies, owners)"
      and d: "d = decide_gate None (rule_flags v) (ref_triggers ctx a p v (persons, companies, owners))
         (unknown_docs cs \<noteq> [] \<or> (\<exists>e \<in> set (ref_extractions a p cs). extraction_error e \<noteq> None))"
      using assms(1) None by (auto simp: ref_decision_def Let_def assms(3) split: sum.splits)
    have o: "owners = map JStr (map str_of owners)" using assms(5) v(2) unfolding string_owners_def by simp
    have es: "?es = ref_extractions a p cs" using None by simp
    show ?thesis
      unfolding d es using assms(3) classify_ids None st assms(4) v(1) v(2) o
      by (intro orchestrator_settles [where owners = "map str_of owners", folded o]) simp_all
  next
    case (Some f)
    then have d: "d = decide_gate (Some f) [] [] (unknown_docs cs \<noteq> [])"
      using assms(1) by (simp add: ref_decision_def Let_def assms(3))
    have es: "?es = []" using Some by simp
    show ?thesis unfolding d es by (rule incomplete_settles) (simp_all add: initial_state_def Some)
  qed
  then have "settles ctx (Suc (Suc (Suc (Suc (Suc (Suc (Suc (Suc (Suc n))))))))) (initial_state cid p s) [TNode Intake] (ends_reading ?es d)"
    apply (intro settles_task [where u = ?u1 and g = Static])
     apply (rule node_task; simp add: intake_returns)
    apply (simp only: next_single task_node.simps static_edge.simps option.case)
    apply (rule settles_task [where u = ?u2 and g = "Goto Orchestrator"])
     apply (rule node_task; use router_returns [of "apply_update ?u1 (initial_state cid p s)"] in \<open>simp add: initial_state_def assms(3)\<close>)
    by (simp only: next_single)
  then show ?thesis unfolding settles_def invoke_def start_tasks_def n by blast
qed

end

section \<open>The offline context\<close>

definition client_hits :: "registry_client \<Rightarrow> string \<Rightarrow> registry_hit list" where
  "client_hits c n = projr (fst (search c n 0))"

definition offline_answers :: answers where
  "offline_answers =
     \<lparr>a_classify = (\<lambda>ds ct. map fake_classify_one ds),
      a_extract = (\<lambda>d t. projr (fake_extraction d t)),
      a_verify = (\<lambda>d e. projr (verify_fields (haystack (text_content d)) e (er_fields e))),
      a_narrate = fake_narration,
      a_sanctions = client_hits (build_sanctions_client 0 (\<lambda>_. 0)),
      a_pep = client_hits (build_pep_client 0 (\<lambda>_. 0))\<rparr>"

definition offline_readable :: "input_document \<Rightarrow> document_type \<Rightarrow> bool" where
  "offline_readable d t \<longleftrightarrow>
     (case fake_extraction d t of Inl _ \<Rightarrow> False
      | Inr e \<Rightarrow> \<not> isl (verify_fields (haystack (text_content d)) e (er_fields e)))"

lemma offline_readableE:
  assumes "offline_readable d t"
  obtains e fs where "fake_extraction d t = Inr e" "verify_fields (haystack (text_content d)) e (er_fields e) = Inr fs"
  using assms that
  by (cases "fake_extraction d t")
    (auto simp: offline_readable_def isl_def, metis sum.collapse(2) isl_def)

lemma zoom_returns:
  assumes "returns m x"
  shows "returns (zoom part back m) x"
  unfolding returns_def
proof
  fix w
  obtain v where "m (part w) = (Inr x, v)" using returnsD [OF assms] by blast
  then show "\<exists>w'. zoom part back m w = (Inr x, w')" by (simp add: zoom_def)
qed

lemma search_returns:
  assumes "rc_failure_rate c \<le> 0" "rc_registry c = rc_registry c0" "rc_entries c = rc_entries c0"
    "rc_threshold c = rc_threshold c0" "rc_failure_rate c0 \<le> 0"
  shows "returns (search_json c (JStr n)) (client_hits c0 n)"
proof -
  have "entry_hit c = entry_hit c0" by (intro ext) (simp add: entry_hit_def assms)
  then show ?thesis
    using assms by (simp add: returns_def search_json_def client_hits_def search_def Let_def)
qed

lemma offline_answering:
  assumes "registry_failure_rate s \<le> 0" and "0 \<le> max_step_retries s"
  shows "answering (offline_context env s td en) offline_answers offline_readable"
proof
  show "safe_audit (offline_context env s td en)" by (simp add: offline_context_def context_with_safe)
  show "0 \<le> retries (offline_context env s td en)" using assms(2) by (simp add: offline_context_def)
  show "map cd_document_id (a_classify offline_answers ds ct) = map document_id ds" for ds ct
    by (simp add: offline_answers_def fake_classify_one_def split: prod.splits)
  show "returns (classify (services (offline_context env s td en)) ds ct) (a_classify offline_answers ds ct)" for ds ct
    by (simp add: offline_context_def offline_answers_def fake_classify_def returns_ret)
  show "returns (extract_fields (services (offline_context env s td en)) d t) (a_extract offline_answers d t)"
    if "offline_readable d t" for d t
    using that by (rule offline_readableE) (simp add: offline_context_def offline_answers_def fake_extract_def returns_of_result)
  show "er_document_id (a_extract offline_answers d t) = document_id d" if "offline_readable d t" for d t
    using that
    by (rule offline_readableE) (use fake_extraction_for in \<open>auto simp: offline_answers_def extraction_for_def\<close>)
  show "returns (verify_grounding (services (offline_context env s td en)) d (a_extract offline_answers d t))
      (a_verify offline_answers d (a_extract offline_answers d t))" if "offline_readable d t" for d t
    using that by (rule offline_readableE) (simp add: offline_context_def offline_answers_def fake_verify_def returns_of_result)
  show "returns (narrate (services (offline_context env s td en)) ap ts fs) (a_narrate offline_answers ap ts fs)" for ap ts fs
    by (simp add: offline_context_def offline_answers_def fake_narrate_def returns_ret)
  show "returns (rs_search (sanctions (offline_context env s td en)) (JStr n)) (a_sanctions offline_answers n)" for n
    unfolding offline_context_def sanctions_context sanctions_service_def registry_service.simps offline_answers_def answers.simps
    by (intro zoom_returns search_returns) (simp_all add: assms(1) build_sanctions_client_def)
  show "returns (rs_search (pep (offline_context env s td en)) (JStr n)) (a_pep offline_answers n)" for n
    unfolding offline_context_def sanctions_context pep_service_def registry_service.simps offline_answers_def answers.simps
    by (intro zoom_returns search_returns) (simp_all add: assms(1) build_pep_client_def)
qed

interpretation off: answering "offline_context env default_settings td en" offline_answers offline_readable for env td en
  by (rule offline_answering) (simp_all add: default_settings_def)

end
