(* ===== verification/Offline.thy ===== *)
theory Offline
  imports Reference Typed
begin

text \<open>
  The offline pipeline on plain documents: texts without injected markers, whose ownership
  percentages are numbers. On these the scripted services never raise, the reference has a
  decision, and the graph ends with it.
\<close>

section \<open>Plain documents\<close>

definition plain_document :: "input_document \<Rightarrow> bool" where
  "plain_document d \<longleftrightarrow> no_glitch (text_content d)
     \<and> (\<forall>c \<in> set (finditer owner_re True (text_content d)). \<not> isl (parse_pct (group ''pct'' c)))"

lemma owners_of_Inr: "\<forall>c \<in> set cs. \<not> isl (parse_pct (group ''pct'' c)) \<Longrightarrow> \<exists>os. owners_of cs = Inr os"
proof (induction cs)
  case (Cons c cs)
  then obtain p where "parse_pct (group ''pct'' c) = Inr p" by (auto simp: isl_def) (metis sum.exhaust)
  then show ?case using Cons by auto
qed simp

lemma plain_extraction:
  assumes "plain_document d"
  shows "\<exists>e. fake_extraction d t = Inr e"
proof -
  obtain os where os: "owners_of (finditer owner_re True (text_content d)) = Inr os"
    using assms owners_of_Inr unfolding plain_document_def by blast
  then obtain acc where "add_owner_list (text_content d) t (label_fields (text_content d) t ([], [])) = Inr acc"
    by (cases "t = UBO_DECLARATION") (simp_all add: add_owner_list_def)
  then show ?thesis by (simp add: fake_extraction_def split: prod.split)
qed

lemma plain_readable:
  assumes "plain_document d"
  shows "offline_readable d t"
proof -
  have ng: "no_glitch (text_content d)" using assms by (simp add: plain_document_def)
  obtain e where e: "fake_extraction d t = Inr e" using plain_extraction [OF assms] by blast
  have "fake_verify d e () = (Inr [], ())" by (rule fake_verify_own [OF e ng])
  then have "verify_fields (haystack (text_content d)) e (er_fields e) = Inr []"
    by (simp add: fake_verify_def of_result_def)
  then show ?thesis by (simp add: offline_readable_def e isl_def)
qed

section \<open>Names of typed extractions\<close>

lemma owner_name_str: "owner_typed x \<Longrightarrow> owner_name x = Some n \<Longrightarrow> \<exists>s. n = JStr s"
proof (cases x)
  case (JObj d)
  assume "owner_typed x" "owner_name x = Some n"
  then have "str_or_none (Some n)" "n \<noteq> JNull" using JObj by (auto split: if_splits)
  then show ?thesis by (cases n) simp_all
qed simp_all

definition all_strings :: "jval list \<Rightarrow> bool" where
  "all_strings vs \<longleftrightarrow> vs = map JStr (map str_of vs)"

lemma all_strings_Nil [simp]: "all_strings []"
  by (simp add: all_strings_def)

lemma all_strings_iff: "all_strings vs \<longleftrightarrow> (\<forall>v \<in> set vs. \<exists>s. v = JStr s)"
proof
  assume "all_strings vs"
  then have "set vs = JStr ` set (map str_of vs)" unfolding all_strings_def by (metis set_map)
  then show "\<forall>v \<in> set vs. \<exists>s. v = JStr s" by auto
next
  assume "\<forall>v \<in> set vs. \<exists>s. v = JStr s"
  then show "all_strings vs" by (auto simp: all_strings_def intro!: nth_equalityI) (metis nth_mem str_of.simps(1))
qed

lemma all_strings_add: "all_strings vs \<Longrightarrow> all_strings (add_key (JStr s) vs)"
  by (auto simp: all_strings_iff add_key_def)

lemma add_owners_strings:
  "\<forall>x \<in> set xs. owner_typed x \<Longrightarrow> all_strings os \<Longrightarrow> add_owners xs os = Inr os' \<Longrightarrow> all_strings os'"
proof (induction xs arbitrary: os)
  case (Cons x xs)
  show ?case
  proof (cases "owner_name x")
    case None
    then show ?thesis using Cons by simp
  next
    case (Some n)
    then obtain s where "n = JStr s" using owner_name_str Cons.prems(1) by auto
    then show ?thesis using Cons.IH [OF _ all_strings_add [OF Cons.prems(2)]] Cons.prems Some by (simp add: hashable.simps)
  qed
qed simp

lemma add_names_strings:
  assumes "typed_extraction e" "all_strings os" "add_names e (p, c, os) = Inr (p', c', os')"
  shows "all_strings os'"
proof (cases "extraction_error e = None")
  case True
  then have "owners_typed (dict_get (er_fields e) ''beneficial_owners'')"
    using assms(1) by (simp add: typed_extraction_def typed_fields_def)
  then obtain items where items: "owner_items (dict_get (er_fields e) ''beneficial_owners'') = Inr items"
    "\<forall>x \<in> set items. owner_typed x" by (rule owner_items_typed)
  then have "add_owners items os = Inr os'"
    using assms(3) True by (auto simp: add_names_def Let_def split: sum.splits)
  then show ?thesis using add_owners_strings items(2) assms(2) by blast
next
  case False
  then show ?thesis using assms by (simp add: add_names_def)
qed

lemma add_all_names_strings:
  "\<forall>e \<in> set es. typed_extraction e \<Longrightarrow> all_strings os \<Longrightarrow> add_all_names es (p, c, os) = Inr (p', c', os')
    \<Longrightarrow> all_strings os'"
proof (induction es arbitrary: p c os)
  case (Cons e es)
  obtain p1 c1 os1 where one: "add_names e (p, c, os) = Inr (p1, c1, os1)" "add_all_names es (p1, c1, os1) = Inr (p', c', os')"
    using Cons.prems(3) by (auto split: sum.splits)
  show ?case using Cons.IH [OF _ _ one(2)] add_names_strings [OF _ _ one(1)] Cons.prems by simp
qed simp

lemma names_strings:
  assumes "\<forall>e \<in> set es. typed_extraction e"
  shows "string_owners p es"
proof (cases "ref_names p es")
  case (Inr ns)
  obtain ps cs os where ns: "ns = (ps, cs, os)" by (cases ns)
  have "all_strings os"
    using Inr unfolding ns ref_names_def screening_names_def Let_def
    by (intro add_all_names_strings [OF assms all_strings_Nil]) (simp add: initial_state_def)
  then show ?thesis by (simp add: string_owners_def Inr ns all_strings_def)
qed (simp add: string_owners_def)

section \<open>Every plain case is decided as the reference says\<close>

lemma known_doc_mem:
  assumes "map cd_document_id cs = map document_id (documents p)" "c \<in> set (known_docs cs)"
  shows "doc_of p (cd_document_id c) \<in> set (documents p)"
proof -
  have "cd_document_id c \<in> set (map cd_document_id cs)" using assms(2) by (auto simp: known_docs_def)
  then have "cd_document_id c \<in> document_id ` set (documents p)" unfolding assms(1) by simp
  then obtain d where "dict_get (docs_by_id p) (cd_document_id c) = Some d" using docs_by_id_dom by blast
  then show ?thesis using docs_by_id_key by (simp add: doc_of_def)
qed

lemma offline_classify_ids: "map cd_document_id (a_classify offline_answers ds ct) = map document_id ds"
  by (simp add: offline_answers_def fake_classify_one_def split: prod.splits)

lemma offline_extractions_typed:
  assumes "\<forall>d \<in> set (documents p). plain_document d"
    and "map cd_document_id cs = map document_id (documents p)"
  shows "\<forall>e \<in> set (ref_extractions offline_answers p cs). typed_extraction e"
proof
  fix e assume "e \<in> set (ref_extractions offline_answers p cs)"
  then obtain c where c: "c \<in> set (known_docs cs)"
    "e = projr (fake_extraction (doc_of p (cd_document_id c)) (cd_doc_type c))"
    by (auto simp: ref_extractions_def offline_answers_def)
  have plain: "plain_document (doc_of p (cd_document_id c))" using known_doc_mem [OF assms(2) c(1)] assms(1) by blast
  then obtain e' where "fake_extraction (doc_of p (cd_document_id c)) (cd_doc_type c) = Inr e'"
    using plain_extraction by blast
  then show "typed_extraction e" using fake_extraction_typed plain c(2) by (simp add: plain_document_def)
qed

lemma ref_decision_typed:
  assumes "\<forall>e \<in> set (ref_extractions a p (a_classify a (documents p) (customer_type p))). typed_extraction e"
  shows "\<exists>d. ref_decision ctx a p = Inr d"
proof -
  let ?es = "ref_extractions a p (a_classify a (documents p) (customer_type p))"
  obtain r where r: "run_validation_rules (applicant p) ?es (today ctx) (match_thresholds_of (cx_settings ctx)) = Inr r"
    using rules_typed [OF assms] by blast
  obtain ns where "ref_names p ?es = Inr ns"
    using names_typed [of "(initial_state [] p None)\<lparr>extractions := ?es\<rparr>"] assms by (auto simp: ref_names_def)
  then show ?thesis using r by (simp add: ref_decision_def ref_report_def Let_def split: prod.split)
qed

text \<open>Settings under which the offline services answer every call.\<close>

definition calm_settings :: "settings \<Rightarrow> bool" where
  "calm_settings s \<longleftrightarrow> registry_failure_rate s \<le> 0 \<and> 0 \<le> max_step_retries s \<and> 10 \<le> graph_recursion_limit s"

lemma calm_default: "calm_settings default_settings"
  by (simp add: calm_settings_def default_settings_def)

text \<open>A package on which the scripted services never raise and read typed fields only. Packages of
  plain documents are such; one with injected markers may be.\<close>

definition fit_package :: "kyc_package \<Rightarrow> bool" where
  "fit_package p \<longleftrightarrow> (let cs = map fake_classify_one (documents p) in
     (\<forall>e \<in> set (ref_extractions offline_answers p cs). typed_extraction e)
   \<and> (\<forall>c \<in> set (known_docs cs). offline_readable (doc_of p (cd_document_id c)) (cd_doc_type c)))"

lemma plain_fit:
  assumes "\<forall>d \<in> set (documents p). plain_document d"
  shows "fit_package p"
proof -
  let ?cs = "map fake_classify_one (documents p)"
  have ids: "map cd_document_id ?cs = map document_id (documents p)"
    by (simp add: fake_classify_one_def split: prod.splits)
  show ?thesis
    using offline_extractions_typed [OF assms ids] known_doc_mem [OF ids] assms plain_readable
    by (auto simp: fit_package_def Let_def)
qed

definition read_by :: "kyc_package \<Rightarrow> extraction_result list" where
  "read_by p = (let cs = map fake_classify_one (documents p)
     in if package_check p cs = None then ref_extractions offline_answers p cs else [])"

lemma offline_decides_as:
  assumes "calm_settings s" and "fit_package p"
  shows "\<exists>d. ref_decision (offline_context env s td en :: ('s, 'x) world pipeline_context) offline_answers p = Inr d
    \<and> (\<forall>cid st w. \<exists>out w'. invoke (offline_context env s td en :: ('s, 'x) world pipeline_context)
         (initial_state cid p st) w = (out, w') \<and> ends_reading (read_by p) d out)"
proof -
  let ?ctx = "offline_context env s td en :: ('s, 'x) world pipeline_context"
  let ?cs = "a_classify offline_answers (documents p) (customer_type p)"
  have cs: "?cs = map fake_classify_one (documents p)" by (simp add: offline_answers_def)
  have set: "registry_failure_rate s \<le> 0" "0 \<le> max_step_retries s" "10 \<le> limit_of ?ctx"
    using assms(1) by (simp_all add: calm_settings_def limit_of_def offline_context_def)
  have typed: "\<forall>e \<in> set (ref_extractions offline_answers p ?cs). typed_extraction e"
    and read: "\<forall>c \<in> set (known_docs ?cs). offline_readable (doc_of p (cd_document_id c)) (cd_doc_type c)"
    using assms(2) unfolding cs by (simp_all add: fit_package_def Let_def)
  obtain d where d: "ref_decision ?ctx offline_answers p = Inr d" using ref_decision_typed [OF typed] by blast
  have "\<exists>out w'. invoke ?ctx (initial_state cid p st) w = (out, w') \<and> ends_reading (read_by p) d out" for cid st w
    using answering.run_refines [OF offline_answering [OF set(1,2)] d set(3) refl read names_strings [OF typed]]
    unfolding read_by_def Let_def cs by blast
  then show ?thesis using d by blast
qed

lemma offline_decides:
  assumes "calm_settings s" and "\<forall>d \<in> set (documents p). plain_document d"
  shows "\<exists>d. ref_decision (offline_context env s td en :: ('s, 'x) world pipeline_context) offline_answers p = Inr d
    \<and> (\<forall>cid st w. \<exists>out w'. invoke (offline_context env s td en :: ('s, 'x) world pipeline_context)
         (initial_state cid p st) w = (out, w') \<and> ends_with d out)"
  using offline_decides_as [OF assms(1) plain_fit [OF assms(2)], where env = env and td = td and en = en and 's = 's and 'x = 'x]
  unfolding ends_reading_def by blast

section \<open>Plain texts by inspection\<close>

lemma starts_with_Cons: "starts_with (c # s) (x # t) \<longleftrightarrow> x = c \<and> starts_with s t"
  by (auto simp: starts_with_def)

lemma rmatch_lits: "rmatch (lits s @ as) b t c = Some r \<Longrightarrow> starts_with s t"
proof (induction s arbitrary: b t)
  case (Cons x s)
  then show ?case by (cases t) (auto simp: lits_def lit_def starts_with_Cons split: if_splits)
qed (simp add: starts_with_def)

lemma rsearch_lits: "rsearch (lits s @ as) b t = Some r \<Longrightarrow> py_in s t"
proof (induction t arbitrary: b r)
  case Nil
  then have "starts_with s []"
    using rmatch_lits by (auto simp: rsearch.simps [of _ b "[]"] split: option.splits)
  then show ?case by (simp add: starts_with_def)
next
  case (Cons x t)
  then show ?case using rmatch_lits
    by (auto simp: rsearch.simps [of _ b "x # t"] split: option.splits)
qed

lemma no_glitch_text: "\<not> py_in ''[OCR-GLITCH:'' t \<Longrightarrow> no_glitch t"
  unfolding no_glitch_def glitch_re_def using rsearch_lits [of "''[OCR-GLITCH:''"] by (metis option.exhaust)

lemma rmatch_needs: "rmatch as b s c = Some r \<Longrightarrow> Ch p \<in> set as \<Longrightarrow> \<exists>x \<in> set s. p x"
  by (induction as b s c rule: rmatch.induct) (auto split: if_splits option.splits)

lemma rsearch_needs: "rsearch as b s = Some r \<Longrightarrow> Ch p \<in> set as \<Longrightarrow> \<exists>x \<in> set s. p x"
proof (induction s arbitrary: b r)
  case Nil
  then show ?case using rmatch_needs by (fastforce simp: rsearch.simps [of _ b "[]"] split: option.splits)
next
  case (Cons x s)
  then show ?case using rmatch_needs [of as b "x # s"]
    by (fastforce simp: rsearch.simps [of _ b "x # s"] split: option.splits)
qed

lemma no_percent: "CHR ''%'' \<notin> set t \<Longrightarrow> finditer owner_re True t = []"
proof -
  assume none: "CHR ''%'' \<notin> set t"
  have "Ch (lit (CHR ''%'')) \<in> set owner_re" by (simp add: owner_re_def)
  then have "rsearch owner_re True t = None"
    using rsearch_needs [of owner_re True t _ "lit (CHR ''%'')"] none by (cases "rsearch owner_re True t") (auto simp: lit_def)
  then show ?thesis by (simp add: finditer.simps [of owner_re True t])
qed

definition plain_check :: "string \<Rightarrow> bool" where
  "plain_check t \<longleftrightarrow> \<not> py_in ''[OCR-GLITCH:'' t
     \<and> (CHR ''%'' \<in> set t \<longrightarrow> (\<forall>c \<in> set (finditer owner_re True t). \<not> isl (parse_pct (group ''pct'' c))))"

lemma plain_checked: "plain_check (text_content d) \<Longrightarrow> plain_document d"
  using no_glitch_text no_percent by (auto simp: plain_check_def plain_document_def)

end
