(* ===== verification/Eval.thy ===== *)
theory Eval
  imports Offline
begin

text \<open>
  \<open>eval/run_eval.py\<close>: one golden case through the pipeline, the metrics over all rows, and the
  exit code of the harness. \<open>shown\<close> is Python's \<open>str\<close> on the JSON values that are no strings.
  Writing the results and printing them are left out.
\<close>

section \<open>Golden cases and rows\<close>

fun outcome_value :: "decision_outcome \<Rightarrow> string" where
  "outcome_value APPROVE = ''approve''"
| "outcome_value REJECT = ''reject''"
| "outcome_value ESCALATE = ''escalate''"

record golden_case =
  gc_case_id :: string
  gc_description :: string
  gc_typical :: bool
  gc_package :: kyc_package
  gc_outcome :: string
  gc_decided_by :: string
  gc_escalation :: bool
  gc_reason_codes :: "string list"
  gc_fields :: "(string \<times> (string \<times> jval) list) list"

record row =
  r_case_id :: string
  r_typical :: bool
  r_expected_outcome :: string
  r_expected_escalation :: bool
  r_predicted_outcome :: string
  r_predicted_escalation :: bool
  r_reason_codes :: "string list"
  r_reason_codes_ok :: bool
  r_outcome_ok :: bool
  r_field_total :: nat
  r_field_correct :: nat

definition normalize :: "(jval \<Rightarrow> string) \<Rightarrow> jval \<Rightarrow> string" where
  "normalize shown v = collapse (py_casefold (case v of JStr s \<Rightarrow> s | _ \<Rightarrow> shown v))"

definition field_ok :: "(jval \<Rightarrow> string) \<Rightarrow> extraction_result option \<Rightarrow> string \<times> jval \<Rightarrow> bool" where
  "field_ok shown x fv = (case x of None \<Rightarrow> False | Some e \<Rightarrow>
     extraction_error e = None \<and>
     (case dict_get (er_fields e) (fst fv) of
        None \<Rightarrow> False
      | Some a \<Rightarrow> a \<noteq> JNull \<and> normalize shown a = normalize shown (snd fv)))"

definition by_document :: "extraction_result list \<Rightarrow> (string, extraction_result) dict" where
  "by_document es = dict_of (map (\<lambda>e. (er_document_id e, e)) es)"

definition field_hits :: "(jval \<Rightarrow> string) \<Rightarrow> extraction_result list
    \<Rightarrow> (string \<times> (string \<times> jval) list) list \<Rightarrow> bool list" where
  "field_hits shown es golden =
     concat (map (\<lambda>(doc_id, fs). map (field_ok shown (dict_get (by_document es) doc_id)) fs) golden)"

definition row_of :: "(jval \<Rightarrow> string) \<Rightarrow> golden_case \<Rightarrow> bool \<Rightarrow> kyc_state \<Rightarrow> row" where
  "row_of shown c escalated st =
     (let predicted = (if escalated then ''escalate''
                       else case decision st of Some d \<Rightarrow> outcome_value (outcome d) | None \<Rightarrow> ''unknown'');
          codes = (case decision st of Some d \<Rightarrow> map rule_id_value (reason_codes d) | None \<Rightarrow> []);
          hits = field_hits shown (extractions st) (gc_fields c)
      in \<lparr>r_case_id = gc_case_id c, r_typical = gc_typical c, r_expected_outcome = gc_outcome c,
          r_expected_escalation = gc_escalation c, r_predicted_outcome = predicted,
          r_predicted_escalation = escalated, r_reason_codes = codes,
          r_reason_codes_ok = (set (gc_reason_codes c) \<subseteq> set codes),
          r_outcome_ok = (predicted = gc_outcome c),
          r_field_total = length hits, r_field_correct = length (filter id hits)\<rparr>)"

text \<open>
  The graph is invoked on a context built for the case: a new sink and new registry clients, in a
  world whose clock and remote services go on. An exception of the run is the harness's.
\<close>

definition new_case :: "'s \<Rightarrow> ('s, 'x) world \<Rightarrow> ('s, 'x) world" where
  "new_case sink0 w = w\<lparr>w_store := sink0, w_sanctions := 0, w_pep := 0\<rparr>"

definition recursion_limit_error :: exn where
  "recursion_limit_error = Exn ''GraphRecursionError'' ''Recursion limit reached''"

record ('s, 'x) harness =
  hs_dump :: "extraction_result \<Rightarrow> string"
  hs_init :: "('s, 'x) world init_model"
  hs_env :: "'s environment"
  hs_sink :: 's
  hs_settings :: settings
  hs_shown :: "jval \<Rightarrow> string"

definition run_single_case ::
  "('s, 'x) harness \<Rightarrow> date \<Rightarrow> bool \<Rightarrow> golden_case \<Rightarrow> (('s, 'x) world, row) action" where
  "run_single_case h ref_date enabled c w =
     (case build_context (hs_dump h) (hs_init h) (hs_env h) (hs_settings h) ref_date enabled of
        Inl e \<Rightarrow> (Inl e, w)
      | Inr ctx \<Rightarrow>
          (case invoke ctx (initial_state (gc_case_id c) (gc_package c) None) (new_case (hs_sink h) w) of (out, w') \<Rightarrow>
            (case out of
               Finished st \<Rightarrow> Inr (row_of (hs_shown h) c False st)
             | Interrupted st p \<Rightarrow> Inr (row_of (hs_shown h) c True st)
             | Crashed st e \<Rightarrow> Inl e
             | Out_of_steps st \<Rightarrow> Inl recursion_limit_error, w')))"

section \<open>Metrics\<close>

record summary =
  sm_cases :: nat
  field_accuracy :: "rat option"
  auto_rate_typical :: "rat option"
  escalation_recall :: "rat option"
  escalation_precision :: "rat option"
  decision_accuracy :: rat
  reason_codes_accuracy :: rat
  false_auto_approvals :: nat

definition share :: "nat \<Rightarrow> nat \<Rightarrow> rat" where
  "share a b = py_round4 (fl (of_nat a / of_nat b))"

definition share_opt :: "nat \<Rightarrow> nat \<Rightarrow> rat option" where
  "share_opt a b = (if b = 0 then None else Some (share a b))"

definition sum_of :: "('a \<Rightarrow> nat) \<Rightarrow> 'a list \<Rightarrow> nat" where
  "sum_of f xs = sum_list (map f xs)"

definition count_of :: "('a \<Rightarrow> bool) \<Rightarrow> 'a list \<Rightarrow> nat" where
  "count_of p xs = length (filter p xs)"

definition zero_division :: exn where
  "zero_division = Exn ''ZeroDivisionError'' ''division by zero''"

definition summarize :: "row list \<Rightarrow> exn + summary" where
  "summarize rows =
     (let typical = filter r_typical rows;
          auto = filter (\<lambda>r. \<not> r_predicted_escalation r) typical;
          should_escalate = filter r_expected_escalation rows;
          did_escalate = filter r_predicted_escalation rows;
          true_escalations = filter r_expected_escalation did_escalate
      in if rows = [] then Inl zero_division
         else Inr \<lparr>sm_cases = length rows,
           field_accuracy = share_opt (sum_of r_field_correct rows) (sum_of r_field_total rows),
           auto_rate_typical = share_opt (length auto) (length typical),
           escalation_recall = share_opt (length true_escalations) (length should_escalate),
           escalation_precision = share_opt (length true_escalations) (length did_escalate),
           decision_accuracy = share (count_of r_outcome_ok rows) (length rows),
           reason_codes_accuracy = share (count_of r_reason_codes_ok rows) (length rows),
           false_auto_approvals = count_of (\<lambda>r. r_expected_escalation r \<and> \<not> r_predicted_escalation r
             \<and> r_predicted_outcome r = ''approve'') rows\<rparr>)"

section \<open>The harness\<close>

fun run_rows ::
  "('s, 'x) harness \<Rightarrow> date \<Rightarrow> bool \<Rightarrow> golden_case list \<Rightarrow> (('s, 'x) world, row list) action" where
  "run_rows h ref_date enabled [] = ret []"
| "run_rows h ref_date enabled (c # cs) =
     abind (run_single_case h ref_date enabled c) (\<lambda>r.
     abind (run_rows h ref_date enabled cs) (\<lambda>rs. ret (r # rs)))"

definition run_config ::
  "('s, 'x) harness \<Rightarrow> golden_case list \<Rightarrow> date \<Rightarrow> bool \<Rightarrow> (('s, 'x) world, summary \<times> row list) action" where
  "run_config h cases ref_date enabled =
     abind (run_rows h ref_date enabled cases) (\<lambda>rows.
     abind (of_result (summarize rows)) (\<lambda>s. ret (s, rows)))"

text \<open>\<open>main\<close>: the runs of the results file and the exit code.\<close>

definition exit_code :: "summary option \<Rightarrow> nat" where
  "exit_code full = (case full of None \<Rightarrow> 0 | Some s \<Rightarrow> if escalation_recall s = Some 1 then 0 else 1)"

definition eval_main ::
  "('s, 'x) harness \<Rightarrow> bool \<Rightarrow> golden_case list \<Rightarrow> date
    \<Rightarrow> (('s, 'x) world, (string \<times> summary \<times> row list) list \<times> nat) action" where
  "eval_main h no_validator cases ref_date =
     abind (if no_validator then ret None
            else abind (run_config h cases ref_date True) (\<lambda>r. ret (Some r))) (\<lambda>full.
     abind (run_config h cases ref_date False) (\<lambda>ablation.
     ret ((case full of None \<Rightarrow> [] | Some r \<Rightarrow> [(''full_pipeline'', r)]) @ [(''no_validator_ablation'', ablation)],
          exit_code (map_option fst full))))"

section \<open>What the metrics say\<close>

text \<open>A share of fewer than twenty thousand rounds to one only when it is one.\<close>

lemma share_below: "py_round4 (fl (19998 / 19999)) < 1"
proof -
  have x: "fl (19998 / 19999) = 9006748872259131 / 9007199254740992"
    using fl_evalI [of "19998 / 19999" "- 1" 9006748872259131] by (simp add: pow2_def)
  have "rhe (fl (19998 / 19999) * 10000) = 9999" unfolding x by (rule rhe_evalI) simp_all
  then have "py_round4 (fl (19998 / 19999)) = fl (9999 / 10000)" by (simp add: py_round4_def)
  also have "\<dots> \<le> fl (19998 / 19999)" by (rule fl_mono) simp
  also have "\<dots> < 1" by (simp add: x)
  finally show ?thesis .
qed

lemma share_1: "share n n = 1" if "0 < n"
  using that by (simp add: share_def)

lemma share_less:
  assumes "a < b" "b < 20000"
  shows "share a b < 1"
proof -
  have "of_nat a / of_nat b \<le> (19998 / 19999 :: rat)"
  proof -
    have "19999 * a \<le> 19998 * b" using assms by linarith
    then have "(19999 :: rat) * of_nat a \<le> 19998 * of_nat b"
      by (metis of_nat_le_iff of_nat_mult of_nat_numeral)
    moreover have "(0 :: rat) < of_nat b" using assms by simp
    ultimately show ?thesis by (simp add: field_simps)
  qed
  then have "share a b \<le> py_round4 (fl (19998 / 19999))"
    unfolding share_def by (intro py_round4_mono fl_mono)
  then show ?thesis using share_below by simp
qed

lemma share_bounds: "a \<le> b \<Longrightarrow> 0 \<le> share a b \<and> share a b \<le> 1"
proof
  assume "a \<le> b"
  then have "of_nat a / of_nat b \<le> (1 :: rat)" by (cases "b = 0") simp_all
  then have "share a b \<le> py_round4 (fl 1)" unfolding share_def by (intro py_round4_mono fl_mono)
  then show "share a b \<le> 1" by simp
  have "py_round4 (fl 0) \<le> share a b" unfolding share_def by (intro py_round4_mono fl_mono) simp
  then show "0 \<le> share a b" by simp
qed

text \<open>Above that the share can hide a miss.\<close>

lemma share_blind: "share 39999 40000 = 1"
proof -
  have x: "fl (39999 / 40000) = 9006974074759623 / 9007199254740992"
    using fl_evalI [of "39999 / 40000" "- 1" 9006974074759623] by (simp add: pow2_def)
  have "rhe (fl (39999 / 40000) * 10000) = 10000" unfolding x by (rule rhe_evalI) simp_all
  then show ?thesis by (simp add: share_def py_round4_def)
qed

lemma length_filter_all: "length (filter P xs) = length xs \<longleftrightarrow> (\<forall>x \<in> set xs. P x)"
  by (induction xs) (auto, metis Suc_n_not_le_n length_filter_le)

lemma recall_exact:
  assumes "summarize rows = Inr s" "length (filter r_expected_escalation rows) < 20000"
  shows "escalation_recall s = Some 1 \<longleftrightarrow>
     (\<exists>r \<in> set rows. r_expected_escalation r)
     \<and> (\<forall>r \<in> set rows. r_expected_escalation r \<longrightarrow> r_predicted_escalation r)"
proof -
  let ?should = "filter r_expected_escalation rows"
  let ?true = "filter r_expected_escalation (filter r_predicted_escalation rows)"
  have rec: "escalation_recall s = share_opt (length ?true) (length ?should)"
    using assms(1) by (auto simp: summarize_def Let_def split: if_splits)
  have tr: "?true = filter r_predicted_escalation ?should" by (simp add: conj_commute)
  have all: "length ?true = length ?should \<longleftrightarrow> (\<forall>r \<in> set rows. r_expected_escalation r \<longrightarrow> r_predicted_escalation r)"
    unfolding tr length_filter_all by auto
  have le: "length ?true \<le> length ?should" unfolding tr by (rule length_filter_le)
  show ?thesis
  proof (cases "?should = []")
    case True
    then have "\<not> (\<exists>r \<in> set rows. r_expected_escalation r)" by (simp add: filter_empty_conv)
    then show ?thesis using True by (auto simp: rec share_opt_def)
  next
    case False
    then have ex: "\<exists>r \<in> set rows. r_expected_escalation r" by (auto simp: filter_empty_conv)
    show ?thesis
    proof (cases "length ?true = length ?should")
      case True
      then show ?thesis using all ex False share_1 [of "length ?should"] by (simp add: rec share_opt_def)
    next
      case ne: False
      then have "share (length ?true) (length ?should) < 1" using share_less le assms(2) by simp
      then show ?thesis using ne all ex False by (simp add: rec share_opt_def)
    qed
  qed
qed

text \<open>A false approval of a case that must escalate is a missed escalation: the exit code is 1.\<close>

lemma false_approval_fails:
  assumes "summarize rows = Inr s" "length (filter r_expected_escalation rows) < 20000" "0 < false_auto_approvals s"
  shows "exit_code (Some s) = 1"
proof -
  have "\<exists>r \<in> set rows. r_expected_escalation r \<and> \<not> r_predicted_escalation r"
    using assms(1,3) by (auto simp: summarize_def Let_def count_of_def filter_empty_conv split: if_splits)
  then have "escalation_recall s \<noteq> Some 1" using recall_exact [OF assms(1,2)] by blast
  then show ?thesis by (simp add: exit_code_def)
qed

section \<open>Rows of the offline pipeline\<close>

lemma row_shape:
  "r_predicted_escalation (row_of shown c esc st) = esc"
  "r_field_correct (row_of shown c esc st) \<le> r_field_total (row_of shown c esc st)"
  by (simp_all add: row_of_def Let_def)

text \<open>The row of a case: that of the reference decision and of what the extractor reads.\<close>

definition row_matches :: "('s, 'x) harness \<Rightarrow> date \<Rightarrow> bool \<Rightarrow> row \<Rightarrow> golden_case \<Rightarrow> bool" where
  "row_matches h td en r c \<longleftrightarrow> (\<exists>d st.
     ref_decision (offline_context (hs_env h) (hs_settings h) td en :: ('s, 'x) world pipeline_context)
       offline_answers (gc_package c) = Inr d
   \<and> decision st = Some d \<and> extractions st = read_by (gc_package c)
   \<and> r = row_of (hs_shown h) c (outcome d = ESCALATE) st)"

lemma offline_row:
  fixes h :: "('s, 'x) harness"
  assumes "offline (hs_settings h)" "calm_settings (hs_settings h)" "fit_package (gc_package c)"
  shows "\<exists>r w'. run_single_case h td en c w = (Inr r, w') \<and> row_matches h td en r c"
proof -
  let ?ctx = "offline_context (hs_env h) (hs_settings h) td en :: ('s, 'x) world pipeline_context"
  have built: "build_context (hs_dump h) (hs_init h) (hs_env h) (hs_settings h) td en = Inr ?ctx"
    by (rule build_offline [OF assms(1)])
  obtain d where d: "ref_decision ?ctx offline_answers (gc_package c) = Inr d"
    "\<forall>cid st w. \<exists>out w'. invoke ?ctx (initial_state cid (gc_package c) st) w = (out, w')
       \<and> ends_reading (read_by (gc_package c)) d out"
    using offline_decides_as [OF assms(2,3)] by blast
  obtain out w' where out: "invoke ?ctx (initial_state (gc_case_id c) (gc_package c) None) (new_case (hs_sink h) w) = (out, w')"
    "ends_reading (read_by (gc_package c)) d out" using d(2) by blast
  obtain st where st: "out = Finished st \<and> outcome d \<noteq> ESCALATE \<or> (\<exists>p. out = Interrupted st p) \<and> outcome d = ESCALATE"
    "decision st = Some d" "extractions st = read_by (gc_package c)"
    using out(2) by (auto simp: ends_reading_def ends_with_def split: if_splits)
  have "run_single_case h td en c w = (Inr (row_of (hs_shown h) c (outcome d = ESCALATE) st), w')"
    using built out(1) st(1) by (auto simp: run_single_case_def)
  then show ?thesis using st(2,3) d(1) unfolding row_matches_def by blast
qed

section \<open>The exit code\<close>

lemma run_rows_cases:
  "run_rows h rd en cs w = (Inr rows, w') \<Longrightarrow>
     map r_case_id rows = map gc_case_id cs \<and> map r_expected_escalation rows = map gc_escalation cs"
proof (induction cs arbitrary: w rows w')
  case Nil
  then show ?case by (simp add: ret_def)
next
  case (Cons c cs)
  then obtain r w1 rs w2 where r: "run_single_case h rd en c w = (Inr r, w1)"
    and rs: "run_rows h rd en cs w1 = (Inr rs, w2)" and rows: "rows = r # rs"
    by (auto simp: abind_def ret_def split: prod.splits sum.splits)
  have "r_case_id r = gc_case_id c \<and> r_expected_escalation r = gc_escalation c"
    using r by (auto simp: run_single_case_def row_of_def Let_def split: sum.splits prod.splits run_outcome.splits)
  then show ?case using Cons.IH [OF rs] rows by simp
qed

lemma expected_rows:
  assumes "map r_expected_escalation rows = map gc_escalation cs"
  shows "length (filter r_expected_escalation rows) = length (filter gc_escalation cs)"
  using arg_cong [OF assms, where f = "\<lambda>bs. length (filter id bs)"] by (simp add: filter_map comp_def)

lemma run_configD:
  assumes "run_config h cs rd en w = (Inr (s, rows), w')"
  shows "summarize rows = Inr s" "map r_expected_escalation rows = map gc_escalation cs"
    "map r_case_id rows = map gc_case_id cs"
proof -
  obtain w1 where "run_rows h rd en cs w = (Inr rows, w1)" "summarize rows = Inr s"
    using assms by (auto simp: run_config_def abind_def ret_def of_result_def split: prod.splits sum.splits)
  then show "summarize rows = Inr s" "map r_expected_escalation rows = map gc_escalation cs"
    "map r_case_id rows = map gc_case_id cs"
    using run_rows_cases by blast+
qed

text \<open>Zero exactly when some case must escalate and every such case did.\<close>

lemma eval_exit:
  assumes "eval_main h False cs rd w = (Inr (runs, k), w')" and "length (filter gc_escalation cs) < 20000"
  shows "\<exists>s rows rest. runs = (''full_pipeline'', s, rows) # rest \<and> map r_case_id rows = map gc_case_id cs
    \<and> k = (if (\<exists>c \<in> set cs. gc_escalation c)
              \<and> (\<forall>r \<in> set rows. r_expected_escalation r \<longrightarrow> r_predicted_escalation r) then 0 else 1)"
proof -
  obtain s rows w1 r2 where full: "run_config h cs rd True w = (Inr (s, rows), w1)"
    and runs: "runs = [(''full_pipeline'', s, rows), (''no_validator_ablation'', r2)]" "k = exit_code (Some s)"
    using assms(1) by (auto simp: eval_main_def abind_def ret_def split: prod.splits sum.splits)
  note d = run_configD [OF full]
  have ex: "(\<exists>r \<in> set rows. r_expected_escalation r) \<longleftrightarrow> (\<exists>c \<in> set cs. gc_escalation c)"
    using arg_cong [OF d(2), where f = set] by auto
  have "length (filter r_expected_escalation rows) < 20000" using expected_rows [OF d(2)] assms(2) by simp
  from recall_exact [OF d(1) this] have "escalation_recall s = Some 1 \<longleftrightarrow> (\<exists>c \<in> set cs. gc_escalation c)
      \<and> (\<forall>r \<in> set rows. r_expected_escalation r \<longrightarrow> r_predicted_escalation r)" by (simp add: ex)
  then show ?thesis using runs d(3) by (simp add: exit_code_def)
qed

section \<open>Offline evaluation\<close>

text \<open>The reference escalates the case.\<close>

definition ref_escalates :: "('s, 'x) harness \<Rightarrow> date \<Rightarrow> bool \<Rightarrow> golden_case \<Rightarrow> bool" where
  "ref_escalates h td en c \<longleftrightarrow> (\<exists>d. ref_decision (offline_context (hs_env h) (hs_settings h) td en ::
      ('s, 'x) world pipeline_context) offline_answers (gc_package c) = Inr d \<and> outcome d = ESCALATE)"

lemma row_escalates: "row_matches h td en r c \<Longrightarrow> r_predicted_escalation r = ref_escalates h td en c"
  by (auto simp: row_matches_def ref_escalates_def row_shape)

lemma offline_rows:
  fixes h :: "('s, 'x) harness"
  assumes "offline (hs_settings h)" "calm_settings (hs_settings h)" and "\<forall>c \<in> set cs. fit_package (gc_package c)"
  shows "\<exists>rows w'. run_rows h td en cs w = (Inr rows, w') \<and> list_all2 (row_matches h td en) rows cs"
  using assms(3)
proof (induction cs arbitrary: w)
  case Nil
  then show ?case by (simp add: ret_def)
next
  case (Cons c cs)
  have "fit_package (gc_package c)" using Cons.prems by simp
  from offline_row [OF assms(1,2) this] obtain r w1 where r: "run_single_case h td en c w = (Inr r, w1)" "row_matches h td en r c"
    by blast
  obtain rows w' where rows: "run_rows h td en cs w1 = (Inr rows, w')" "list_all2 (row_matches h td en) rows cs"
    using Cons.IH [of w1] Cons.prems by auto
  have "run_rows h td en (c # cs) w = (Inr (r # rows), w')" using r(1) rows(1) by (simp add: abind_def ret_def)
  then show ?case using r(2) rows(2) by (intro exI [of _ "r # rows"] exI [of _ w']) simp
qed

lemma offline_config:
  fixes h :: "('s, 'x) harness"
  assumes "offline (hs_settings h)" "calm_settings (hs_settings h)"
    and "\<forall>c \<in> set cs. fit_package (gc_package c)" "cs \<noteq> []"
  shows "\<exists>s rows w'. run_config h cs td en w = (Inr (s, rows), w') \<and> summarize rows = Inr s
    \<and> list_all2 (row_matches h td en) rows cs"
proof -
  obtain rows w' where rows: "run_rows h td en cs w = (Inr rows, w')" "list_all2 (row_matches h td en) rows cs"
    using offline_rows [OF assms(1-3)] by blast
  have "rows \<noteq> []" using rows(2) assms(4) by auto
  then obtain s where s: "summarize rows = Inr s" by (simp add: summarize_def Let_def)
  then have "run_config h cs td en w = (Inr (s, rows), w')"
    using rows(1) by (simp add: run_config_def abind_def ret_def of_result_def)
  then show ?thesis using s rows(2) by blast
qed

text \<open>Both runs of the harness, with the rows of the reference.\<close>

lemma offline_main:
  fixes h :: "('s, 'x) harness"
  assumes "offline (hs_settings h)" "calm_settings (hs_settings h)"
    and "\<forall>c \<in> set cs. fit_package (gc_package c)" "cs \<noteq> []"
  shows "\<exists>s rows s' rows' w'. eval_main h False cs td w =
      (Inr ([(''full_pipeline'', s, rows), (''no_validator_ablation'', s', rows')], exit_code (Some s)), w')
    \<and> summarize rows = Inr s \<and> list_all2 (row_matches h td True) rows cs
    \<and> summarize rows' = Inr s' \<and> list_all2 (row_matches h td False) rows' cs"
proof -
  obtain s rows w1 where full: "run_config h cs td True w = (Inr (s, rows), w1)" "summarize rows = Inr s"
    "list_all2 (row_matches h td True) rows cs"
    using offline_config [OF assms] by blast
  obtain s2 rows2 w2 where ablated: "run_config h cs td False w1 = (Inr (s2, rows2), w2)" "summarize rows2 = Inr s2"
    "list_all2 (row_matches h td False) rows2 cs"
    using offline_config [OF assms, where td = td and en = False and w = w1] by blast
  have "eval_main h False cs td w =
      (Inr ([(''full_pipeline'', s, rows), (''no_validator_ablation'', s2, rows2)], exit_code (Some s)), w2)"
    using full(1) ablated(1) by (simp add: eval_main_def abind_def ret_def)
  then show ?thesis using full(2,3) ablated(2,3) by blast
qed

lemma all_rows:
  assumes "map f rows = map p cs" "map g rows = map q cs"
  shows "(\<forall>r \<in> set rows. f r \<longrightarrow> g r) \<longleftrightarrow> (\<forall>c \<in> set cs. p c \<longrightarrow> q c)"
proof -
  have "(\<forall>b \<in> set (zip (map f rows) (map g rows)). fst b \<longrightarrow> snd b) \<longleftrightarrow>
      (\<forall>b \<in> set (zip (map p cs) (map q cs)). fst b \<longrightarrow> snd b)" using assms by simp
  then show ?thesis by (simp add: zip_map_map zip_same_conv_map)
qed

lemma offline_exit:
  fixes h :: "('s, 'x) harness"
  assumes "offline (hs_settings h)" "calm_settings (hs_settings h)"
    and "\<forall>c \<in> set cs. fit_package (gc_package c)" "cs \<noteq> []"
    and "length (filter gc_escalation cs) < 20000"
  shows "\<exists>runs k w'. eval_main h False cs td w = (Inr (runs, k), w')
    \<and> (k = 0 \<longleftrightarrow> (\<exists>c \<in> set cs. gc_escalation c) \<and> (\<forall>c \<in> set cs. gc_escalation c \<longrightarrow> ref_escalates h td True c))"
proof -
  obtain s rows s' rows' w' where main: "eval_main h False cs td w =
      (Inr ([(''full_pipeline'', s, rows), (''no_validator_ablation'', s', rows')], exit_code (Some s)), w')"
    "list_all2 (row_matches h td True) rows cs"
    using offline_main [OF assms(1-4)] by blast
  have pred: "map r_predicted_escalation rows = map (ref_escalates h td True) cs"
    using main(2) by (induction rule: list_all2_induct) (simp_all add: row_escalates)
  have expect: "map r_expected_escalation rows = map gc_escalation cs"
    using main(2) by (induction rule: list_all2_induct) (auto simp: row_matches_def row_of_def Let_def)
  have "(\<forall>r \<in> set rows. r_expected_escalation r \<longrightarrow> r_predicted_escalation r)
      \<longleftrightarrow> (\<forall>c \<in> set cs. gc_escalation c \<longrightarrow> ref_escalates h td True c)"
    by (rule all_rows [OF expect pred])
  then show ?thesis using main(1) eval_exit [OF main(1) assms(5)] by auto
qed

end
