(* ===== verification/Golden.thy ===== *)
theory Golden
  imports Eval LiveLLM
begin

text \<open>
  \<open>eval/generate_golden_set.py\<close>: the document templates, the package builders and the seventeen
  golden cases. Texts are Latin-1, a hyphen stands for the dash of the certificate. The declared
  dates are given as the generator has them and are parsed the way the package model does.
\<close>

section \<open>Documents\<close>

definition id_card :: "string \<Rightarrow> string \<Rightarrow> string \<Rightarrow> string \<Rightarrow> string \<Rightarrow> string \<Rightarrow> string \<Rightarrow> string" where
  "id_card name dob num expiry country nationality extra =
     country @ nl @ ''IDENTITY CARD'' @ nl @ ''Full name: '' @ name @ nl @ ''Date of birth: '' @ dob @ nl
     @ ''Document number: '' @ num @ nl @ ''Date of expiry: '' @ expiry @ nl
     @ ''Nationality: '' @ nationality @ nl @ extra"

definition invoice :: "string \<Rightarrow> string \<Rightarrow> string \<Rightarrow> string \<Rightarrow> string" where
  "invoice name addr issue issuer =
     py_upper issuer @ nl @ ''ELECTRICITY INVOICE'' @ nl @ ''Customer: '' @ name @ nl
     @ ''Service address: '' @ addr @ nl @ ''Invoice date: '' @ issue @ nl @ ''Issuer: '' @ issuer @ nl"

definition bank_statement :: "string \<Rightarrow> string \<Rightarrow> string \<Rightarrow> string \<Rightarrow> string" where
  "bank_statement name addr issue bank =
     py_upper bank @ nl @ ''BANK STATEMENT'' @ nl @ ''Account holder: '' @ name @ nl @ ''Address: '' @ addr @ nl
     @ ''Statement date: '' @ issue @ nl @ ''Issuer: '' @ bank @ nl"

definition registration_cert :: "string \<Rightarrow> string \<Rightarrow> string \<Rightarrow> string \<Rightarrow> string \<Rightarrow> string" where
  "registration_cert company num reg_date legal_form office =
     ''REPUBLIC OF ESTONIA '' @ em_dash @ '' COMMERCIAL REGISTER'' @ nl @ ''CERTIFICATE OF REGISTRATION'' @ nl
     @ ''Company name: '' @ company @ nl @ ''Registration number: '' @ num @ nl
     @ ''Registration date: '' @ reg_date @ nl @ ''Legal form: '' @ legal_form @ nl
     @ ''Registered office: '' @ office @ nl"

definition ubo_declaration :: "string \<Rightarrow> (string \<times> string \<times> nat) list \<Rightarrow> string" where
  "ubo_declaration company owners =
     ''UBO DECLARATION'' @ nl @ ''Company name: '' @ company @ nl @ ''Beneficial owners:'' @ nl
     @ py_join nl (map (\<lambda>(n, d, p). ''- '' @ n @ ''; born '' @ d @ ''; ownership '' @ nat_str p @ ''%'') owners) @ nl"

section \<open>Packages and cases\<close>

definition individual_package ::
  "string \<Rightarrow> string \<Rightarrow> string \<Rightarrow> nat \<Rightarrow> string \<Rightarrow> string option \<Rightarrow> kyc_package" where
  "individual_package name dob_iso addr volume id_text poa_text =
     \<lparr>customer_type = INDIVIDUAL,
      applicant = \<lparr>full_name = name, date_of_birth = fromisoformat dob_iso, address = addr,
        company_name = None, registration_number = None, expected_monthly_volume_eur = dec_of_nat volume\<rparr>,
      documents = \<lparr>document_id = ''doc-id'', file_name = ''id.pdf'', text_content = id_text\<rparr>
        # (case poa_text of None \<Rightarrow> []
           | Some t \<Rightarrow> [\<lparr>document_id = ''doc-poa'', file_name = ''poa.pdf'', text_content = t\<rparr>])\<rparr>"

definition business_package ::
  "string \<Rightarrow> string \<Rightarrow> string \<Rightarrow> string \<Rightarrow> nat \<Rightarrow> string \<Rightarrow> string \<Rightarrow> kyc_package" where
  "business_package rep_name company reg_number addr volume cert_text ubo_text =
     \<lparr>customer_type = BUSINESS,
      applicant = \<lparr>full_name = rep_name, date_of_birth = None, address = addr,
        company_name = Some company, registration_number = Some reg_number,
        expected_monthly_volume_eur = dec_of_nat volume\<rparr>,
      documents =
        [\<lparr>document_id = ''doc-reg'', file_name = ''registration.pdf'', text_content = cert_text\<rparr>,
         \<lparr>document_id = ''doc-ubo'', file_name = ''ubo.pdf'', text_content = ubo_text\<rparr>]\<rparr>"

definition golden_of ::
  "string \<Rightarrow> string \<Rightarrow> bool \<Rightarrow> kyc_package \<Rightarrow> string \<Rightarrow> string \<Rightarrow> bool \<Rightarrow> string list
    \<Rightarrow> (string \<times> (string \<times> jval) list) list \<Rightarrow> golden_case" where
  "golden_of cid descr typical p expected_outcome who escalation codes flds =
     \<lparr>gc_case_id = cid, gc_description = descr, gc_typical = typical, gc_package = p,
      gc_outcome = expected_outcome, gc_decided_by = who, gc_escalation = escalation,
      gc_reason_codes = codes, gc_fields = flds\<rparr>"

definition garbage :: string where
  "garbage = ''@@#%%!!~~ scan_error_0x00 '' @ replicate 3 (CHR '']'') @ ''==='' @ replicate 3 (CHR ''['')
     @ '' 9f8a7b6c partial bytes lost''"

definition case_clean_individual_1 :: golden_case where
  "case_clean_individual_1 =
     golden_of ''clean-individual-1'' ''Typical clean individual onboarding'' True (individual_package
       ''Anna Virtanen'' ''1991-03-14'' ''Kalevankatu 12 A 5, 00100 Helsinki'' 2500 (id_card
       ''Anna Virtanen'' ''14.03.1991'' ''FIN-8842517'' ''01.05.2030'' ''REPUBLIC OF FINLAND'' ''FI'' '''')
       (Some (invoice ''Anna Virtanen'' ''Kalevankatu 12 A 5, 00100 Helsinki'' ''10.05.2026'' ''Helen Oy'')))
       ''approve'' ''system'' False [''ALL_CHECKS_PASSED''] [(''doc-id'', [(''full_name'', JStr
       ''Anna Virtanen''), (''date_of_birth'', JStr ''1991-03-14''), (''document_number'', JStr
       ''FIN-8842517''), (''expiry_date'', JStr ''2030-05-01''), (''nationality'', JStr ''FI'')]),
       (''doc-poa'', [(''full_name'', JStr ''Anna Virtanen''), (''address'', JStr
       ''Kalevankatu 12 A 5, 00100 Helsinki''), (''issue_date'', JStr ''2026-05-10''), (''issuer'', JStr
       ''Helen Oy'')])]"

definition case_clean_individual_2 :: golden_case where
  "case_clean_individual_2 =
     golden_of ''clean-individual-2'' ''Clean individual, bank statement as proof of address'' True
       (individual_package ''Mikael Korhonen'' ''1987-11-02'' ''Itamerenkatu 3 B 21, 00180 Helsinki'' 4200
       (id_card ''Mikael Korhonen'' ''02.11.1987'' ''FIN-5521904'' ''17.09.2031'' ''REPUBLIC OF FINLAND''
       ''FI'' '''') (Some (bank_statement ''Mikael Korhonen'' ''Itamerenkatu 3 B 21, 00180 Helsinki''
       ''01.06.2026'' ''Nordea Bank Abp''))) ''approve'' ''system'' False [''ALL_CHECKS_PASSED'']
       [(''doc-id'', [(''full_name'', JStr ''Mikael Korhonen''), (''date_of_birth'', JStr ''1987-11-02''),
       (''document_number'', JStr ''FIN-5521904''), (''expiry_date'', JStr ''2031-09-17''), (''nationality'',
       JStr ''FI'')]), (''doc-poa'', [(''full_name'', JStr ''Mikael Korhonen''), (''address'', JStr
       ''Itamerenkatu 3 B 21, 00180 Helsinki''), (''issue_date'', JStr ''2026-06-01''), (''issuer'', JStr
       ''Nordea Bank Abp'')])]"

definition case_clean_individual_3 :: golden_case where
  "case_clean_individual_3 =
     golden_of ''clean-individual-3'' ''Clean individual onboarding'' True (individual_package
       ''Sofia Lehtinen'' ''1995-06-27'' ''Puistokatu 8 C 14, 20100 Turku'' 1800 (id_card ''Sofia Lehtinen''
       ''27.06.1995'' ''FIN-7710382'' ''23.02.2029'' ''REPUBLIC OF FINLAND'' ''FI'' '''') (Some (invoice
       ''Sofia Lehtinen'' ''Puistokatu 8 C 14, 20100 Turku'' ''05.06.2026'' ''Turku Energia''))) ''approve''
       ''system'' False [''ALL_CHECKS_PASSED''] [(''doc-id'', [(''full_name'', JStr ''Sofia Lehtinen''),
       (''date_of_birth'', JStr ''1995-06-27''), (''document_number'', JStr ''FIN-7710382''),
       (''expiry_date'', JStr ''2029-02-23''), (''nationality'', JStr ''FI'')])]"

definition case_clean_individual_4 :: golden_case where
  "case_clean_individual_4 =
     golden_of ''clean-individual-4'' ''Clean individual onboarding'' True (individual_package
       ''Ville Niemi'' ''1983-01-19'' ''Rautatienkatu 21 A 2, 33100 Tampere'' 3100 (id_card ''Ville Niemi''
       ''19.01.1983'' ''FIN-3308571'' ''11.11.2028'' ''REPUBLIC OF FINLAND'' ''FI'' '''') (Some (invoice
       ''Ville Niemi'' ''Rautatienkatu 21 A 2, 33100 Tampere'' ''20.05.2026'' ''Tampereen Sahkolaitos'')))
       ''approve'' ''system'' False [''ALL_CHECKS_PASSED''] [(''doc-id'', [(''full_name'', JStr
       ''Ville Niemi''), (''date_of_birth'', JStr ''1983-01-19''), (''document_number'', JStr
       ''FIN-3308571''), (''expiry_date'', JStr ''2028-11-11''), (''nationality'', JStr ''FI'')])]"

definition case_clean_individual_5 :: golden_case where
  "case_clean_individual_5 =
     golden_of ''clean-individual-5'' ''Clean individual onboarding'' True (individual_package
       ''Laura Makela'' ''1990-08-08'' ''Satamakatu 5 D 33, 90100 Oulu'' 2200 (id_card ''Laura Makela''
       ''08.08.1990'' ''FIN-9174205'' ''30.06.2032'' ''REPUBLIC OF FINLAND'' ''FI'' '''') (Some
       (bank_statement ''Laura Makela'' ''Satamakatu 5 D 33, 90100 Oulu'' ''15.06.2026'' ''OP Bank'')))
       ''approve'' ''system'' False [''ALL_CHECKS_PASSED''] [(''doc-id'', [(''full_name'', JStr
       ''Laura Makela''), (''date_of_birth'', JStr ''1990-08-08''), (''document_number'', JStr
       ''FIN-9174205''), (''expiry_date'', JStr ''2032-06-30''), (''nationality'', JStr ''FI'')])]"

definition case_address_mismatch_warning :: golden_case where
  "case_address_mismatch_warning =
     golden_of ''address-mismatch-warning''
       ''Address on the bill differs from the declared one: warning only, still auto'' True
       (individual_package ''Noora Hakala'' ''1992-04-03'' ''Koulukatu 17 B 9, 65100 Vaasa'' 2000 (id_card
       ''Noora Hakala'' ''03.04.1992'' ''FIN-6650913'' ''14.03.2030'' ''REPUBLIC OF FINLAND'' ''FI'' '''')
       (Some (invoice ''Noora Hakala'' ''Vanha Maantie 2 F 51, 02650 Espoo'' ''01.06.2026'' ''Helen Oy'')))
       ''approve'' ''system'' False [''ALL_CHECKS_PASSED''] []"

definition case_expired_document :: golden_case where
  "case_expired_document =
     golden_of ''expired-document'' ''ID document expired: deterministic auto-reject'' True
       (individual_package ''Jukka Salminen'' ''1979-12-30'' ''Kirkkokatu 4 A 1, 70100 Kuopio'' 2600 (id_card
       ''Jukka Salminen'' ''30.12.1979'' ''FIN-2209166'' ''01.05.2024'' ''REPUBLIC OF FINLAND'' ''FI'' '''')
       (Some (invoice ''Jukka Salminen'' ''Kirkkokatu 4 A 1, 70100 Kuopio'' ''02.06.2026''
       ''Kuopion Energia''))) ''reject'' ''system'' False [''DOCUMENT_EXPIRED''] []"

definition case_incomplete_package :: golden_case where
  "case_incomplete_package =
     golden_of ''incomplete-package'' ''Proof of address missing: auto-reject, client may resubmit'' True
       (individual_package ''Emil Nyberg'' ''1998-02-15'' ''Linnankatu 30 E 44, 20100 Turku'' 1500 (id_card
       ''Emil Nyberg'' ''15.02.1998'' ''FIN-4127850'' ''09.01.2031'' ''REPUBLIC OF FINLAND'' ''FI'' '''')
       None) ''reject'' ''system'' False [''INCOMPLETE_PACKAGE''] []"

definition case_name_mismatch_critical :: golden_case where
  "case_name_mismatch_critical =
     golden_of ''name-mismatch-critical''
       ''Declared name does not match the ID document: mandatory escalation'' True (individual_package
       ''Elena Sokolova'' ''1988-07-21'' ''Bulevardi 11 A 7, 00120 Helsinki'' 3000 (id_card ''Boris Petrov''
       ''21.07.1988'' ''EST-1190447'' ''28.10.2029'' ''REPUBLIC OF ESTONIA'' ''EE'' '''') (Some (invoice
       ''Elena Sokolova'' ''Bulevardi 11 A 7, 00120 Helsinki'' ''03.06.2026'' ''Helen Oy''))) ''escalate''
       ''human'' True [''CRITICAL_MISMATCH''] []"

definition case_sanctions_hit :: golden_case where
  "case_sanctions_hit =
     golden_of ''sanctions-hit'' ''Applicant matches the sanctions registry: mandatory escalation'' True
       (individual_package ''Viktor Salo'' ''1969-11-03'' ''Tehtaankatu 19 B 16, 00150 Helsinki'' 4000
       (id_card ''Viktor Salo'' ''03.11.1969'' ''FIN-1055821'' ''07.07.2030'' ''REPUBLIC OF FINLAND'' ''FI''
       '''') (Some (invoice ''Viktor Salo'' ''Tehtaankatu 19 B 16, 00150 Helsinki'' ''11.06.2026''
       ''Helen Oy''))) ''escalate'' ''human'' True [''SANCTIONS_HIT''] []"

definition case_pep_match :: golden_case where
  "case_pep_match =
     golden_of ''pep-match'' ''Applicant is a politically exposed person: mandatory escalation'' False
       (individual_package ''Maarika Kask'' ''1975-05-16'' ''Narva mnt 7-12, 10117 Tallinn'' 5200 (id_card
       ''Maarika Kask'' ''16.05.1975'' ''EST-8834012'' ''19.04.2031'' ''REPUBLIC OF ESTONIA'' ''EE'' '''')
       (Some (invoice ''Maarika Kask'' ''Narva mnt 7-12, 10117 Tallinn'' ''07.06.2026'' ''Eesti Energia'')))
       ''escalate'' ''human'' True [''PEP_MATCH''] []"

definition case_high_volume :: golden_case where
  "case_high_volume =
     golden_of ''high-volume''
       ''Declared monthly volume above the individual threshold: mandatory escalation'' True
       (individual_package ''Tomas Berg'' ''1981-09-09'' ''Norra Esplanaden 25 A 3, 00100 Helsinki'' 15000
       (id_card ''Tomas Berg'' ''09.09.1981'' ''SWE-6614708'' ''22.08.2030'' ''KINGDOM OF SWEDEN'' ''SE''
       '''') (Some (bank_statement ''Tomas Berg'' ''Norra Esplanaden 25 A 3, 00100 Helsinki'' ''28.05.2026''
       ''Nordea Bank Abp''))) ''escalate'' ''human'' True [''HIGH_VOLUME''] []"

definition case_corrupted_document :: golden_case where
  "case_corrupted_document =
     golden_of ''corrupted-document'' ''Unreadable ID scan: graceful degradation to human review'' True
       (individual_package ''Henrik Laine'' ''1986-10-25'' ''Hameenkatu 12 C 8, 33200 Tampere'' 2700 garbage
       (Some (invoice ''Henrik Laine'' ''Hameenkatu 12 C 8, 33200 Tampere'' ''09.06.2026'' ''Helen Oy'')))
       ''escalate'' ''human'' True [''DEGRADED_TO_MANUAL''] []"

definition case_hallucination_bait :: golden_case where
  "case_hallucination_bait =
     golden_of ''hallucination-bait'' ''Extractor hallucination (injected): only the evaluator catches it''
       False (individual_package ''Anna Virtanen'' ''1991-03-14'' ''Kalevankatu 12 A 5, 00100 Helsinki'' 2400
       ((id_card ''Anja Wirtanen'' ''14.03.1991'' ''FIN-8842517'' ''01.05.2030'' ''REPUBLIC OF FINLAND''
       ''FI'' '''') @ ('''' @ nl @ ''[OCR-GLITCH:full_name=Anna Virtanen]'')) (Some (invoice
       ''Anna Virtanen'' ''Kalevankatu 12 A 5, 00100 Helsinki'' ''12.06.2026'' ''Helen Oy''))) ''escalate''
       ''human'' True [''CRITICAL_MISMATCH''] []"

definition case_business_clean :: golden_case where
  "case_business_clean =
     golden_of ''business-clean'' ''Typical clean business onboarding'' True (business_package ''Karl Tamm''
       ''Meridian Trade OU'' ''EE-1447291'' ''Tartu mnt 25, 10117 Tallinn'' 30000 (registration_cert
       ''Meridian Trade OU'' ''EE-1447291'' ''01.02.2019'' ''Osauhing (private limited company)''
       ''Tartu mnt 25, 10117 Tallinn'') (ubo_declaration ''Meridian Trade OU'' [(''Karl Tamm'',
       ''12.07.1978'', 60), (''Liis Kukk'', ''25.09.1985'', 40)])) ''approve'' ''system'' False
       [''ALL_CHECKS_PASSED''] [(''doc-reg'', [(''company_name'', JStr ''Meridian Trade OU''),
       (''registration_number'', JStr ''EE-1447291''), (''registration_date'', JStr ''2019-02-01'')])]"

definition case_business_clean_2 :: golden_case where
  "case_business_clean_2 =
     golden_of ''business-clean-2'' ''Clean business onboarding'' True (business_package ''Aino Jarvinen''
       ''Aurora Consulting Oy'' ''FI-2093714'' ''Mannerheimintie 40 B, 00250 Helsinki'' 22000
       (registration_cert ''Aurora Consulting Oy'' ''FI-2093714'' ''14.09.2021''
       ''Osakeyhtio (limited company)'' ''Mannerheimintie 40 B, 00250 Helsinki'') (ubo_declaration
       ''Aurora Consulting Oy'' [(''Aino Jarvinen'', ''04.02.1984'', 100)])) ''approve'' ''system'' False
       [''ALL_CHECKS_PASSED''] []"

definition case_business_ubo_sanctions :: golden_case where
  "case_business_ubo_sanctions =
     golden_of ''business-ubo-sanctions''
       ''Beneficial owner matches the sanctions registry: mandatory escalation'' False (business_package
       ''Oskar Vaher'' ''Nordic Bridge OU'' ''EE-1899020'' ''Parnu mnt 105, 11312 Tallinn'' 18000
       (registration_cert ''Nordic Bridge OU'' ''EE-1899020'' ''23.03.2017''
       ''Osauhing (private limited company)'' ''Parnu mnt 105, 11312 Tallinn'') (ubo_declaration
       ''Nordic Bridge OU'' [(''Oskar Vaher'', ''02.12.1980'', 55), (''Viktor Salo'', ''03.11.1969'', 45)]))
       ''escalate'' ''human'' True [''UBO_SANCTIONS_OR_PEP''] []"

definition golden_cases :: "golden_case list" where
  "golden_cases =
     [case_clean_individual_1, case_clean_individual_2, case_clean_individual_3, case_clean_individual_4,
       case_clean_individual_5, case_address_mismatch_warning, case_expired_document,
       case_incomplete_package, case_name_mismatch_critical, case_sanctions_hit, case_pep_match,
       case_high_volume, case_corrupted_document, case_hallucination_bait, case_business_clean,
       case_business_clean_2, case_business_ubo_sanctions]"

definition reference_date :: date where
  "reference_date = Date 2026 7 13"

section \<open>The documents are plain\<close>

lemma plain_chars: "CHR ''['' \<notin> set t \<Longrightarrow> CHR ''%'' \<notin> set t \<Longrightarrow> plain_check t"
proof -
  assume a: "CHR ''['' \<notin> set t" "CHR ''%'' \<notin> set t"
  have "\<not> py_in ''[OCR-GLITCH:'' t" using a(1) by (auto simp: py_in_iff)
  then show ?thesis using a(2) by (simp add: plain_check_def)
qed

lemma upper_char_code: "c \<in> set (upper_char x) \<Longrightarrow> c = x \<or> (65 \<le> code c \<and> code c \<le> 90) \<or> 192 \<le> code c"
  by (auto simp: upper_char_def Let_def split: if_splits)

lemma upper_no: "c \<in> {CHR ''['', CHR ''%''} \<Longrightarrow> c \<notin> set s \<Longrightarrow> c \<notin> set (py_upper s)"
  using upper_char_code [of c] by (fastforce simp: py_upper_def)

lemmas golden_case_defs =
  case_clean_individual_1_def case_clean_individual_2_def case_clean_individual_3_def
  case_clean_individual_4_def case_clean_individual_5_def case_address_mismatch_warning_def
  case_expired_document_def case_incomplete_package_def case_name_mismatch_critical_def
  case_sanctions_hit_def case_pep_match_def case_high_volume_def case_corrupted_document_def
  case_hallucination_bait_def case_business_clean_def case_business_clean_2_def
  case_business_ubo_sanctions_def

lemmas golden_builders = golden_of_def individual_package_def business_package_def

lemma nl_plain: "CHR ''['' \<notin> set nl" "CHR ''%'' \<notin> set nl"
  by (simp_all add: nl_def) code_simp+

lemma garbage_plain: "plain_check garbage"
  by code_simp

lemmas plain_simps = golden_case_defs golden_builders plain_checked plain_chars garbage_plain
  id_card_def invoice_def bank_statement_def nl_plain upper_no

lemma some_plain:
  "\<forall>c \<in> set [case_clean_individual_1, case_incomplete_package, case_corrupted_document].
     \<forall>d \<in> set (documents (gc_package c)). plain_document d"
  by (simp add: plain_simps)

section \<open>Properties\<close>

text \<open>C36: the offline evaluation is the reference. With offline services, quiet registries and a
  recursion limit of ten at least, both runs of the evaluation over plain cases succeed, and the exit
  code is 0 exactly when there is at least one case that must escalate and the reference decision
  escalates every one of them; this for fewer than 20000 such cases, since the recall is rounded to
  four digits before it is compared with 1.\<close>

theorem offline_evaluation:
  fixes h :: "('s, 'x) harness"
  assumes "offline (hs_settings h)" "calm_settings (hs_settings h)"
    and "\<forall>c \<in> set cs. \<forall>d \<in> set (documents (gc_package c)). plain_document d" "cs \<noteq> []"
    and "length (filter gc_escalation cs) < 20000"
  shows "\<exists>runs k w'. eval_main h False cs td w = (Inr (runs, k), w')
    \<and> (k = 0 \<longleftrightarrow> (\<exists>c \<in> set cs. gc_escalation c)
         \<and> (\<forall>c \<in> set cs. gc_escalation c \<longrightarrow>
              (\<exists>d. ref_decision (offline_context (hs_env h) (hs_settings h) td True :: ('s, 'x) world pipeline_context)
                  offline_answers (gc_package c) = Inr d \<and> outcome d = ESCALATE)))"
proof -
  have "\<forall>c \<in> set cs. fit_package (gc_package c)" using assms(3) plain_fit by blast
  from offline_exit [OF assms(1,2) this assms(4,5), of td w] show ?thesis by (simp only: ref_escalates_def)
qed

lemma offline_evaluation_witness:
  "\<exists>runs k w'. eval_main \<lparr>hs_dump = \<lambda>e. [], hs_init = \<lambda>name provider temp url key. Inl zero_division,
       hs_env = \<lparr>env_sink = \<lambda>e s. (Inr (), s), env_times = \<lambda>i. 0, env_sanctions_draws = \<lambda>i. 0, env_pep_draws = \<lambda>i. 0\<rparr>, hs_sink = (),
       hs_settings = default_settings, hs_shown = \<lambda>v. []\<rparr> False
     [case_clean_individual_1, case_incomplete_package, case_corrupted_document]
     reference_date (undefined :: (unit, unit) world) = (Inr (runs, k), w')"
proof -
  let ?h = "\<lparr>hs_dump = \<lambda>e. [], hs_init = \<lambda>name provider temp url key. Inl zero_division,
       hs_env = \<lparr>env_sink = \<lambda>e s. (Inr (), s), env_times = \<lambda>i. 0, env_sanctions_draws = \<lambda>i. 0, env_pep_draws = \<lambda>i. 0\<rparr>, hs_sink = (),
       hs_settings = default_settings, hs_shown = \<lambda>v. []\<rparr> :: (unit, unit) harness"
  let ?cs = "[case_clean_individual_1, case_incomplete_package, case_corrupted_document]"
  have l: "length (filter gc_escalation ?cs) < 20000"
    using length_filter_le [of gc_escalation ?cs] by simp
  have o: "offline (hs_settings ?h)" "calm_settings (hs_settings ?h)" by (simp_all add: offline_default calm_default)
  from offline_evaluation [OF o some_plain _ l, where td = reference_date and w = undefined] show ?thesis by blast
qed

end
