(* ===== verification/Documents.thy ===== *)
theory Documents
  imports Golden
begin

text \<open>
  The templates of the golden set and the offline extractor are inverse to each other: what a
  template prints under a label is what the extractor reads back. A document is a list of lines;
  a label is searched at the line starts only.
\<close>

section \<open>Lines and labels\<close>

definition doc_lines :: "string list \<Rightarrow> string" where
  "doc_lines ls = concat (map (\<lambda>l. l @ [newline]) ls)"

lemma doc_lines_simps [simp]:
  "doc_lines [] = []" "doc_lines (l # ls) = l @ newline # doc_lines ls"
  by (simp_all add: doc_lines_def)

lemma nl_newline: "nl = [newline]"
  by (simp add: nl_def newline_def)

definition lower_ascii :: "string \<Rightarrow> string" where
  "lower_ascii s = map ascii_lower s"

definition has_label :: "string \<Rightarrow> string \<Rightarrow> bool" where
  "has_label l line \<longleftrightarrow> length l \<le> length line \<and> lower_ascii (take (length l) line) = lower_ascii l"

lemma has_label_Cons [simp]:
  "has_label (a # l) (x # xs) \<longleftrightarrow> ascii_lower x = ascii_lower a \<and> has_label l xs"
  "has_label [] s" "\<not> has_label (a # l) []"
  by (auto simp: has_label_def lower_ascii_def)

text \<open>A value that stands on one line, without blanks around it.\<close>

definition neat :: "string \<Rightarrow> bool" where
  "neat v \<longleftrightarrow> v \<noteq> [] \<and> newline \<notin> set v \<and> \<not> py_isspace (hd v) \<and> \<not> py_isspace (last v)"

lemma neat_strip: "neat v \<Longrightarrow> py_strip v = v"
  by (simp add: neat_def py_strip_id)

lemma code_ascii_lower: "code (ascii_lower c) = (if 65 \<le> code c \<and> code c \<le> 90 then code c + 32 else code c)"
  by (simp add: ascii_lower_def Let_def code_char_of)

lemma newline_lower: "ascii_lower x = ascii_lower a \<Longrightarrow> a \<noteq> newline \<Longrightarrow> x \<noteq> newline"
proof
  assume "ascii_lower x = ascii_lower a" "a \<noteq> newline" "x = newline"
  then have "code (ascii_lower a) = code (ascii_lower newline)" by simp
  also have "\<dots> = 10" by (simp add: code_ascii_lower code_newline)
  finally have "code (ascii_lower a) = 10" .
  then have "code a = 10" by (auto simp: code_ascii_lower split: if_splits)
  then have "a = newline" by (metis char_of_char newline_def)
  then show False using \<open>a \<noteq> newline\<close> by simp
qed

section \<open>Matching one line\<close>

lemma match_label:
  assumes "newline \<notin> set l" "newline \<notin> set line"
  shows "rmatch (lits_ci l @ as) True (line @ newline # rest) c =
     (if has_label l line then rmatch as (l = []) (drop (length l) line @ newline # rest) c else None)"
proof -
  have "rmatch (lits_ci l @ as) b (line @ newline # rest) c =
     (if has_label l line then rmatch as (l = [] \<and> b) (drop (length l) line @ newline # rest) c else None)" for b
    using assms
  proof (induction l arbitrary: line b)
    case (Cons a l)
    show ?case
    proof (cases line)
      case Nil
      have "ascii_lower newline \<noteq> ascii_lower a" using newline_lower Cons.prems(1) by force
      then show ?thesis using Nil by (simp add: lits_ci_def lit_ci_def)
    next
      case (Cons x xs)
      have "x = newline \<longleftrightarrow> False" using Cons.prems(2) Cons by auto
      then show ?thesis using Cons.IH [of xs False] Cons.prems Cons by (simp add: lits_ci_def lit_ci_def)
    qed
  qed (simp add: lits_ci_def)
  from this [of True] show ?thesis by simp
qed

lemma match_many:
  assumes "\<forall>y \<in> set v. p y" "newline \<notin> set v" "length v \<ge> n" "\<not> p x"
    and "rmatch as (v = [] \<and> b) (x # s) c = Some r"
  shows "rmatch (Many n p # as) b (v @ x # s) c = Some r"
  using assms
proof (induction v arbitrary: n b)
  case (Cons y v)
  have "y \<noteq> newline" using Cons.prems(2) by auto
  moreover have "rmatch (Many (n - 1) p # as) False (v @ x # s) c = Some r"
    using Cons.IH [of "n - 1" False] Cons.prems by simp
  ultimately show ?case using Cons.prems(1) by simp
qed simp

lemma match_value:
  assumes "neat v"
  shows "\<exists>r. rmatch [Many 0 py_isspace, Open ''value'', Many 1 dot, Close ''value'', Eol] False
      ('' '' @ v @ newline # rest) [] = Some r \<and> group ''value'' (fst r) = v"
proof -
  obtain x xs where v: "v = x # xs" using assms by (auto simp: neat_def neq_Nil_conv)
  have sp: "py_isspace (CHR '' '')" "CHR '' '' \<noteq> newline" by code_simp+
  let ?r = "((''value'', v) # (''value'', v @ newline # rest) # [], False, newline # rest)"
  have "rmatch (Many 1 dot # [Close ''value'', Eol]) False (v @ newline # rest) [(''value'', v @ newline # rest)] = Some ?r"
    by (rule match_many) (use assms in \<open>auto simp: neat_def dot_def close_group_def Suc_le_eq\<close>)
  then have "rmatch [Open ''value'', Many 1 dot, Close ''value'', Eol] False (x # xs @ newline # rest) [] = Some ?r"
    by (simp add: v)
  then have "rmatch (Many 0 py_isspace # [Open ''value'', Many 1 dot, Close ''value'', Eol]) False
      ('' '' @ x # xs @ newline # rest) [] = Some ?r"
    by (intro match_many) (use assms sp v in \<open>auto simp: neat_def\<close>)
  then show ?thesis by (simp add: v group_def)
qed

lemma match_hit:
  assumes "newline \<notin> set l" "newline \<notin> set k" "lower_ascii k = lower_ascii l" "l \<noteq> []" "neat v"
  shows "\<exists>r. rmatch (label_re l) True (k @ '': '' @ v @ newline # rest) [] = Some r \<and> group ''value'' (fst r) = v"
proof -
  have len: "length k = length l" using assms(3) by (metis length_map lower_ascii_def)
  have colon: "\<not> py_isspace (CHR '':'')" "CHR '':'' \<noteq> newline" "CHR '' '' \<noteq> newline" by code_simp+
  let ?line = "k @ '': '' @ v"
  have nn: "newline \<notin> set ?line" using assms(2,5) colon by (auto simp: neat_def)
  have "has_label l ?line" using assms(3) len by (simp add: has_label_def)
  then have "rmatch (label_re l) True (?line @ newline # rest) [] =
      rmatch [Many 0 py_isspace, Ch (lit (CHR '':'')), Many 0 py_isspace, Open ''value'', Many 1 dot, Close ''value'', Eol]
        False ('':'' @ ('' '' @ v @ newline # rest)) []"
    using match_label [OF assms(1) nn] assms(4) len by (simp add: label_re_def)
  moreover have "rmatch (Many 0 py_isspace # as) False (CHR '':'' # s) [] = rmatch as False (CHR '':'' # s) []" for as s
    using colon by simp
  ultimately show ?thesis using match_value [OF assms(5), of rest] colon by (simp add: lit_def)
qed

section \<open>Searching the lines\<close>

lemma bol_skip:
  "newline \<notin> set xs \<Longrightarrow> rsearch (Bol # as) False (xs @ newline # rest) =
     map_option (\<lambda>(k, r). (xs @ newline # k, r)) (rsearch (Bol # as) True rest)"
proof (induction xs)
  case Nil
  then show ?case
    by (simp add: rsearch.simps [of _ False "newline # rest"] split: option.split)
next
  case (Cons x xs)
  then have "x \<noteq> newline" by auto
  then show ?case using Cons
    by (simp add: rsearch.simps [of _ False "x # xs @ newline # rest"] option.map_comp split: option.split)
qed

lemma label_re_Bol: "label_re l = Bol # tl (label_re l)"
  by (simp add: label_re_def)

lemma label_miss_line:
  assumes "newline \<notin> set l" "newline \<notin> set line" "\<not> has_label l line"
  shows "rmatch (label_re l) True (line @ newline # rest) [] = None"
  using match_label [OF assms(1,2)] assms(3) by (simp add: label_re_def)

lemma label_skip:
  assumes "newline \<notin> set l" "newline \<notin> set line" "\<not> has_label l line"
  shows "rsearch (label_re l) True (line @ newline # rest) =
     map_option (\<lambda>(k, r). (line @ newline # k, r)) (rsearch (label_re l) True rest)"
proof (cases line)
  case Nil
  then show ?thesis
    using label_miss_line [OF assms]
    by (simp add: rsearch.simps [of _ True "newline # rest"] split: option.split)
next
  case (Cons x xs)
  then have x: "x \<noteq> newline" "newline \<notin> set xs" using assms(2) by auto
  then show ?thesis
    using label_miss_line [OF assms] bol_skip [OF x(2), of "tl (label_re l)" rest, folded label_re_Bol] Cons
    by (simp add: rsearch.simps [of _ True "x # xs @ newline # rest"] option.map_comp split: option.split)
qed

definition misses :: "string \<Rightarrow> string list \<Rightarrow> bool" where
  "misses l ms \<longleftrightarrow> (\<forall>m \<in> set ms. newline \<notin> set m \<and> \<not> has_label l m)"

lemma misses_simps [simp]:
  "misses l []" "misses l (m # ms) \<longleftrightarrow> newline \<notin> set m \<and> \<not> has_label l m \<and> misses l ms"
  by (simp_all add: misses_def)

lemma find_label_hit:
  assumes "misses l pre" "newline \<notin> set l" "l \<noteq> []" "newline \<notin> set k" "lower_ascii k = lower_ascii l" "neat v"
  shows "find_label (doc_lines (pre @ (k @ '': '' @ v) # rest)) (l # ls) = Some v"
proof -
  have "\<exists>sk c b s. rsearch (label_re l) True (doc_lines (pre @ (k @ '': '' @ v) # rest)) = Some (sk, c, b, s)
      \<and> group ''value'' c = v"
    using assms(1)
  proof (induction pre)
    case Nil
    obtain r where "rmatch (label_re l) True (k @ '': '' @ v @ newline # doc_lines rest) [] = Some r"
      "group ''value'' (fst r) = v" using match_hit [OF assms(2,4,5,3,6)] by blast
    then show ?case by (cases r) (simp add: rsearch.simps [of "label_re l" True])
  next
    case (Cons m pre)
    then have "rsearch (label_re l) True (m @ newline # doc_lines (pre @ (k @ '': '' @ v) # rest)) =
        map_option (\<lambda>(k, r). (m @ newline # k, r)) (rsearch (label_re l) True (doc_lines (pre @ (k @ '': '' @ v) # rest)))"
      by (intro label_skip assms(2)) simp_all
    then show ?case using Cons by auto
  qed
  then show ?thesis using neat_strip [OF assms(6)] by auto
qed

lemma find_label_miss:
  assumes "misses l ms" "newline \<notin> set l" "l \<noteq> []"
  shows "find_label (doc_lines ms) (l # ls) = find_label (doc_lines ms) ls"
proof -
  have "rsearch (label_re l) True (doc_lines ms) = None"
    using assms(1)
  proof (induction ms)
    case Nil
    obtain a l' where "l = a # l'" using assms(3) by (cases l) auto
    then show ?case by (simp add: rsearch.simps [of _ True "[]"] label_re_def lits_ci_def)
  next
    case (Cons m ms)
    then show ?case using label_skip [OF assms(2)] by simp
  qed
  then show ?thesis by simp
qed

section \<open>What the templates print\<close>

lemma lower_upper [simp]:
  "ascii_lower (CHR ''A'') = CHR ''a''" "ascii_lower (CHR ''B'') = CHR ''b''" "ascii_lower (CHR ''C'') = CHR ''c''"
  "ascii_lower (CHR ''D'') = CHR ''d''" "ascii_lower (CHR ''E'') = CHR ''e''" "ascii_lower (CHR ''F'') = CHR ''f''"
  "ascii_lower (CHR ''G'') = CHR ''g''" "ascii_lower (CHR ''H'') = CHR ''h''" "ascii_lower (CHR ''I'') = CHR ''i''"
  "ascii_lower (CHR ''J'') = CHR ''j''" "ascii_lower (CHR ''K'') = CHR ''k''" "ascii_lower (CHR ''L'') = CHR ''l''"
  "ascii_lower (CHR ''M'') = CHR ''m''" "ascii_lower (CHR ''N'') = CHR ''n''" "ascii_lower (CHR ''O'') = CHR ''o''"
  "ascii_lower (CHR ''P'') = CHR ''p''" "ascii_lower (CHR ''Q'') = CHR ''q''" "ascii_lower (CHR ''R'') = CHR ''r''"
  "ascii_lower (CHR ''S'') = CHR ''s''" "ascii_lower (CHR ''T'') = CHR ''t''" "ascii_lower (CHR ''U'') = CHR ''u''"
  "ascii_lower (CHR ''V'') = CHR ''v''" "ascii_lower (CHR ''W'') = CHR ''w''" "ascii_lower (CHR ''X'') = CHR ''x''"
  "ascii_lower (CHR ''Y'') = CHR ''y''" "ascii_lower (CHR ''Z'') = CHR ''z''" "ascii_lower (CHR ''a'') = CHR ''a''"
  "ascii_lower (CHR ''b'') = CHR ''b''" "ascii_lower (CHR ''c'') = CHR ''c''" "ascii_lower (CHR ''d'') = CHR ''d''"
  "ascii_lower (CHR ''e'') = CHR ''e''" "ascii_lower (CHR ''f'') = CHR ''f''" "ascii_lower (CHR ''g'') = CHR ''g''"
  "ascii_lower (CHR ''h'') = CHR ''h''" "ascii_lower (CHR ''i'') = CHR ''i''" "ascii_lower (CHR ''j'') = CHR ''j''"
  "ascii_lower (CHR ''k'') = CHR ''k''" "ascii_lower (CHR ''l'') = CHR ''l''" "ascii_lower (CHR ''m'') = CHR ''m''"
  "ascii_lower (CHR ''n'') = CHR ''n''" "ascii_lower (CHR ''o'') = CHR ''o''" "ascii_lower (CHR ''p'') = CHR ''p''"
  "ascii_lower (CHR ''q'') = CHR ''q''" "ascii_lower (CHR ''r'') = CHR ''r''" "ascii_lower (CHR ''s'') = CHR ''s''"
  "ascii_lower (CHR ''t'') = CHR ''t''" "ascii_lower (CHR ''u'') = CHR ''u''" "ascii_lower (CHR ''v'') = CHR ''v''"
  "ascii_lower (CHR ''w'') = CHR ''w''" "ascii_lower (CHR ''x'') = CHR ''x''" "ascii_lower (CHR ''y'') = CHR ''y''"
  "ascii_lower (CHR ''z'') = CHR ''z''" "ascii_lower (CHR '' '') = CHR '' ''"
  by code_simp+

text \<open>Dates as texts, for the evaluation of printed documents.\<close>

lemma digits:
  "digit 0 = CHR ''0''" "digit (Suc 0) = CHR ''1''" "digit 2 = CHR ''2''" "digit 3 = CHR ''3''" "digit 4 = CHR ''4''"
  "digit 5 = CHR ''5''" "digit 6 = CHR ''6''" "digit 7 = CHR ''7''" "digit 8 = CHR ''8''" "digit 9 = CHR ''9''"
  by code_simp+

lemmas date_texts = dmy_def isoformat_def pad_2 pad_4 digits

lemmas date_facts = wf_date_def valid_date_def days_in_month_def is_leap_def

lemma dmy_chars: "wf_date x \<Longrightarrow> c \<in> set (dmy x) \<Longrightarrow> isdecimal c \<or> c = CHR ''.''"
  using wf_date_bounds [of x] pad_decimal by (auto simp: dmy_def)

lemma dmy_neat:
  assumes "wf_date x"
  shows "neat (dmy x)"
proof -
  note b = wf_date_bounds [OF assms]
  have dec: "\<not> isdecimal newline" "CHR ''.'' \<noteq> newline" by code_simp+
  have sp: "isdecimal c \<Longrightarrow> \<not> py_isspace c" for c by (auto simp: isdecimal_def py_isspace_def)
  obtain a d1 where d: "zero_pad 2 (nat_str (day x)) = a # d1" "isdecimal a"
    using pad_decimal(1) [of "day x"] b by (cases "zero_pad 2 (nat_str (day x))") auto
  have y: "zero_pad 4 (nat_str (year x)) \<noteq> []" "isdecimal (last (zero_pad 4 (nat_str (year x))))"
    using pad_decimal(2) [of "year x"] b by (auto, metis length_0_conv zero_neq_numeral last_in_set)
  have "newline \<notin> set (dmy x)" using dmy_chars [OF assms, of newline] dec by auto
  then show ?thesis using d y sp by (simp add: neat_def dmy_def)
qed

lemma dmy_plain: "wf_date x \<Longrightarrow> CHR ''['' \<notin> set (dmy x)"
  using dmy_chars [of x "CHR ''[''"] by (auto simp: isdecimal_def)

text \<open>A header line that no label of a document begins.\<close>

definition header_line :: "string list \<Rightarrow> string \<Rightarrow> bool" where
  "header_line ls m \<longleftrightarrow> newline \<notin> set m \<and> (\<forall>l \<in> set ls. \<not> has_label l m)"

lemma newline_chars [simp]: "newline \<noteq> CHR '':''" "newline \<noteq> CHR '' ''" "CHR '':'' \<noteq> newline" "CHR '' '' \<noteq> newline"
  by code_simp+

lemma neat_line: "neat v \<Longrightarrow> newline \<notin> set v"
  by (simp add: neat_def)

section \<open>Labelled documents\<close>

text \<open>Header lines, lines of the form \<open>label: value\<close>, and lines after them. A label is looked up in
  the order of the extractor's table, not in the order of the lines.\<close>

definition labelled :: "(string \<times> string) list \<Rightarrow> string list" where
  "labelled kvs = map (\<lambda>(k, v). k @ '': '' @ v) kvs"

lemma labelled_simps [simp]:
  "labelled [] = []" "labelled ((k, v) # kvs) = (k @ '': '' @ v) # labelled kvs"
  "labelled (kvs @ kvs') = labelled kvs @ labelled kvs'"
  by (simp_all add: labelled_def)

fun first_label :: "(string \<times> string) list \<Rightarrow> string list \<Rightarrow> string option" where
  "first_label kvs [] = None"
| "first_label kvs (l # ls) =
     (case map_of (map (\<lambda>(k, v). (lower_ascii k, v)) kvs) (lower_ascii l) of
        Some v \<Rightarrow> Some v
      | None \<Rightarrow> first_label kvs ls)"

definition tells_apart :: "string list \<Rightarrow> string list \<Rightarrow> bool" where
  "tells_apart ls ks \<longleftrightarrow>
     (\<forall>l \<in> set ls. l \<noteq> [] \<and> newline \<notin> set l \<and> CHR '':'' \<notin> set l)
   \<and> (\<forall>k \<in> set ks. newline \<notin> set k \<and> (\<forall>l \<in> set ls. has_label l (k @ '':'') \<longrightarrow> lower_ascii k = lower_ascii l))"

lemma lower_colon: "ascii_lower (CHR '':'') = ascii_lower c \<longleftrightarrow> c = CHR '':''"
proof
  assume "ascii_lower (CHR '':'') = ascii_lower c"
  then have "code (ascii_lower c) = code (ascii_lower (CHR '':''))" by simp
  then have "code c = code (CHR '':'')" by (auto simp: code_ascii_lower split: if_splits)
  then show "c = CHR '':''" by (simp only: code_eq_iff)
qed simp

lemma has_label_key:
  "CHR '':'' \<notin> set l \<Longrightarrow> has_label l (k @ '': '' @ v) \<longleftrightarrow> has_label l (k @ '':'')"
proof (induction k arbitrary: l)
  case Nil
  then show ?case by (cases l) (auto simp: lower_colon)
next
  case (Cons x k)
  then show ?case by (cases l) simp_all
qed

lemma map_of_key:
  "map_of (map (\<lambda>(k, v). (lower_ascii k, v)) kvs) x = Some v \<Longrightarrow>
     \<exists>pre k post. kvs = pre @ (k, v) # post \<and> lower_ascii k = x \<and> (\<forall>k' \<in> set (map fst pre). lower_ascii k' \<noteq> x)"
proof (induction kvs)
  case (Cons kv kvs)
  obtain k' v' where kv: "kv = (k', v')" by (cases kv)
  show ?case
  proof (cases "lower_ascii k' = x")
    case True
    then show ?thesis using Cons.prems kv by (intro exI [of _ "[]"] exI [of _ k'] exI [of _ kvs]) simp
  next
    case False
    then obtain pre k post where "kvs = pre @ (k, v) # post" "lower_ascii k = x" "\<forall>k' \<in> set (map fst pre). lower_ascii k' \<noteq> x"
      using Cons kv by auto
    then show ?thesis using False kv by (intro exI [of _ "kv # pre"] exI [of _ k] exI [of _ post]) auto
  qed
qed simp

lemma misses_append [simp]: "misses l (xs @ ys) \<longleftrightarrow> misses l xs \<and> misses l ys"
  by (auto simp: misses_def)

lemma misses_labelled:
  assumes "tells_apart S (map fst kvs)" "\<forall>v \<in> snd ` set kvs. neat v" "l \<in> set S" "\<forall>k \<in> fst ` set kvs. lower_ascii k \<noteq> lower_ascii l"
  shows "misses l (labelled kvs)"
  unfolding misses_def
proof
  fix m
  assume "m \<in> set (labelled kvs)"
  then obtain k v where m: "m = k @ '': '' @ v" "(k, v) \<in> set kvs" by (auto simp: labelled_def)
  then have k: "k \<in> set (map fst kvs)" "k \<in> fst ` set kvs" "neat v" using assms(2) by force+
  have "newline \<notin> set m" using assms(1) k(1) neat_line [OF k(3)] by (auto simp: m(1) tells_apart_def)
  moreover have "\<not> has_label l m"
    using assms(1,3,4) k(1,2) has_label_key [of l k v] by (auto simp: m(1) tells_apart_def)
  ultimately show "newline \<notin> set m \<and> \<not> has_label l m" ..
qed

lemma template_reads:
  assumes "\<forall>l \<in> set S. misses l (H @ T)" "tells_apart S (map fst kvs)" "\<forall>v \<in> snd ` set kvs. neat v"
    and "set ls \<subseteq> set S" "first_label kvs ls = Some v"
  shows "find_label (doc_lines (H @ labelled kvs @ T)) (ls @ ls') = Some v"
  using assms(4,5)
proof (induction ls)
  case (Cons l ls)
  have l: "l \<in> set S" "l \<noteq> []" "newline \<notin> set l" using Cons.prems(1) assms(2) by (auto simp: tells_apart_def)
  show ?case
  proof (cases "map_of (map (\<lambda>(k, v). (lower_ascii k, v)) kvs) (lower_ascii l)")
    case None
    then have "lower_ascii l \<notin> fst ` set (map (\<lambda>(k, v). (lower_ascii k, v)) kvs)" unfolding map_of_eq_None_iff .
    then have "\<forall>k \<in> fst ` set kvs. lower_ascii k \<noteq> lower_ascii l" by force
    from misses_labelled [OF assms(2,3) l(1) this] have "misses l (H @ labelled kvs @ T)" using assms(1) l(1) by auto
    from find_label_miss [OF this l(3,2)] show ?thesis using Cons None by simp
  next
    case (Some v')
    with Cons.prems have v': "v' = v" by simp
    obtain pre k post where s: "kvs = pre @ (k, v) # post" "lower_ascii k = lower_ascii l"
      "\<forall>k' \<in> set (map fst pre). lower_ascii k' \<noteq> lower_ascii l"
      using map_of_key [OF Some [unfolded v']] by blast
    have "misses l (labelled pre)"
      using assms(2,3) s(3) l(1) by (intro misses_labelled [of S]) (auto simp: s(1) tells_apart_def)
    then have "misses l (H @ labelled pre)" using assms(1) l(1) by auto
    from find_label_hit [OF this l(3,2) _ s(2), of v "labelled post @ T" "ls @ ls'"]
    show ?thesis using assms(2,3) s(1) by (simp add: tells_apart_def)
  qed
qed simp

text \<open>The header lines of a template are no label of it.\<close>

lemma header_misses: "\<forall>m \<in> set H. header_line S m \<Longrightarrow> l \<in> set S \<Longrightarrow> misses l H"
  by (auto simp: misses_def header_line_def)

section \<open>The identity card\<close>

lemma id_card_lines:
  "id_card name dob num expiry country nationality [] = doc_lines ([country, ''IDENTITY CARD''] @
     labelled [(''Full name'', name), (''Date of birth'', dob), (''Document number'', num), (''Date of expiry'', expiry),
       (''Nationality'', nationality)] @ [])"
  by (simp add: id_card_def nl_newline)

definition card_labels :: "string list" where
  "card_labels = [''full name'', ''date of birth'', ''document number'', ''date of expiry'', ''nationality'']"

lemma card_apart:
  "tells_apart card_labels [''Full name'', ''Date of birth'', ''Document number'', ''Date of expiry'', ''Nationality'']"
  "header_line card_labels ''IDENTITY CARD''"
  by code_simp+

lemma card_reads:
  assumes "neat name" "neat dob" "neat num" "neat expiry" "neat nationality" "header_line card_labels country"
  shows "find_label (id_card name dob num expiry country nationality []) (''full name'' # ls) = Some name"
    "find_label (id_card name dob num expiry country nationality []) (''date of birth'' # ls) = Some dob"
    "find_label (id_card name dob num expiry country nationality []) (''document number'' # ls) = Some num"
    "find_label (id_card name dob num expiry country nationality []) (''date of expiry'' # ls) = Some expiry"
    "find_label (id_card name dob num expiry country nationality []) (''nationality'' # ls) = Some nationality"
proof -
  let ?kvs = "[(''Full name'', name), (''Date of birth'', dob), (''Document number'', num), (''Date of expiry'', expiry),
       (''Nationality'', nationality)]"
  have H: "\<forall>l \<in> set card_labels. misses l ([country, ''IDENTITY CARD''] @ [])"
    using header_misses [of "[country, ''IDENTITY CARD'']" card_labels] assms(6) card_apart(2) by simp
  have k: "tells_apart card_labels (map fst ?kvs)" "\<forall>v \<in> snd ` set ?kvs. neat v"
    using card_apart(1) assms(1-5) by simp_all
  note read = template_reads [OF H k, folded id_card_lines, where ls' = ls]
  show "find_label (id_card name dob num expiry country nationality []) (''full name'' # ls) = Some name"
    "find_label (id_card name dob num expiry country nationality []) (''date of birth'' # ls) = Some dob"
    "find_label (id_card name dob num expiry country nationality []) (''document number'' # ls) = Some num"
    "find_label (id_card name dob num expiry country nationality []) (''date of expiry'' # ls) = Some expiry"
    "find_label (id_card name dob num expiry country nationality []) (''nationality'' # ls) = Some nationality"
    using read [of "[''full name'']"] read [of "[''date of birth'']"] read [of "[''document number'']"]
      read [of "[''date of expiry'']"] read [of "[''nationality'']"]
    by (simp_all add: card_labels_def lower_ascii_def del: find_label.simps)
qed

text \<open>An extraction of labelled values, each with the extractor's confidence.\<close>

definition read_back :: "input_document \<Rightarrow> document_type \<Rightarrow> (string \<times> string) list \<Rightarrow> extraction_result" where
  "read_back d t kvs = \<lparr>er_document_id = document_id d, er_doc_type = t,
     er_fields = map (\<lambda>(k, v). (k, JStr v)) kvs, field_confidence = map (\<lambda>(k, v). (k, fl (98 / 100))) kvs,
     extraction_error = None\<rparr>"

lemma no_bracket_glitch: "CHR ''['' \<notin> set t \<Longrightarrow> no_glitch t"
  by (rule no_glitch_text) (auto simp: py_in_iff)

lemma id_card_roundtrip:
  assumes "neat name" "neat num" "neat nationality" "header_line card_labels country"
    and "wf_date dob" "wf_date expiry"
    and "CHR ''['' \<notin> set (name @ num @ nationality @ country)"
    and "text_content d = id_card name (dmy dob) num (dmy expiry) country nationality []"
  shows "fake_extraction d ID_DOCUMENT = Inr (read_back d ID_DOCUMENT
     [(''full_name'', name), (''date_of_birth'', isoformat dob), (''document_number'', num),
      (''expiry_date'', isoformat expiry), (''nationality'', nationality)])"
proof -
  note r = card_reads [OF assms(1) dmy_neat [OF assms(5)] assms(2) dmy_neat [OF assms(6)] assms(3,4)]
  let ?t = "id_card name (dmy dob) num (dmy expiry) country nationality []"
  have f: "field_value ?t ''full_name'' = Some name" "field_value ?t ''date_of_birth'' = Some (isoformat dob)"
    "field_value ?t ''document_number'' = Some num" "field_value ?t ''expiry_date'' = Some (isoformat expiry)"
    "field_value ?t ''nationality'' = Some nationality"
    by (simp_all add: field_value_def labels_def date_fields_def r parse_date_printed assms(5,6) del: find_label.simps)
  have "CHR ''['' \<notin> set ?t" using assms(7) dmy_plain assms(5,6) nl_plain by (simp add: id_card_def)
  then have g: "add_glitches ?t acc = acc" for acc using no_glitches no_bracket_glitch by blast
  have l: "label_fields ?t ID_DOCUMENT ([], []) =
      (map (\<lambda>(k, v). (k, JStr v)) [(''full_name'', name), (''date_of_birth'', isoformat dob), (''document_number'', num),
         (''expiry_date'', isoformat expiry), (''nationality'', nationality)],
       map (\<lambda>(k, v). (k, fl (98 / 100))) [(''full_name'', name), (''date_of_birth'', isoformat dob), (''document_number'', num),
         (''expiry_date'', isoformat expiry), (''nationality'', nationality)])"
    by (simp add: label_fields_def f put_def)
  show ?thesis
    by (simp add: fake_extraction_def assms(8) add_owner_list_def Let_def g l read_back_def)
qed

section \<open>Properties\<close>

text \<open>The identity card of the examples below.\<close>

definition sample_card :: input_document where
  "sample_card = \<lparr>document_id = ''d'', file_name = ''f'',
     text_content = id_card ''Anna Lind'' (dmy (Date 1990 1 31)) ''X 1'' (dmy (Date 2030 2 28)) ''SWEDEN'' ''SWE'' []\<rparr>"

lemma card_neat: "neat ''Anna Lind''" "neat ''X 1''" "neat ''SWE''" "header_line card_labels ''SWEDEN''"
  by code_simp+

lemma sample_card_facts:
  "wf_date (Date 1990 1 31)" "wf_date (Date 2030 2 28)"
  "CHR ''['' \<notin> set (''Anna Lind'' @ ''X 1'' @ ''SWE'' @ ''SWEDEN'')"
  "text_content sample_card =
     id_card ''Anna Lind'' (dmy (Date 1990 1 31)) ''X 1'' (dmy (Date 2030 2 28)) ''SWEDEN'' ''SWE'' []"
  by (simp_all add: sample_card_def date_facts)

lemma sample_card_plain: "no_glitch (text_content sample_card)"
  by (rule no_bracket_glitch) (simp add: sample_card_def id_card_def dmy_plain wf_date_def valid_date_def days_in_month_def nl_plain)

text \<open>C28: an identity card is read back. From a card printed with the template of the golden set the
  offline extractor recovers exactly what was printed, the dates in ISO form: for every name, number
  and nationality that are single trimmed lines, and every header that holds no label.\<close>

theorem card_roundtrip:
  assumes "neat name" "neat num" "neat nationality" "header_line card_labels country"
    and "wf_date dob" "wf_date expiry"
    and "CHR ''['' \<notin> set (name @ num @ nationality @ country)"
    and "text_content d = id_card name (dmy dob) num (dmy expiry) country nationality []"
  shows "fake_extraction d ID_DOCUMENT = Inr (read_back d ID_DOCUMENT
     [(''full_name'', name), (''date_of_birth'', isoformat dob), (''document_number'', num),
      (''expiry_date'', isoformat expiry), (''nationality'', nationality)])"
  by (rule id_card_roundtrip [OF assms])

lemma card_roundtrip_witness:
  "fake_extraction sample_card ID_DOCUMENT = Inr (read_back sample_card ID_DOCUMENT
     [(''full_name'', ''Anna Lind''), (''date_of_birth'', isoformat (Date 1990 1 31)), (''document_number'', ''X 1''),
      (''expiry_date'', isoformat (Date 2030 2 28)), (''nationality'', ''SWE'')])"
  by (rule card_roundtrip [OF card_neat sample_card_facts])

text \<open>C31: the offline evaluator has no false alarm. On a text without injected markers it confirms
  everything the offline extractor reads from it.\<close>

theorem evaluator_confirms_extractor:
  assumes "fake_extraction d t = Inr e" and "no_glitch (text_content d)"
  shows "fake_verify d e w = (Inr [], w)"
  by (rule fake_verify_own [OF assms])

lemma evaluator_confirms_extractor_witness:
  "\<exists>e. fake_extraction sample_card ID_DOCUMENT = Inr e \<and> fake_verify sample_card e () = (Inr [], ())"
proof -
  note e = id_card_roundtrip [OF card_neat sample_card_facts]
  show ?thesis by (rule exI, rule conjI, rule e, rule evaluator_confirms_extractor [OF e sample_card_plain])
qed

end
