(* ===== verification/Templates.thy ===== *)
theory Templates
  imports Documents
begin

text \<open>
  The other templates of the golden set and the offline extractor: the invoice, the bank statement,
  the certificate of registration and the declaration of beneficial owners, whose owner lines are
  read by the one pattern with a lazy group. Each is read back exactly as it was printed.
\<close>

section \<open>Lines of beneficial owners\<close>

lemma match_ci_self:
  "newline \<notin> set l \<Longrightarrow> l \<noteq> [] \<Longrightarrow> rmatch (lits_ci l @ as) b (l @ s) c = rmatch as False s c"
proof -
  have "newline \<notin> set l \<Longrightarrow> rmatch (lits_ci l @ as) b (l @ s) c = rmatch as (l = [] \<and> b) s c" for b
    by (induction l arbitrary: b) (auto simp: lits_ci_def lit_ci_def)
  then show "newline \<notin> set l \<Longrightarrow> l \<noteq> [] \<Longrightarrow> ?thesis" by simp
qed

lemma match_lazy:
  assumes "\<forall>y \<in> set v. p y" "newline \<notin> set v" "n \<le> length v" "v \<noteq> []"
    and "\<And>u w b. v = u @ w \<Longrightarrow> w \<noteq> [] \<Longrightarrow> rmatch as b (w @ s) c = None"
    and "rmatch as False s c = Some r"
  shows "rmatch (Lazy n p # as) b (v @ s) c = Some r"
  using assms(1-5)
proof (induction v arbitrary: n b)
  case (Cons y v)
  have y: "y \<noteq> newline" "p y" using Cons.prems(1,2) by auto
  have none: "rmatch as b (y # v @ s) c = None" for b using Cons.prems(5) [of "[]" "y # v" b] by simp
  have later: "rmatch as b (w @ s) c = None" if "v = u @ w" "w \<noteq> []" for u w b
    using Cons.prems(5) [of "y # u" w b] that by simp
  have "rmatch (Lazy (n - 1) p # as) False (v @ s) c = Some r"
  proof (cases "v = []")
    case True
    then have "n - 1 = 0" using Cons.prems(3) by simp
    then show ?thesis using True assms(6) by (cases s) simp_all
  next
    case False
    then show ?thesis using Cons.prems(1-3) later by (intro Cons.IH) auto
  qed
  then show ?case using y none by (cases "n = 0") simp_all
qed simp

text \<open>Blanks and a semicolon do not match where a word goes on.\<close>

lemma match_stuck:
  "\<exists>x \<in> set w. \<not> py_isspace x \<Longrightarrow> \<forall>x \<in> set w. x \<noteq> y \<Longrightarrow>
     rmatch (Many 0 py_isspace # Ch (lit y) # as) b (w @ s) c = None"
  by (induction w arbitrary: b) (auto simp: lit_def)

definition owner_line :: "string \<times> date \<times> nat \<Rightarrow> string" where
  "owner_line = (\<lambda>(n, d, p). ''- '' @ n @ ''; born '' @ dmy d @ ''; ownership '' @ nat_str p @ ''%'')"

definition owner_ok :: "string \<times> date \<times> nat \<Rightarrow> bool" where
  "owner_ok = (\<lambda>(n, d, p). neat n \<and> CHR '';'' \<notin> set n \<and> wf_date d)"

lemma blanks:
  "py_isspace (CHR '' '')" "\<not> py_isspace (CHR '';'')" "\<not> py_isspace (CHR ''%'')" "\<not> py_isspace (CHR ''b'')"
  "\<not> py_isspace (CHR ''o'')" "newline \<noteq> CHR '';''" "newline \<noteq> CHR ''%''" "newline \<noteq> CHR ''-''" "CHR '';'' \<noteq> newline"
  "CHR ''%'' \<noteq> newline" "CHR ''-'' \<noteq> newline" "\<not> isdecimal (CHR '';'')" "\<not> isdecimal (CHR ''%'')"
  "newline \<notin> set ''born''" "newline \<notin> set ''ownership''" "\<not> isdecimal newline" "newline \<noteq> CHR ''.''"
  by code_simp+

lemma nat_str_digits: "nat_str p \<noteq> []" "\<forall>x \<in> set (nat_str p). isdecimal x"
proof -
  have "nat_str p \<noteq> [] \<and> (\<forall>x \<in> set (nat_str p). isdecimal x)"
  proof (induction p rule: nat_str.induct)
    case (1 p)
    then show ?case by (cases "p < 10") (auto simp: nat_str_1 nat_str_step digit_facts)
  qed
  then show "nat_str p \<noteq> []" "\<forall>x \<in> set (nat_str p). isdecimal x" by auto
qed

lemma decimal_not_space: "isdecimal x \<Longrightarrow> \<not> py_isspace x" "isdecimal x \<Longrightarrow> x \<noteq> newline"
  by (auto simp: isdecimal_def py_isspace_def code_newline)

definition pct_atoms :: "atom list" where
  "pct_atoms = [Many 1 py_isspace, Open ''pct'', Many 1 (\<lambda>x. isdecimal x \<or> x = CHR ''.''), Close ''pct'',
     Many 0 py_isspace, Ch (lit (CHR ''%''))]"

lemma match_pct:
  "rmatch pct_atoms False ('' '' @ nat_str p @ ''%'' @ rest) c =
     Some ((''pct'', nat_str p) # (''pct'', nat_str p @ ''%'' @ rest) # c, False, rest)"
proof -
  note d = nat_str_digits [of p]
  obtain x xs where x: "nat_str p = x # xs" using d(1) by (cases "nat_str p") auto
  let ?s = "''%'' @ rest" and ?c = "(''pct'', nat_str p @ ''%'' @ rest) # c"
  let ?q = "\<lambda>x. isdecimal x \<or> x = CHR ''.''"
  have "rmatch (Many 1 ?q # [Close ''pct'', Many 0 py_isspace, Ch (lit (CHR ''%''))]) False (nat_str p @ CHR ''%'' # rest) ?c
      = Some ((''pct'', nat_str p) # ?c, False, rest)"
    using d blanks decimal_not_space(2)
    by (intro match_many) (auto simp: close_group_def lit_def Suc_le_eq)
  then have "rmatch (Open ''pct'' # Many 1 ?q # [Close ''pct'', Many 0 py_isspace, Ch (lit (CHR ''%''))]) False
      (x # xs @ ''%'' @ rest) c = Some ((''pct'', nat_str p) # ?c, False, rest)" by (simp add: x)
  then have "rmatch (Many 1 py_isspace # Open ''pct'' # Many 1 ?q # [Close ''pct'', Many 0 py_isspace, Ch (lit (CHR ''%''))])
      False ('' '' @ x # xs @ ''%'' @ rest) c = Some ((''pct'', nat_str p) # ?c, False, rest)"
    using d(2) x decimal_not_space(1) blanks by (intro match_many) auto
  then show ?thesis by (simp add: pct_atoms_def x)
qed

definition dob_atoms :: "atom list" where
  "dob_atoms = Many 1 py_isspace # Open ''dob'' # Many 1 (\<lambda>x. isdecimal x \<or> x = CHR ''.'' \<or> x = CHR ''-'') # Close ''dob''
     # Many 0 py_isspace # Ch (lit (CHR '';'')) # Many 0 py_isspace # lits_ci ''ownership'' @ pct_atoms"

lemma match_dob:
  assumes "wf_date d"
  shows "rmatch dob_atoms False ('' '' @ dmy d @ ''; ownership '' @ nat_str p @ ''%'' @ rest) c =
     Some ((''pct'', nat_str p) # (''pct'', nat_str p @ ''%'' @ rest) # (''dob'', dmy d)
       # (''dob'', dmy d @ ''; ownership '' @ nat_str p @ ''%'' @ rest) # c, False, rest)"
proof -
  let ?tail = "''ownership'' @ '' '' @ nat_str p @ ''%'' @ rest"
  let ?c1 = "(''dob'', dmy d @ ''; ownership '' @ nat_str p @ ''%'' @ rest) # c"
  let ?c2 = "(''dob'', dmy d) # ?c1"
  let ?r = "((''pct'', nat_str p) # (''pct'', nat_str p @ ''%'' @ rest) # ?c2, False, rest)"
  let ?q = "\<lambda>x. isdecimal x \<or> x = CHR ''.'' \<or> x = CHR ''-''"
  let ?as = "Ch (lit (CHR '';'')) # Many 0 py_isspace # lits_ci ''ownership'' @ pct_atoms"
  obtain x xs where x: "dmy d = x # xs" "\<not> py_isspace x" using dmy_neat [OF assms] by (auto simp: neat_def neq_Nil_conv)
  have "rmatch (lits_ci ''ownership'' @ pct_atoms) False ?tail ?c2 = Some ?r"
    using match_ci_self [of "''ownership''" pct_atoms False] blanks match_pct by simp
  then have "rmatch (Many 0 py_isspace # lits_ci ''ownership'' @ pct_atoms) False
      ('' '' @ CHR ''o'' # ''wnership'' @ '' '' @ nat_str p @ ''%'' @ rest) ?c2 = Some ?r"
    using blanks by (intro match_many) auto
  then have "rmatch ?as False (CHR '';'' # '' '' @ ?tail) ?c2 = Some ?r" using blanks by (simp add: lit_def)
  then have "rmatch (Many 0 py_isspace # ?as) False ([] @ CHR '';'' # '' '' @ ?tail) ?c2 = Some ?r"
    using blanks by (intro match_many) auto
  then have "rmatch (Close ''dob'' # Many 0 py_isspace # ?as) False (CHR '';'' # '' '' @ ?tail) ?c1 = Some ?r"
    by (simp add: close_group_def)
  then have "rmatch (Many 1 ?q # Close ''dob'' # Many 0 py_isspace # ?as) False (dmy d @ CHR '';'' # '' '' @ ?tail) ?c1 = Some ?r"
    using dmy_chars [OF assms] dmy_neat [OF assms] blanks by (intro match_many) (auto simp: neat_def Suc_le_eq)
  then have "rmatch (Open ''dob'' # Many 1 ?q # Close ''dob'' # Many 0 py_isspace # ?as) False
      (x # xs @ CHR '';'' # '' '' @ ?tail) c = Some ?r" by (simp add: x(1))
  then have "rmatch (Many 1 py_isspace # Open ''dob'' # Many 1 ?q # Close ''dob'' # Many 0 py_isspace # ?as) False
      ('' '' @ x # xs @ CHR '';'' # '' '' @ ?tail) c = Some ?r"
    using x(2) blanks by (intro match_many) auto
  then show ?thesis by (simp add: dob_atoms_def x(1))
qed

lemma owner_re_eq:
  "owner_re = Bol # Ch (\<lambda>x. x = CHR ''-'' \<or> x = CHR ''*'') # Many 0 py_isspace # Open ''name''
     # Lazy 1 (\<lambda>x. x \<noteq> CHR '';'') # Close ''name'' # Many 0 py_isspace # Ch (lit (CHR '';'')) # Many 0 py_isspace
     # lits_ci ''born'' @ dob_atoms"
  by (simp add: owner_re_def dob_atoms_def pct_atoms_def)

lemma match_owner:
  assumes "owner_ok (n, d, p)"
  shows "\<exists>c. rmatch owner_re True (owner_line (n, d, p) @ rest) [] = Some (c, False, rest)
    \<and> group ''name'' c = n \<and> group ''dob'' c = dmy d \<and> group ''pct'' c = nat_str p"
proof -
  have ok: "neat n" "CHR '';'' \<notin> set n" "wf_date d" using assms by (simp_all add: owner_ok_def)
  let ?tail = "'' '' @ dmy d @ ''; ownership '' @ nat_str p @ ''%'' @ rest"
  let ?c1 = "[(''name'', n @ ''; born'' @ ?tail)]"
  let ?c2 = "(''name'', n) # ?c1"
  let ?c = "(''pct'', nat_str p) # (''pct'', nat_str p @ ''%'' @ rest) # (''dob'', dmy d)
       # (''dob'', dmy d @ ''; ownership '' @ nat_str p @ ''%'' @ rest) # ?c2"
  let ?r = "(?c, False, rest)"
  let ?as = "Ch (lit (CHR '';'')) # Many 0 py_isspace # lits_ci ''born'' @ dob_atoms"
  let ?bs = "Close ''name'' # Many 0 py_isspace # ?as"
  obtain x xs where x: "n = x # xs" "\<not> py_isspace x" using ok(1) by (auto simp: neat_def neq_Nil_conv)
  have "rmatch (lits_ci ''born'' @ dob_atoms) False (''born'' @ ?tail) ?c2 = Some ?r"
    using match_ci_self [of "''born''" dob_atoms False ?tail ?c2] match_dob [OF ok(3), of p rest ?c2] blanks by simp
  then have "rmatch (Many 0 py_isspace # lits_ci ''born'' @ dob_atoms) False
      ('' '' @ CHR ''b'' # ''orn'' @ ?tail) ?c2 = Some ?r"
    using blanks by (intro match_many) auto
  then have "rmatch ?as False (CHR '';'' # '' '' @ ''born'' @ ?tail) ?c2 = Some ?r" using blanks by (simp add: lit_def)
  then have "rmatch (Many 0 py_isspace # ?as) False ([] @ CHR '';'' # '' '' @ ''born'' @ ?tail) ?c2 = Some ?r"
    using blanks by (intro match_many) auto
  then have last: "rmatch ?bs False (CHR '';'' # '' '' @ ''born'' @ ?tail) ?c1 = Some ?r" by (simp add: close_group_def)
  have none: "rmatch ?bs b (w @ CHR '';'' # '' '' @ ''born'' @ ?tail) ?c1 = None" if "n = u @ w" "w \<noteq> []" for u w b
  proof -
    have "last w \<in> set w" "\<not> py_isspace (last w)" using ok(1) that by (auto simp: neat_def)
    then have "\<exists>x \<in> set w. \<not> py_isspace x" by blast
    moreover have "\<forall>x \<in> set w. x \<noteq> CHR '';''" using ok(2) that(1) by auto
    ultimately show ?thesis by (simp only: rmatch.simps match_stuck)
  qed
  have "rmatch (Lazy 1 (\<lambda>x. x \<noteq> CHR '';'') # ?bs) False (n @ CHR '';'' # '' '' @ ''born'' @ ?tail) ?c1 = Some ?r"
  proof (rule match_lazy [OF _ _ _ _ none last])
    show "\<forall>y \<in> set n. y \<noteq> CHR '';''" using ok(2) by auto
  qed (use ok(1) in \<open>auto simp: neat_def Suc_le_eq\<close>)
  then have "rmatch (Open ''name'' # Lazy 1 (\<lambda>x. x \<noteq> CHR '';'') # ?bs) False
      (x # xs @ CHR '';'' # '' '' @ ''born'' @ ?tail) [] = Some ?r" by (simp add: x(1))
  then have "rmatch (Many 0 py_isspace # Open ''name'' # Lazy 1 (\<lambda>x. x \<noteq> CHR '';'') # ?bs) False
      ('' '' @ x # xs @ CHR '';'' # '' '' @ ''born'' @ ?tail) [] = Some ?r"
    using x(2) blanks by (intro match_many) auto
  then have "rmatch owner_re True (owner_line (n, d, p) @ rest) [] = Some ?r"
    using blanks by (simp add: owner_re_eq owner_line_def x(1))
  moreover have "group ''name'' ?c = n" "group ''dob'' ?c = dmy d" "group ''pct'' ?c = nat_str p"
    by (simp_all add: group_def)
  ultimately show ?thesis by blast
qed

text \<open>The owners of a declaration, in order.\<close>

definition owner_json :: "string \<times> date \<times> nat \<Rightarrow> jval" where
  "owner_json = (\<lambda>(n, d, p). JObj [(''full_name'', JStr n), (''date_of_birth'', JStr (isoformat d)),
     (''ownership_percent'', JFloat (fl (of_nat p)))])"

lemma digits_value_app: "digits_value (s @ [digit n]) = digits_value s * 10 + n" if "n < 10"
  using that digit_facts [of n] by (simp add: digits_value_def)

lemma digits_value_nat_str: "digits_value (nat_str p) = p"
proof (induction p rule: nat_str.induct)
  case (1 p)
  show ?case
  proof (cases "p < 10")
    case True
    then show ?thesis using digits_value_app [of p "[]"] by (simp add: nat_str_1) (simp add: digits_value_def)
  next
    case False
    then show ?thesis using 1 by (simp add: nat_str_step digits_value_app)
  qed
qed

lemma parse_pct_nat: "parse_pct (nat_str p) = Inr (fl (of_nat p))"
proof -
  have "CHR ''.'' \<notin> set (nat_str p)" using nat_str_digits(2) [of p] by (auto simp: isdecimal_def)
  then have "\<forall>c \<in> set (nat_str p). c \<noteq> CHR ''.''" by auto
  then have run: "takeWhile (\<lambda>c. c \<noteq> CHR ''.'') (nat_str p) = nat_str p" "dropWhile (\<lambda>c. c \<noteq> CHR ''.'') (nat_str p) = []"
    by (simp_all add: takeWhile_eq_all_conv dropWhile_eq_Nil_conv)
  show ?thesis
    unfolding parse_pct_def Let_def run using nat_str_digits(1) by (simp add: digits_value_nat_str)
qed

lemma search_owner:
  assumes "owner_ok x"
  shows "\<exists>c. rsearch owner_re True (owner_line x @ rest) = Some ([], c, False, rest)
    \<and> owners_of (c # cs) = map_sum id (\<lambda>os. owner_json x # os) (owners_of cs)"
proof -
  obtain n d p where x: "x = (n, d, p)" by (cases x)
  obtain c where c: "rmatch owner_re True (owner_line x @ rest) [] = Some (c, False, rest)"
    "group ''name'' c = n" "group ''dob'' c = dmy d" "group ''pct'' c = nat_str p"
    using match_owner assms unfolding x by blast
  have "neat n" "wf_date d" using assms by (simp_all add: x owner_ok_def)
  then have "owners_of (c # cs) = map_sum id (\<lambda>os. owner_json x # os) (owners_of cs)"
    by (cases "owners_of cs") (simp_all add: c parse_pct_nat parse_date_printed neat_strip owner_json_def x opt_json_def)
  moreover have "rsearch owner_re True (owner_line x @ rest) = Some ([], c, False, rest)"
    by (simp add: rsearch.simps [of owner_re True] c(1))
  ultimately show ?thesis by blast
qed

lemma no_owner:
  "rmatch owner_re True [] c = None"
  "x \<notin> {CHR ''-'', CHR ''*''} \<Longrightarrow> rmatch owner_re True (x # xs) c = None"
  by (simp_all add: owner_re_eq)

lemma search_next_line:
  "rsearch owner_re False (newline # rest) = map_option (\<lambda>(k, r). (newline # k, r)) (rsearch owner_re True rest)"
  using bol_skip [of "[]" "tl owner_re" rest] by (simp add: owner_re_eq)

lemma owners_lines:
  "\<forall>x \<in> set os. owner_ok x \<Longrightarrow>
     owners_of (finditer owner_re False (newline # doc_lines (map owner_line os))) = Inr (map owner_json os)"
proof (induction os)
  case Nil
  have "rsearch owner_re True [] = None" by (simp add: rsearch.simps [of owner_re True "[]"] no_owner)
  then show ?case by (simp add: finditer.simps [of owner_re False] search_next_line)
next
  case (Cons x os)
  let ?rest = "newline # doc_lines (map owner_line os)"
  obtain c where c: "rsearch owner_re True (owner_line x @ ?rest) = Some ([], c, False, ?rest)"
    "owners_of (c # finditer owner_re False ?rest) = map_sum id (\<lambda>os. owner_json x # os) (owners_of (finditer owner_re False ?rest))"
    using search_owner Cons.prems by (metis list.set_intros(1))
  have "owner_line x \<noteq> []" by (cases x) (simp add: owner_line_def)
  then have "finditer owner_re False (newline # owner_line x @ ?rest) = c # finditer owner_re False ?rest"
    by (simp add: finditer.simps [of owner_re False "newline # owner_line x @ ?rest"] search_next_line c(1))
  then show ?case using c(2) Cons by simp
qed

lemma search_skip_line:
  assumes "newline \<notin> set line" "line = [] \<or> hd line \<notin> {CHR ''-'', CHR ''*''}"
  shows "rsearch owner_re True (line @ newline # rest) =
     map_option (\<lambda>(k, r). (line @ newline # k, r)) (rsearch owner_re True rest)"
proof (cases line)
  case Nil
  have "newline \<notin> {CHR ''-'', CHR ''*''}" by code_simp
  then show ?thesis using Nil search_next_line [of rest]
    by (simp add: rsearch.simps [of owner_re True "newline # rest"] rsearch.simps [of owner_re False "newline # rest"]
        no_owner split: option.splits)
next
  case (Cons x xs)
  then have x: "x \<noteq> newline" "newline \<notin> set xs" "x \<notin> {CHR ''-'', CHR ''*''}" using assms by auto
  have b: "owner_re = Bol # tl owner_re" by (simp add: owner_re_eq)
  note none = no_owner(2) [OF x(3)]
  show ?thesis
    using x(1) Cons bol_skip [OF x(2), of "tl owner_re" rest, folded b]
    by (simp add: rsearch.simps [of owner_re True "x # xs @ newline # rest"] none option.map_comp split: option.split)
qed

section \<open>The templates are read back\<close>

lemma dict_set_new: "k \<notin> fst ` set d \<Longrightarrow> dict_set k v d = d @ [(k, v)]"
  by (induction d) auto

lemma labels_fold:
  assumes "\<forall>(f, v) \<in> set kvs. field_value txt1 f = Some v" "distinct (map fst kvs)"
    and "fst ` set kvs \<inter> fst ` set A = {}" "map fst B = map fst A"
  shows "fold (\<lambda>fld acc. case field_value txt1 fld of None \<Rightarrow> acc | Some v \<Rightarrow> put fld (JStr v) acc) (map fst kvs) (A, B) =
     (A @ map (\<lambda>(k, v). (k, JStr v)) kvs, B @ map (\<lambda>(k, v). (k, fl (98 / 100))) kvs)"
  using assms
proof (induction kvs arbitrary: A B)
  case (Cons kv kvs)
  obtain k v where kv: "kv = (k, v)" by (cases kv)
  have ks: "fst ` set B = fst ` set A" using arg_cong [OF Cons.prems(4), where f = set] by simp
  have k: "k \<notin> fst ` set A" "k \<notin> fst ` set B" "field_value txt1 k = Some v" using Cons.prems(1,3) kv ks by auto
  then have step: "put k (JStr v) (A, B) = (A @ [(k, JStr v)], B @ [(k, fl (98 / 100))])"
    by (simp add: put_def dict_set_new)
  have "fst ` set kvs \<inter> fst ` set (A @ [(k, JStr v)]) = {}" using Cons.prems(2,3) kv by auto
  from Cons.IH [OF _ _ this, of "B @ [(k, fl (98 / 100))]"] Cons.prems(1,2,4)
  show ?case by (simp add: kv k(3) step)
qed simp

lemma labels_extraction:
  assumes "map fst kvs = fields_by_type t" "\<forall>(f, v) \<in> set kvs. field_value (text_content d) f = Some v"
    and "t \<notin> {UBO_DECLARATION, UNKNOWN}" "no_glitch (text_content d)"
  shows "fake_extraction d t = Inr (read_back d t kvs)"
proof -
  have g: "add_glitches (text_content d) acc = acc" for acc using no_glitches assms(4) by blast
  have "distinct (map fst kvs)" unfolding assms(1) by (cases t) simp_all
  then have l: "label_fields (text_content d) t ([], []) = (map (\<lambda>(k, v). (k, JStr v)) kvs, map (\<lambda>(k, v). (k, fl (98 / 100))) kvs)"
    using labels_fold [OF assms(2), of "[]" "[]"] by (simp add: label_fields_def assms(1) [symmetric])
  have "kvs \<noteq> []" using assms(1,3) by (cases t) auto
  then show ?thesis using assms(3) by (simp add: fake_extraction_def add_owner_list_def Let_def l g read_back_def)
qed

text \<open>What a field of a labelled document reads.\<close>

lemma template_field:
  assumes "\<forall>l \<in> set S. misses l (H @ T)" "tells_apart S (map fst kvs)" "\<forall>v \<in> snd ` set kvs. neat v"
    and "set ls \<subseteq> set S" "first_label kvs ls = Some v" "the (map_of labels f) = ls @ ls'"
  shows "field_value (doc_lines (H @ labelled kvs @ T)) f = (if f \<in> set date_fields then parse_date v else Some v)"
  unfolding field_value_def assms(6) template_reads [OF assms(1-5)] by simp

definition invoice_labels :: "string list" where
  "invoice_labels = [''full name'', ''name'', ''customer'', ''service address'', ''invoice date'', ''issuer'']"

definition statement_labels :: "string list" where
  "statement_labels = [''full name'', ''name'', ''customer'', ''account holder'', ''service address'', ''supply address'',
     ''address'', ''invoice date'', ''issue date'', ''statement date'', ''issuer'']"

definition cert_labels :: "string list" where
  "cert_labels = [''company name'', ''registration number'', ''registration date'', ''legal form'', ''registered office'']"

lemma invoice_lines:
  "invoice name addr issue issuer = doc_lines ([py_upper issuer, ''ELECTRICITY INVOICE''] @
     labelled [(''Customer'', name), (''Service address'', addr), (''Invoice date'', issue), (''Issuer'', issuer)] @ [])"
  by (simp add: invoice_def nl_newline)

lemma statement_lines:
  "bank_statement name addr issue bank = doc_lines ([py_upper bank, ''BANK STATEMENT''] @
     labelled [(''Account holder'', name), (''Address'', addr), (''Statement date'', issue), (''Issuer'', bank)] @ [])"
  by (simp add: bank_statement_def nl_newline)

lemma cert_lines:
  "registration_cert company num reg_date legal_form office =
     doc_lines ([''REPUBLIC OF ESTONIA '' @ em_dash @ '' COMMERCIAL REGISTER'', ''CERTIFICATE OF REGISTRATION''] @
       labelled [(''Company name'', company), (''Registration number'', num), (''Registration date'', reg_date),
         (''Legal form'', legal_form), (''Registered office'', office)] @ [])"
  by (simp add: registration_cert_def nl_newline)

lemma apart:
  "tells_apart invoice_labels [''Customer'', ''Service address'', ''Invoice date'', ''Issuer'']"
  "tells_apart statement_labels [''Account holder'', ''Address'', ''Statement date'', ''Issuer'']"
  "tells_apart cert_labels [''Company name'', ''Registration number'', ''Registration date'', ''Legal form'', ''Registered office'']"
  "header_line invoice_labels ''ELECTRICITY INVOICE''" "header_line statement_labels ''BANK STATEMENT''"
  "header_line cert_labels (''REPUBLIC OF ESTONIA '' @ em_dash @ '' COMMERCIAL REGISTER'')"
  "header_line cert_labels ''CERTIFICATE OF REGISTRATION''"
  by code_simp+

lemma label_lists:
  "the (map_of labels ''full_name'') = [''full name'', ''name'', ''customer'', ''account holder'', ''surname and given names'']"
  "the (map_of labels ''address'') = [''service address'', ''supply address'', ''address'']"
  "the (map_of labels ''issue_date'') = [''invoice date'', ''issue date'', ''statement date'']"
  "the (map_of labels ''issuer'') = [''issuer'']" "the (map_of labels ''company_name'') = [''company name'', ''legal name'']"
  "the (map_of labels ''registration_number'') = [''registration number'', ''registry code'']"
  "the (map_of labels ''registration_date'') = [''registration date'', ''registered on'']"
  "the (map_of labels ''legal_form'') = [''legal form'']"
  "the (map_of labels ''registered_address'') = [''registered office'', ''registered address'']"
  by (simp_all add: labels_def)

lemma invoice_roundtrip:
  assumes "neat name" "neat addr" "neat issuer" "header_line invoice_labels (py_upper issuer)" "wf_date issue"
    and "no_glitch (text_content d)" and "text_content d = invoice name addr (dmy issue) issuer"
  shows "fake_extraction d PROOF_OF_ADDRESS = Inr (read_back d PROOF_OF_ADDRESS
     [(''full_name'', name), (''address'', addr), (''issue_date'', isoformat issue), (''issuer'', issuer)])"
proof -
  let ?kvs = "[(''Customer'', name), (''Service address'', addr), (''Invoice date'', dmy issue), (''Issuer'', issuer)]"
  have H: "\<forall>l \<in> set invoice_labels. misses l ([py_upper issuer, ''ELECTRICITY INVOICE''] @ [])"
    using header_misses [of "[py_upper issuer, ''ELECTRICITY INVOICE'']" invoice_labels] assms(4) apart by simp
  have k: "tells_apart invoice_labels (map fst ?kvs)" "\<forall>v \<in> snd ` set ?kvs. neat v"
    using apart(1) assms(1-3) dmy_neat [OF assms(5)] by simp_all
  note fld = template_field [OF H k, folded invoice_lines, folded assms(7)]
  have f: "field_value (text_content d) ''full_name'' = Some name" "field_value (text_content d) ''address'' = Some addr"
    "field_value (text_content d) ''issue_date'' = Some (isoformat issue)" "field_value (text_content d) ''issuer'' = Some issuer"
    using fld [of "[''full name'', ''name'', ''customer'']" name "''full_name''"] fld [of "[''service address'']" addr "''address''"]
      fld [of "[''invoice date'']" "dmy issue" "''issue_date''"] fld [of "[''issuer'']" issuer "''issuer''"]
    by (simp_all add: label_lists date_fields_def lower_ascii_def invoice_labels_def parse_date_printed [OF assms(5)])
  show ?thesis by (rule labels_extraction) (simp_all add: f assms(6))
qed

lemma statement_roundtrip:
  assumes "neat name" "neat addr" "neat bank" "header_line statement_labels (py_upper bank)" "wf_date issue"
    and "no_glitch (text_content d)" and "text_content d = bank_statement name addr (dmy issue) bank"
  shows "fake_extraction d PROOF_OF_ADDRESS = Inr (read_back d PROOF_OF_ADDRESS
     [(''full_name'', name), (''address'', addr), (''issue_date'', isoformat issue), (''issuer'', bank)])"
proof -
  let ?kvs = "[(''Account holder'', name), (''Address'', addr), (''Statement date'', dmy issue), (''Issuer'', bank)]"
  have H: "\<forall>l \<in> set statement_labels. misses l ([py_upper bank, ''BANK STATEMENT''] @ [])"
    using header_misses [of "[py_upper bank, ''BANK STATEMENT'']" statement_labels] assms(4) apart by simp
  have k: "tells_apart statement_labels (map fst ?kvs)" "\<forall>v \<in> snd ` set ?kvs. neat v"
    using apart(2) assms(1-3) dmy_neat [OF assms(5)] by simp_all
  note fld = template_field [OF H k, folded statement_lines, folded assms(7)]
  have f: "field_value (text_content d) ''full_name'' = Some name" "field_value (text_content d) ''address'' = Some addr"
    "field_value (text_content d) ''issue_date'' = Some (isoformat issue)" "field_value (text_content d) ''issuer'' = Some bank"
    using fld [of "[''full name'', ''name'', ''customer'', ''account holder'']" name "''full_name''"]
      fld [of "[''service address'', ''supply address'', ''address'']" addr "''address''"]
      fld [of "[''invoice date'', ''issue date'', ''statement date'']" "dmy issue" "''issue_date''"]
      fld [of "[''issuer'']" bank "''issuer''"]
    by (simp_all add: label_lists date_fields_def lower_ascii_def statement_labels_def parse_date_printed [OF assms(5)])
  show ?thesis by (rule labels_extraction) (simp_all add: f assms(6))
qed

lemma cert_roundtrip:
  assumes "neat company" "neat num" "neat form" "neat office" "wf_date reg"
    and "no_glitch (text_content d)" and "text_content d = registration_cert company num (dmy reg) form office"
  shows "fake_extraction d BUSINESS_REGISTRATION = Inr (read_back d BUSINESS_REGISTRATION
     [(''company_name'', company), (''registration_number'', num), (''registration_date'', isoformat reg),
      (''legal_form'', form), (''registered_address'', office)])"
proof -
  let ?kvs = "[(''Company name'', company), (''Registration number'', num), (''Registration date'', dmy reg),
         (''Legal form'', form), (''Registered office'', office)]"
  let ?h = "[''REPUBLIC OF ESTONIA '' @ em_dash @ '' COMMERCIAL REGISTER'', ''CERTIFICATE OF REGISTRATION'']"
  have H: "\<forall>l \<in> set cert_labels. misses l (?h @ [])"
    using header_misses [of ?h cert_labels] apart by (simp del: append.simps append_assoc)
  have k: "tells_apart cert_labels (map fst ?kvs)" "\<forall>v \<in> snd ` set ?kvs. neat v"
    using apart(3) assms(1-4) dmy_neat [OF assms(5)] by simp_all
  note fld = template_field [OF H k, folded cert_lines, folded assms(7)]
  have f: "field_value (text_content d) ''company_name'' = Some company"
    "field_value (text_content d) ''registration_number'' = Some num"
    "field_value (text_content d) ''registration_date'' = Some (isoformat reg)"
    "field_value (text_content d) ''legal_form'' = Some form" "field_value (text_content d) ''registered_address'' = Some office"
    using fld [of "[''company name'']" company "''company_name''"] fld [of "[''registration number'']" num "''registration_number''"]
      fld [of "[''registration date'']" "dmy reg" "''registration_date''"] fld [of "[''legal form'']" form "''legal_form''"]
      fld [of "[''registered office'']" office "''registered_address''"]
    by (simp_all add: label_lists date_fields_def lower_ascii_def cert_labels_def parse_date_printed [OF assms(5)])
  show ?thesis by (rule labels_extraction) (simp_all add: f assms(6))
qed

text \<open>A declaration of beneficial owners: every owner, in order.\<close>

definition print_owner :: "string \<times> date \<times> nat \<Rightarrow> string \<times> string \<times> nat" where
  "print_owner = (\<lambda>(n, d, p). (n, dmy d, p))"

lemma join_lines: "ls \<noteq> [] \<Longrightarrow> py_join nl ls @ nl = doc_lines ls"
proof (induction ls)
  case (Cons l ls)
  then show ?case by (cases ls) (simp_all add: nl_newline)
qed simp

lemma declaration_lines:
  assumes "os \<noteq> []"
  shows "ubo_declaration company (map print_owner os) = doc_lines ([''UBO DECLARATION''] @
     labelled [(''Company name'', company)] @ ''Beneficial owners:'' # map owner_line os)"
proof -
  have rows: "map (\<lambda>(n, d, p). ''- '' @ n @ ''; born '' @ d @ ''; ownership '' @ nat_str p @ ''%'') (map print_owner os) = map owner_line os"
    by (auto simp: print_owner_def owner_line_def)
  show ?thesis
    unfolding ubo_declaration_def rows using join_lines [of "map owner_line os"] assms by (simp add: nl_newline)
qed

definition declared_owners :: "input_document \<Rightarrow> string \<Rightarrow> (string \<times> date \<times> nat) list \<Rightarrow> extraction_result" where
  "declared_owners d company os = \<lparr>er_document_id = document_id d, er_doc_type = UBO_DECLARATION,
     er_fields = [(''company_name'', JStr company), (''beneficial_owners'', JList (map owner_json os))],
     field_confidence = [(''company_name'', fl (98 / 100)), (''beneficial_owners'', fl (98 / 100))],
     extraction_error = None\<rparr>"

lemma declaration_heads:
  "newline \<notin> set ''UBO DECLARATION''" "newline \<notin> set ''Company name''" "newline \<notin> set ''Beneficial owners:''"
  "header_line [''company name''] ''UBO DECLARATION''" "tells_apart [''company name''] [''Company name'']"
  "header_line [''company name''] ''Beneficial owners:''"
  by code_simp+

lemma owner_line_plain: "owner_ok x \<Longrightarrow> newline \<notin> set (owner_line x)"
proof -
  assume a: "owner_ok x"
  obtain n d p where x: "x = (n, d, p)" by (cases x)
  have "newline \<notin> set n" "newline \<notin> set (dmy d)" using a dmy_neat by (auto simp: x owner_ok_def neat_def)
  moreover have "newline \<notin> set (nat_str p)" using nat_str_digits(2) blanks(16) by auto
  moreover have "newline \<notin> set ''- ''" "newline \<notin> set ''; born ''" "newline \<notin> set ''; ownership ''" "newline \<notin> set ''%''"
    by code_simp+
  ultimately show ?thesis by (simp add: owner_line_def x)
qed

lemma declaration_roundtrip_aux:
  assumes "neat company" "os \<noteq> []" "\<forall>x \<in> set os. owner_ok x"
    and "no_glitch (text_content d)" and "text_content d = ubo_declaration company (map print_owner os)"
  shows "fake_extraction d UBO_DECLARATION = Inr (declared_owners d company os)"
proof -
  let ?T = "''Beneficial owners:'' # map owner_line os"
  have t: "text_content d = doc_lines ([''UBO DECLARATION''] @ labelled [(''Company name'', company)] @ ?T)"
    unfolding assms(5) by (rule declaration_lines [OF assms(2)])
  have "\<not> has_label ''company name'' (owner_line x)" for x by (cases x) (simp add: owner_line_def)
  then have "misses ''company name'' (map owner_line os)"
    using assms(3) owner_line_plain by (simp add: misses_def)
  then have H: "\<forall>l \<in> set [''company name'']. misses l ([''UBO DECLARATION''] @ ?T)"
    using declaration_heads(4,6) by (simp add: header_line_def)
  have "field_value (text_content d) ''company_name'' = Some company"
    using template_field [OF H, of "[(''Company name'', company)]" "[''company name'']" company "''company_name''" "[''legal name'']"]
      declaration_heads(5) assms(1)
    by (simp add: t label_lists date_fields_def lower_ascii_def)
  then have l: "label_fields (text_content d) UBO_DECLARATION ([], []) = ([(''company_name'', JStr company)], [(''company_name'', fl (98 / 100))])"
    by (simp add: label_fields_def put_def)
  obtain x xs where os: "os = x # xs" using assms(2) by (cases os) auto
  let ?rest = "newline # doc_lines (map owner_line xs)"
  obtain c where c: "rsearch owner_re True (owner_line x @ ?rest) = Some ([], c, False, ?rest)"
    "owners_of (c # finditer owner_re False ?rest) = map_sum id (\<lambda>os. owner_json x # os) (owners_of (finditer owner_re False ?rest))"
    using search_owner assms(3) os by (metis list.set_intros(1))
  note skip = search_skip_line [OF declaration_heads(1)] search_skip_line [of "''Company name: '' @ company"]
    search_skip_line [OF declaration_heads(3)]
  have "newline \<notin> set (''Company name: '' @ company)" using neat_line [OF assms(1)] declaration_heads(2) by simp
  then have "\<exists>k. rsearch owner_re True (text_content d) = Some (k, c, False, ?rest)"
    using skip c(1) by (simp add: t os)
  then have "finditer owner_re True (text_content d) = c # finditer owner_re False ?rest"
    by (auto simp: finditer.simps [of owner_re True "text_content d"]) (simp add: t os)
  then have o: "owners_of (finditer owner_re True (text_content d)) = Inr (map owner_json os)"
    using c(2) owners_lines [of xs] assms(3) by (simp add: os)
  have g: "add_glitches (text_content d) acc = acc" for acc using no_glitches assms(4) by blast
  show ?thesis
    by (simp add: fake_extraction_def Let_def l g add_owner_list_def o assms(2) put_def declared_owners_def)
qed

section \<open>Properties\<close>

text \<open>C29: a declaration of beneficial owners is read back. From a declaration printed with the template
  of the golden set the offline extractor recovers the company and every owner, in order, with the birth
  date in ISO form and the share as a float: for any number of owners, whose names are single trimmed
  lines without a semicolon.\<close>

theorem declaration_roundtrip:
  assumes "neat company" "os \<noteq> []" "\<forall>x \<in> set os. owner_ok x"
    and "no_glitch (text_content d)" and "text_content d = ubo_declaration company (map print_owner os)"
  shows "fake_extraction d UBO_DECLARATION = Inr
     \<lparr>er_document_id = document_id d, er_doc_type = UBO_DECLARATION,
      er_fields = [(''company_name'', JStr company),
        (''beneficial_owners'', JList (map (\<lambda>(n, b, p). JObj [(''full_name'', JStr n), (''date_of_birth'', JStr (isoformat b)),
           (''ownership_percent'', JFloat (fl (of_nat p)))]) os))],
      field_confidence = [(''company_name'', fl (98 / 100)), (''beneficial_owners'', fl (98 / 100))],
      extraction_error = None\<rparr>"
  using declaration_roundtrip_aux [OF assms] by (simp add: declared_owners_def owner_json_def)

lemma declaration_roundtrip_witness:
  "fake_extraction \<lparr>document_id = ''doc-ubo'', file_name = ''ubo.pdf'', text_content =
       ubo_declaration ''Nordic Bridge OU'' (map print_owner [(''Oskar Vaher'', Date 1980 12 2, 55), (''Liis Kukk'', Date 1985 9 25, 45)])\<rparr>
     UBO_DECLARATION = Inr
     \<lparr>er_document_id = ''doc-ubo'', er_doc_type = UBO_DECLARATION,
      er_fields = [(''company_name'', JStr ''Nordic Bridge OU''),
        (''beneficial_owners'', JList
          [JObj [(''full_name'', JStr ''Oskar Vaher''), (''date_of_birth'', JStr (isoformat (Date 1980 12 2))), (''ownership_percent'', JFloat (fl 55))],
           JObj [(''full_name'', JStr ''Liis Kukk''), (''date_of_birth'', JStr (isoformat (Date 1985 9 25))), (''ownership_percent'', JFloat (fl 45))]])],
      field_confidence = [(''company_name'', fl (98 / 100)), (''beneficial_owners'', fl (98 / 100))],
      extraction_error = None\<rparr>"
proof -
  let ?os = "[(''Oskar Vaher'', Date 1980 12 2, 55), (''Liis Kukk'', Date 1985 9 25, 45)] :: (string \<times> date \<times> nat) list"
  let ?t = "ubo_declaration ''Nordic Bridge OU'' (map print_owner ?os)"
  have t: "map print_owner ?os = [(''Oskar Vaher'', ''02.12.1980'', 55), (''Liis Kukk'', ''25.09.1985'', 45)]"
    by (simp add: print_owner_def date_texts)
  have n: "neat ''Nordic Bridge OU''" by code_simp
  have o: "\<forall>x \<in> set ?os. owner_ok x" by (simp add: owner_ok_def date_facts, code_simp)
  have "CHR ''['' \<notin> set ?t" unfolding t by code_simp
  then have g: "no_glitch (text_content \<lparr>document_id = ''doc-ubo'', file_name = ''ubo.pdf'', text_content = ?t\<rparr>)"
    by (simp add: no_bracket_glitch)
  show ?thesis using declaration_roundtrip [OF n _ o g] by simp
qed

end
