(* ===== verification/Packages.thy ===== *)
theory Packages
  imports Templates Confidence
begin

text \<open>
  The decision on a package whose documents the offline services read: a gate on the flags of its
  documents, with triggers that only hits, volume and critical mismatches fire.
\<close>

lemma iso_chars: "wf_date x \<Longrightarrow> c \<in> set (isoformat x) \<Longrightarrow> isdecimal c \<or> c = CHR ''-''"
  using wf_date_bounds [of x] pad_decimal by (auto simp: isoformat_def)

lemma normalize_iso [simp]:
  assumes "wf_date x"
  shows "normalize_text (isoformat x) = isoformat x"
proof -
  have dash: "casefold_char (CHR ''-'') = ''-''" "\<not> py_isspace (CHR ''-'')" by code_simp+
  have dec: "isdecimal c \<Longrightarrow> casefold_char c = [c]" for c by (auto simp: isdecimal_def casefold_char_def Let_def)
  have fold: "py_casefold (isoformat x) = isoformat x"
    using iso_chars [OF assms] dash dec by (intro py_casefold_fix) auto
  have "word (isoformat x)" using iso_chars [OF assms] dash decimal_not_space(1) length_isoformat [OF assms]
    by (auto simp: word_def)
  from py_split_word [OF this, of "[]"] have "py_split (isoformat x) = [isoformat x]" by simp
  then show ?thesis by (simp add: normalize_text_def fold)
qed

lemma isoformat_inj: "wf_date x \<Longrightarrow> wf_date y \<Longrightarrow> isoformat x = isoformat y \<longleftrightarrow> x = y"
  using fromisoformat_isoformat by (metis option.inject)

definition sanctioned :: "string \<Rightarrow> bool" where
  "sanctioned n \<longleftrightarrow> a_sanctions offline_answers n \<noteq> []"

definition exposed :: "string \<Rightarrow> bool" where
  "exposed n \<longleftrightarrow> a_pep offline_answers n \<noteq> []"

definition readable :: "extraction_result \<Rightarrow> bool" where
  "readable e \<longleftrightarrow> typed_extraction e \<and> extraction_error e = None \<and> field_confidence e \<noteq> []
     \<and> (\<forall>c \<in> snd ` set (field_confidence e). fl (9 / 10) \<le> c)"

definition doc_flags_of :: "kyc_package \<Rightarrow> date \<Rightarrow> extraction_result list \<Rightarrow> rule_flag list" where
  "doc_flags_of p td es = concat (map (doc_flags (applicant p) td default_match_thresholds) es)"

definition fired_of :: "kyc_package \<Rightarrow> rule_flag list \<Rightarrow> string list \<Rightarrow> string list \<Rightarrow> string list \<Rightarrow> rule_id set" where
  "fired_of p fs ps cms os =
     {r. (r = SANCTIONS_HIT \<and> (\<exists>n \<in> set (ps @ cms). sanctioned n)) \<or> (r = PEP_MATCH \<and> (\<exists>n \<in> set ps. exposed n))
       \<or> (r = UBO_SANCTIONS_OR_PEP \<and> (\<exists>n \<in> set os. sanctioned n \<or> exposed n))
       \<or> (r = HIGH_VOLUME \<and> dec_value (volume_limit default_risk_thresholds (customer_type p))
            < dec_value (expected_monthly_volume_eur (applicant p)))
       \<or> (r = CRITICAL_MISMATCH \<and> critical_mismatches fs \<noteq> [])}"

lemma hits_Nil: "hits_of f ns \<noteq> [] \<longleftrightarrow> (\<exists>n \<in> set ns. f n \<noteq> [])"
  by (auto simp: hits_of_def)

text \<open>When every document is known, read with high confidence and confirmed, the decision is the gate
  on the flags of the documents and on triggers that are fired by hits, volume and mismatches only.\<close>

lemma read_decision:
  fixes env :: "'s environment" and p :: kyc_package
  defines "cs \<equiv> map fake_classify_one (documents p)"
  assumes complete: "package_check p cs = None" "unknown_docs cs = []"
    and es: "ref_extractions offline_answers p cs = es" "es \<noteq> []" "\<forall>e \<in> set es. readable e"
    and ground: "en \<Longrightarrow> ref_grounding offline_answers p es = []"
    and names: "ref_names p es = Inr (ps, cms, map JStr os)"
  shows "\<exists>ts. ref_decision (offline_context env default_settings td en :: ('s, 'x) world pipeline_context) offline_answers p
      = Inr (decide_gate None (doc_flags_of p td es) ts False)
    \<and> rule_id ` set ts = fired_of p (doc_flags_of p td es) ps cms os"
proof -
  let ?ctx = "offline_context env default_settings td en :: ('s, 'x) world pipeline_context"
  let ?fs = "doc_flags_of p td es"
  have ctx: "cx_settings ?ctx = default_settings" "today ?ctx = td" "evaluator_enabled ?ctx = en"
    by (simp_all add: offline_context_def)
  have "first_some (doc_raises (applicant p)) es = None"
    using es(3) typed_no_raise by (simp add: readable_def first_some_None_iff)
  then obtain v where v: "ref_report ?ctx offline_answers p es = Inr v" "rule_flags v = ?fs"
    "overall_confidence v = overall_confidence_of es [] ?fs"
    by (simp add: ref_report_def run_validation_rules_eq ctx ground default_thresholds doc_flags_of_def report_of_sel)
  have conf: "3 / 4 \<le> overall_confidence_of es [] ?fs"
    using es(2,3) by (intro warnings_alone) (auto simp: readable_def neq_Nil_conv)
  let ?ts = "ref_triggers ?ctx offline_answers p v (ps, cms, map JStr os)"
  have "map str_of (map JStr os) = os" by (simp add: comp_def)
  then have "rule_id ` set ?ts = fired_of p ?fs ps cms os"
    using conf
    by (simp add: ref_triggers_def triggered_ids ctx default_risk v hits_Nil fired_of_def sanctioned_def exposed_def
        default_risk_thresholds_def)
      (auto simp: hits_Nil)
  moreover have "ref_decision ?ctx offline_answers p = Inr (decide_gate None ?fs ?ts False)"
  proof -
    have cl: "a_classify offline_answers (documents p) (customer_type p) = cs" by (simp add: cs_def offline_answers_def)
    have err: "\<not> (\<exists>e \<in> set es. extraction_error e \<noteq> None)" using es(3) by (simp add: readable_def)
    show ?thesis
      by (simp add: ref_decision_def Let_def cl complete es(1) v(1,2) names) (use err in auto)
  qed
  ultimately show ?thesis by blast
qed

text \<open>A value the evaluator does not find in its document escalates the package.\<close>

lemma read_ungrounded:
  fixes env :: "'s environment" and p :: kyc_package
  defines "cs \<equiv> map fake_classify_one (documents p)"
  assumes complete: "package_check p cs = None" and es: "ref_extractions offline_answers p cs = es" "\<forall>e \<in> set es. readable e"
    and names: "ref_names p es = Inr ns"
    and ground: "f \<in> set (ref_grounding offline_answers p es)" "rule_id f = EVALUATOR_DISCREPANCY" "severity f = CRITICAL"
  shows "\<exists>d. ref_decision (offline_context env default_settings td True :: ('s, 'x) world pipeline_context) offline_answers p
      = Inr d \<and> outcome d = ESCALATE \<and> CRITICAL_MISMATCH \<in> set (reason_codes d)"
proof -
  let ?ctx = "offline_context env default_settings td True :: ('s, 'x) world pipeline_context"
  have "first_some (doc_raises (applicant p)) es = None"
    using es(2) typed_no_raise by (simp add: readable_def first_some_None_iff)
  then obtain v where v: "ref_report ?ctx offline_answers p es = Inr v" "f \<in> set (rule_flags v)"
    using ground(1) by (simp add: ref_report_def run_validation_rules_eq offline_context_def)
  obtain ps cms os where ns: "ns = (ps, cms, os)" by (cases ns)
  let ?ts = "ref_triggers ?ctx offline_answers p v ns"
  have "critical_mismatches (rule_flags v) \<noteq> []"
    using v(2) ground(2,3) by (auto simp: critical_mismatches_Nil_iff critical_mismatch_sources_def)
  then have t: "CRITICAL_MISMATCH \<in> rule_id ` set ?ts" by (simp add: ns ref_triggers_def triggered_ids)
  then have o: "outcome (decide_gate None (rule_flags v) ?ts x) = ESCALATE" for x by (auto simp: decide_gate_outcome)
  moreover have "CRITICAL_MISMATCH \<in> set (reason_codes (decide_gate None (rule_flags v) ?ts x))" for x
    using decide_gate_codes_escalate [OF o] t by auto
  moreover have "a_classify offline_answers (documents p) (customer_type p) = cs" by (simp add: cs_def offline_answers_def)
  ultimately show ?thesis by (simp add: ref_decision_def Let_def complete es(1) v(1) names)
qed

definition type_of_text :: "string \<Rightarrow> document_type" where
  "type_of_text t = fst (classify_text type_keywords (py_upper t))"

definition unmarked :: "string \<Rightarrow> bool" where
  "unmarked t \<longleftrightarrow> CHR ''['' \<notin> set t \<and> CHR ''%'' \<notin> set t"

lemma unmarked_plain: "unmarked (text_content d) \<Longrightarrow> plain_document d" "unmarked t \<Longrightarrow> no_glitch t"
  using plain_chars plain_checked no_bracket_glitch by (auto simp: unmarked_def)

lemma read_back_sel [simp]:
  "er_document_id (read_back d t kvs) = document_id d" "er_doc_type (read_back d t kvs) = t"
  "extraction_error (read_back d t kvs) = None" "er_fields (read_back d t kvs) = map (\<lambda>(k, v). (k, JStr v)) kvs"
  "field_confidence (read_back d t kvs) = map (\<lambda>(k, v). (k, fl (98 / 100))) kvs"
  by (simp_all add: read_back_def)

text \<open>What the extractor read from an unmarked text is typed, has high confidence and is confirmed.\<close>

lemma confidence_98: "fl (9 / 10) \<le> fl (98 / 100)"
  by (rule fl_mono) simp

lemma read_readable:
  assumes "fake_extraction d t = Inr e" "no_glitch (text_content d)" "extraction_error e = None" "field_confidence e \<noteq> []"
    "snd ` set (field_confidence e) \<subseteq> {fl (98 / 100)}"
  shows "readable e"
  using assms fake_extraction_typed [OF assms(1,2)] confidence_98 by (auto simp: readable_def)

lemma read_confirmed:
  assumes "fake_extraction d t = Inr e" "no_glitch (text_content d)"
  shows "a_verify offline_answers d e = []"
  using fake_verify_own [OF assms, of "()"] by (simp add: offline_answers_def fake_verify_def of_result_def)

lemma classify_one:
  "type_of_text (text_content d) = t \<Longrightarrow> \<exists>c. fake_classify_one d = \<lparr>cd_document_id = document_id d, cd_doc_type = t, classifier_confidence = c\<rparr>"
  by (cases "classify_text type_keywords (py_upper (text_content d))")
    (auto simp: fake_classify_one_def type_of_text_def simp del: classify_text.simps)

lemma iso_not_Nil: "wf_date d \<Longrightarrow> isoformat d \<noteq> []"
  using length_isoformat [of d] by auto

lemma critical_name_flag:
  "(\<exists>f. snd (check_name a (Some b) default_match_thresholds rid fld) = Some f \<and> severity f = CRITICAL)
     \<longleftrightarrow> fuzzy_ratio a b < fl (85 / 100)"
proof -
  have "fl (85 / 100) \<le> fl (95 / 100)" by (rule fl_mono) simp
  then show ?thesis
    by (auto simp: check_name_def Let_def default_match_thresholds_def split: if_splits)
qed

lemma gate_on:
  assumes "rule_id ` set ts = F"
  shows "F \<noteq> {} \<Longrightarrow> outcome (decide_gate None fs ts False) = ESCALATE \<and> set (reason_codes (decide_gate None fs ts False)) = F"
    "F = {} \<Longrightarrow> \<exists>f \<in> set fs. rule_id f = DOC_EXPIRED \<Longrightarrow>
       outcome (decide_gate None fs ts False) = REJECT \<and> reason_codes (decide_gate None fs ts False) = [DOCUMENT_EXPIRED]"
    "F = {} \<Longrightarrow> \<not> (\<exists>f \<in> set fs. rule_id f = DOC_EXPIRED) \<Longrightarrow>
       outcome (decide_gate None fs ts False) = APPROVE \<and> reason_codes (decide_gate None fs ts False) = [ALL_CHECKS_PASSED]"
  using assms by (auto simp: decide_gate_def Let_def filter_empty_conv)

section \<open>Listed names\<close>

text \<open>A name that shares few characters with every listed one is no hit; a listed name is one.\<close>

definition sanctions_names :: "string list" where
  "sanctions_names = [''viktor salo'', ''dmitri voronov'', ''halvard eriksen'', ''rustam aliyev'', ''meridian shipping ltd'']"

definition pep_names :: "string list" where
  "pep_names = [''maarika kask'', ''jonas lindqvist'', ''petra novak'', ''anders holm'']"

lemma listed_names:
  "map (\<lambda>e. registry_normalize (entry_full_name e)) sanctions_entries = sanctions_names"
  "map (\<lambda>e. registry_normalize (entry_full_name e)) pep_entries = pep_names"
  by code_simp+

definition dissimilar :: "string \<Rightarrow> string \<Rightarrow> bool" where
  "dissimilar q k \<longleftrightarrow> q \<noteq> [] \<and> 5 * shared_chars q k \<le> 2 * (length q + length k)"

lemma fl_4_5: "fl (4 / 5) < fl (85 / 100)" by code_simp

lemma dissimilar_ratio: "dissimilar q k \<Longrightarrow> sm_ratio q k < fl (85 / 100)"
  using sm_ratio_dissimilar [of q k] fl_4_5 by (auto simp: dissimilar_def)

lemma sort_key_Nil [simp]: "sort_key f xs = [] \<longleftrightarrow> xs = []"
  by (metis length_sort length_0_conv)

lemma hits_iff:
  "sanctioned n \<longleftrightarrow> (\<exists>k \<in> set sanctions_names. fl (85 / 100) \<le> sm_ratio (registry_normalize n) k)"
  "exposed n \<longleftrightarrow> (\<exists>k \<in> set pep_names. fl (85 / 100) \<le> sm_ratio (registry_normalize n) k)"
  unfolding listed_names [symmetric]
  by (auto simp: sanctioned_def exposed_def offline_answers_def client_hits_def search_def build_sanctions_client_def
      build_pep_client_def Let_def filter_empty_conv entry_score_def)

definition unlisted :: "string list \<Rightarrow> string \<Rightarrow> bool" where
  "unlisted ks n \<longleftrightarrow> list_all (dissimilar (registry_normalize n)) ks"

lemma not_listed:
  "unlisted sanctions_names n \<Longrightarrow> \<not> sanctioned n" "unlisted pep_names n \<Longrightarrow> \<not> exposed n"
  using dissimilar_ratio by (fastforce simp: hits_iff unlisted_def list_all_iff)+

lemma quiet:
  "list_all (\<lambda>n. unlisted sanctions_names n \<and> unlisted pep_names n) ns \<Longrightarrow> \<forall>n \<in> set ns. \<not> sanctioned n \<and> \<not> exposed n"
  using not_listed by (auto simp: list_all_iff)

lemma is_listed:
  "registry_normalize n \<in> set sanctions_names \<Longrightarrow> sanctioned n"
  "registry_normalize n \<in> set pep_names \<Longrightarrow> exposed n"
proof -
  have "fl (85 / 100) \<le> 1" by (rule fl_le_1) simp
  then show "registry_normalize n \<in> set sanctions_names \<Longrightarrow> sanctioned n"
    "registry_normalize n \<in> set pep_names \<Longrightarrow> exposed n"
    unfolding hits_iff by (metis sm_ratio_self)+
qed

end
