(* ===== verification/Sample.thy ===== *)
theory Sample
  imports Offline Service
begin

text \<open>
  A small scripted context whose services always give the same answers, for the concrete
  instances of the properties: with no hits the sample case is approved, with a hit of the
  sanctions registry it waits for a human. The cases of the sample are driven through the
  service relation by the general lemma that every run of the graph is a run of the service.
\<close>

section \<open>The context\<close>

definition sample_classified :: "input_document list \<Rightarrow> classified_document list" where
  "sample_classified ds = map (\<lambda>d. \<lparr>cd_document_id = document_id d,
     cd_doc_type = (if document_id d = ''a'' then ID_DOCUMENT else PROOF_OF_ADDRESS),
     classifier_confidence = 1\<rparr>) ds"

definition sample_extraction :: "input_document \<Rightarrow> document_type \<Rightarrow> extraction_result" where
  "sample_extraction d t = \<lparr>er_document_id = document_id d, er_doc_type = t,
     er_fields = [(''full_name'', JStr ''A'')], field_confidence = [(''full_name'', 1)],
     extraction_error = None\<rparr>"

definition sample_services :: "'w pipeline_services" where
  "sample_services = \<lparr>classify = (\<lambda>ds ct. ret (sample_classified ds)),
     extract_fields = (\<lambda>d t. ret (sample_extraction d t)), verify_grounding = (\<lambda>d e. ret []),
     narrate = (\<lambda>a ts fs. ret [])\<rparr>"

definition sample_context :: "registry_hit list \<Rightarrow> 'w pipeline_context" where
  "sample_context hits = \<lparr>cx_settings = default_settings, services = sample_services,
     fallback = sample_services, audit = (\<lambda>e. ret ()), clock = (\<lambda>w. (0, w)),
     sanctions = \<lparr>rs_registry = SANCTIONS, rs_search = (\<lambda>v. ret hits)\<rparr>,
     pep = \<lparr>rs_registry = PEP, rs_search = (\<lambda>v. ret [])\<rparr>, today = Date 2026 7 13,
     evaluator_enabled = True\<rparr>"

definition sample_answers :: "registry_hit list \<Rightarrow> answers" where
  "sample_answers hits = \<lparr>a_classify = (\<lambda>ds ct. sample_classified ds), a_extract = sample_extraction,
     a_verify = (\<lambda>d e. []), a_narrate = (\<lambda>a ts fs. []), a_sanctions = (\<lambda>n. hits), a_pep = (\<lambda>n. [])\<rparr>"

definition sample_document :: "string \<Rightarrow> input_document" where
  "sample_document i = \<lparr>document_id = i, file_name = ''f'', text_content = ''t''\<rparr>"

definition sample_package :: kyc_package where
  "sample_package = \<lparr>customer_type = INDIVIDUAL,
     applicant = \<lparr>full_name = ''A'', date_of_birth = None, address = ''S'', company_name = None,
       registration_number = None, expected_monthly_volume_eur = dec_of_nat 100\<rparr>,
     documents = [sample_document ''a'', sample_document ''b'']\<rparr>"

definition sample_hit :: registry_hit where
  "sample_hit = \<lparr>registry = SANCTIONS, matched_name = ''A'', score = 1, list_entry = ''X''\<rparr>"

lemma sample_sel [simp]:
  "services (sample_context hits) = sample_services" "fallback (sample_context hits) = sample_services"
  "audit (sample_context hits) = (\<lambda>e. ret ())" "cx_settings (sample_context hits) = default_settings"
  by (simp_all add: sample_context_def)

lemma sample_safe: "safe_audit (sample_context hits)"
  by (simp add: safe_audit_def total_action_def ret_def)

lemma sample_limit: "limit_of (sample_context hits) = 25"
  by (simp add: limit_of_def default_settings_def)

interpretation sample: answering "sample_context hits :: 'w pipeline_context" "sample_answers hits" "\<lambda>d t. True"
  for hits
  by (unfold_locales; (rule sample_safe)?)
    (simp_all add: sample_services_def sample_answers_def sample_classified_def sample_extraction_def
      default_settings_def sample_context_def returns_ret comp_def)

section \<open>The two decisions\<close>

lemma sample_extractions:
  "ref_extractions (sample_answers hits) sample_package (sample_classified (documents sample_package)) =
     [sample_extraction (sample_document ''a'') ID_DOCUMENT, sample_extraction (sample_document ''b'') PROOF_OF_ADDRESS]"
  by code_simp

lemma sample_complete: "package_check sample_package (sample_classified (documents sample_package)) = None"
  by code_simp

lemma sample_known_docs: "unknown_docs (sample_classified ds) = []"
  by (simp add: unknown_docs_def sample_classified_def filter_empty_conv)

lemma sample_typed: "typed_extraction (sample_extraction d t)"
  by (simp add: sample_extraction_def typed_extraction_def typed_fields_def string_fields_def)

lemma sample_flags:
  assumes "name_warning th \<le> 1"
  shows "doc_flags (applicant sample_package) td th (sample_extraction d t) =
    check_extraction_completeness (sample_extraction d t)"
proof -
  have n: "check_name ''A'' (Some ''A'') th rid fld =
      (\<lparr>field = fld, declared = Some ''A'', extracted = Some ''A'', field_match = True, critical = False\<rparr>, None)" for rid fld
    by (rule check_name_same [OF refl assms])
  show ?thesis
    by (cases t) (simp_all add: doc_flags_def doc_findings_def str_field_def expiry_of_def check_document_expiry_def
        check_exact_def check_address_def sample_extraction_def sample_package_def n some_check_def)
qed

lemma sample_report:
  assumes "es = [sample_extraction (sample_document ''a'') ID_DOCUMENT, sample_extraction (sample_document ''b'') PROOF_OF_ADDRESS]"
  shows "\<exists>v. ref_report (sample_context hits :: 'w pipeline_context) (sample_answers hits) sample_package es = Inr v
    \<and> (\<forall>f \<in> set (rule_flags v). rule_id f = EXTRACTION_INCOMPLETE) \<and> 3 / 4 \<le> overall_confidence v"
proof -
  let ?flags = "concat (map check_extraction_completeness es)"
  have th: "name_warning (match_thresholds_of default_settings) \<le> 1"
    by (simp add: match_thresholds_of_def default_settings_def fl_le_1)
  have g: "ref_grounding (sample_answers hits) sample_package es = []"
    by (simp add: ref_grounding_def sample_answers_def assms)
  have "first_some (doc_raises (applicant sample_package)) es = None"
    using typed_no_raise [OF sample_typed] by (simp add: assms)
  then obtain checks where r: "run_validation_rules (applicant sample_package) es
      (today (sample_context hits :: 'w pipeline_context)) (match_thresholds_of default_settings) = Inr (checks, ?flags)"
    by (simp add: run_validation_rules_eq sample_flags [OF th] assms)
  have "3 / 4 \<le> overall_confidence_of es [] ?flags"
    by (rule warnings_alone) (simp_all add: assms sample_extraction_def fl_le_1)
  then show ?thesis
    using r g incomplete_flags by (fastforce simp: ref_report_def report_of_def)
qed

lemma sample_names: "ref_names sample_package (ref_extractions (sample_answers hits) sample_package
    (sample_classified (documents sample_package))) = Inr ([''A''], [], [])"
  unfolding sample_extractions by code_simp

lemma sample_triggers:
  assumes "\<forall>f \<in> set (rule_flags v). rule_id f = EXTRACTION_INCOMPLETE" "3 / 4 \<le> overall_confidence v"
  shows "rule_id ` set (ref_triggers (sample_context hits :: 'w pipeline_context) (sample_answers hits) sample_package v ([''A''], [], []))
    = (if hits = [] then {} else {SANCTIONS_HIT})"
proof -
  have "critical_mismatches (rule_flags v) = []"
    using assms(1) by (auto simp: critical_mismatches_Nil_iff critical_mismatch_sources_def)
  then show ?thesis
    unfolding ref_triggers_def case_prod_conv triggered_ids using assms(2)
    by (auto simp: hits_of_def sample_answers_def sample_package_def risk_thresholds_of_def default_settings_def
        volume_limit_def)
qed

lemma sample_decides:
  "\<exists>d. ref_decision (sample_context hits :: 'w pipeline_context) (sample_answers hits) sample_package = Inr d
    \<and> decided_by d = SYSTEM \<and> outcome d = (if hits = [] then APPROVE else ESCALATE)
    \<and> (hits \<noteq> [] \<longrightarrow> set (reason_codes d) = {SANCTIONS_HIT})"
proof -
  let ?cs = "sample_classified (documents sample_package)"
  let ?es = "ref_extractions (sample_answers hits) sample_package ?cs"
  let ?ctx = "sample_context hits :: 'w pipeline_context"
  obtain v where v: "ref_report ?ctx (sample_answers hits) sample_package ?es = Inr v"
    "\<forall>f \<in> set (rule_flags v). rule_id f = EXTRACTION_INCOMPLETE" "3 / 4 \<le> overall_confidence v"
    using sample_report [OF sample_extractions] by blast
  let ?ts = "ref_triggers ?ctx (sample_answers hits) sample_package v ([''A''], [], [])"
  note t = sample_triggers [OF v(2,3), of hits, where 'w = 'w]
  have ok: "\<forall>e \<in> set ?es. extraction_error e = None" unfolding sample_extractions by (simp add: sample_extraction_def)
  let ?d = "decide_gate None (rule_flags v) ?ts False"
  have d: "ref_decision ?ctx (sample_answers hits) sample_package = Inr ?d"
    using v(1) ok sample_complete sample_names [of hits] sample_known_docs
    by (simp add: ref_decision_def Let_def sample_answers_def)
  have ne: "?ts = [] \<longleftrightarrow> hits = []" using t by (metis image_is_empty set_empty insert_not_empty)
  have "\<forall>f \<in> set (rule_flags v). rule_id f \<noteq> DOC_EXPIRED" using v(2) by auto
  then have o: "outcome ?d = (if hits = [] then APPROVE else ESCALATE)" by (simp add: decide_gate_outcome ne)
  moreover have "set (reason_codes ?d) = {SANCTIONS_HIT}" if "hits \<noteq> []"
    using decide_gate_codes_escalate [of None "rule_flags v" ?ts False] o t that by simp
  ultimately show ?thesis using d decide_gate_system by blast
qed

section \<open>Runs\<close>

lemma sample_known: "string_owners p (ref_extractions (sample_answers hits) p cs)"
  by (rule names_strings) (auto simp: ref_extractions_def sample_answers_def sample_typed)

text \<open>The sample case through the service: approved, or waiting for its reviewer.\<close>

lemma sample_run:
  "\<exists>d out w'. invoke (sample_context hits :: 'w pipeline_context) (initial_state cid sample_package (Some RECEIVED)) w = (out, w')
    \<and> ends_with d out \<and> decided_by d = SYSTEM \<and> outcome d = (if hits = [] then APPROVE else ESCALATE)
    \<and> (hits \<noteq> [] \<longrightarrow> set (reason_codes d) = {SANCTIONS_HIT})"
proof -
  obtain d where d: "ref_decision (sample_context hits :: 'w pipeline_context) (sample_answers hits) sample_package = Inr d"
    "decided_by d = SYSTEM" "outcome d = (if hits = [] then APPROVE else ESCALATE)"
    "hits \<noteq> [] \<longrightarrow> set (reason_codes d) = {SANCTIONS_HIT}" using sample_decides by blast
  have lim: "10 \<le> limit_of (sample_context hits :: 'w pipeline_context)" by (simp add: sample_limit)
  show ?thesis
    using sample.run_refines [OF d(1) lim refl _ sample_known, of cid "Some RECEIVED" w] d(2-4) unfolding ends_reading_def by blast
qed

lemma ended_served:
  assumes "invoke ctx (initial_state cid p (Some RECEIVED)) w = (out, w')" "ends_with d out" "10 \<le> limit_of ctx"
  shows "\<exists>sv cp. served ctx sv \<and> sv_cases sv cid = Some cp \<and> sv_tasks sv cid = None
    \<and> decision (cp_state cp) = Some d
    \<and> (if outcome d = ESCALATE then cp_interrupts cp \<noteq> [] else cp_tasks cp = [])"
proof -
  let ?init = "initial_state cid p (Some RECEIVED)"
  have st0: "stage ctx ?init start_tasks" by (rule stage_initial) simp
  obtain tasks w1 where r: "reaches ctx [] (?init, start_tasks, w) (final_state out, tasks, w1)" "ends_as ctx [] out tasks w1"
    using run_reaches [OF assms(1) [unfolded invoke_def]] by blast
  have st: "stage ctx (final_state out) tasks" by (rule stage_reaches [OF r(1) st0])
  obtain sv cp where sv: "served ctx sv" "sv_tasks sv cid = Some None" "sv_cases sv cid = Some cp"
    "cp_state cp = final_state out" "cp_tasks cp = tasks"
    using reaches_served [OF r(1)] assms(3) by force
  have d: "decision (final_state out) = Some d" using assms(2) by (simp add: ends_with_def)
  show ?thesis
  proof (cases "outcome d = ESCALATE")
    case True
    then obtain s q where out: "out = Interrupted s q" using assms(2) by (auto simp: ends_with_def)
    then obtain rs w2 where i: "run_tasks ctx [] s tasks w1 = (Inr rs, w2)" "interrupts rs \<noteq> []"
      using r(2) by fastforce
    have "tasks = [TNode Human_review]" using interrupt_review [OF _ i] st out by simp
    then obtain sv' cp' where "served ctx sv'" "sv_cases sv' cid = Some cp'" "sv_tasks sv' cid = None"
      "cp_state cp' = cp_state cp" "cp_interrupts cp' \<noteq> []"
      using interrupted_served [OF sv(1-3)] sv(5) by blast
    then show ?thesis using sv(4) d True by auto
  next
    case False
    then have "tasks = []" using assms(2) r(2) by (auto simp: ends_with_def)
    then have "served ctx (task_done cid sv)" using served_step [OF sv(1) step_end [OF sv(2,3)]] sv(5) by simp
    moreover have "sv_cases (task_done cid sv) cid = Some cp" "sv_tasks (task_done cid sv) cid = None"
      using sv(3) by (simp_all add: task_done_def)
    ultimately show ?thesis using sv(4,5) d False \<open>tasks = []\<close> by metis
  qed
qed

lemma sample_served:
  "\<exists>sv cp d. served (sample_context hits :: 'w pipeline_context) sv \<and> sv_cases sv cid = Some cp \<and> sv_tasks sv cid = None
    \<and> decision (cp_state cp) = Some d \<and> decided_by d = SYSTEM
    \<and> (if hits = [] then outcome d = APPROVE \<and> cp_tasks cp = []
       else outcome d = ESCALATE \<and> set (reason_codes d) = {SANCTIONS_HIT} \<and> cp_interrupts cp \<noteq> [])"
proof -
  obtain d out w' where r: "invoke (sample_context hits :: 'w pipeline_context)
      (initial_state cid sample_package (Some RECEIVED)) undefined = (out, w')"
    "ends_with d out" "decided_by d = SYSTEM" "outcome d = (if hits = [] then APPROVE else ESCALATE)"
    "hits \<noteq> [] \<longrightarrow> set (reason_codes d) = {SANCTIONS_HIT}"
    using sample_run [of hits cid "undefined :: 'w"] by (elim exE conjE)
  have "10 \<le> limit_of (sample_context hits :: 'w pipeline_context)" by (simp add: sample_limit)
  from ended_served [OF r(1,2) this] obtain sv cp where sv: "served (sample_context hits :: 'w pipeline_context) sv"
    "sv_cases sv cid = Some cp" "sv_tasks sv cid = None" "decision (cp_state cp) = Some d"
    "if outcome d = ESCALATE then cp_interrupts cp \<noteq> [] else cp_tasks cp = []" by (elim exE conjE)
  then show ?thesis
    using r(3-5) by (intro exI [of _ sv] exI [of _ cp] exI [of _ d]) (simp split: if_splits)
qed

section \<open>Cases of a sound context\<close>

lemma stage_decided: "stage ctx st tasks \<Longrightarrow> tasks = [] \<or> tasks = [TNode Human_review] \<Longrightarrow> decision st \<noteq> None"
  by (auto elim: stage.cases)

text \<open>Every case of a sound context comes to a decision.\<close>

lemma sound_served:
  assumes "sound_context ctx D" "set (documents p) \<subseteq> D" "10 \<le> limit_of ctx"
  shows "\<exists>sv cp d. served ctx sv \<and> sv_cases sv cid = Some cp \<and> package (cp_state cp) = p
    \<and> decision (cp_state cp) = Some d"
proof -
  let ?init = "initial_state cid p (Some RECEIVED)"
  obtain out w' where out: "invoke ctx ?init undefined = (out, w')" by (metis surj_pair)
  have sc: "sound_context.sound_case ctx D ?init start_tasks"
    using sound_context.sound_initial [OF assms(1,2)] by simp
  have run: "run ctx [] (limit_of ctx) ?init start_tasks undefined = (out, w')" using out by (simp add: invoke_def)
  have rk: "rank start_tasks < limit_of ctx" and nine: "9 \<le> limit_of ctx" using assms(3) by (simp_all add: start_tasks_def)
  have st0: "stage ctx ?init start_tasks" by (rule stage_initial) simp
  obtain tasks w1 where r: "reaches ctx [] (?init, start_tasks, undefined) (final_state out, tasks, w1)" "ends_as ctx [] out tasks w1"
    using run_reaches [OF run] by blast
  have st: "stage ctx (final_state out) tasks" by (rule stage_reaches [OF r(1) st0])
  have "tasks = [] \<or> tasks = [TNode Human_review]"
    using sound_context.sound_run [OF assms(1) sc run rk]
  proof
    assume "\<exists>s. out = Finished s"
    then show ?thesis using r(2) by auto
  next
    assume "\<exists>s q. out = Interrupted s q"
    then obtain s q rs w2 where "out = Interrupted s q" "run_tasks ctx [] s tasks w1 = (Inr rs, w2)" "interrupts rs \<noteq> []"
      using r(2) by fastforce
    then show ?thesis using interrupt_review [of ctx s tasks "[]" w1 rs w2] st by simp
  qed
  then obtain d where d: "decision (final_state out) = Some d" using stage_decided [OF st] by auto
  have "package (final_state out) = p" using run_package [OF run] by simp
  then show ?thesis using reaches_served [OF r(1) nine] d by metis
qed

section \<open>Offline instances\<close>

definition sample_env :: "unit environment" where
  "sample_env = \<lparr>env_sink = (\<lambda>e. ret ()), env_times = (\<lambda>n. n), env_sanctions_draws = (\<lambda>n. 0),
     env_pep_draws = (\<lambda>n. 0)\<rparr>"

definition no_models :: "'w init_model" where
  "no_models = (\<lambda>name provider temp url key. Inl (Exn ''ImportError'' []))"

definition failing_settings :: settings where
  "failing_settings = default_settings\<lparr>registry_failure_rate := 1\<rparr>"

definition listed_package :: kyc_package where
  "listed_package = sample_package\<lparr>applicant := (applicant sample_package)\<lparr>full_name := ''Viktor Salo''\<rparr>\<rparr>"

lemma sample_plain: "set (documents sample_package) \<subseteq> plain_documents"
proof -
  have "no_glitch ''t''" by (rule no_glitch_text) code_simp
  then show ?thesis by (simp add: sample_package_def sample_document_def plain_documents_def)
qed

lemma listed_plain: "set (documents listed_package) \<subseteq> plain_documents"
  using sample_plain by (simp add: listed_package_def)

lemma honest_no_models: "honest_models no_models"
  by (simp add: honest_models_def no_models_def)

section \<open>A reviewed case\<close>

definition sample_review :: human_decision where
  "sample_review = \<lparr>h_outcome = HReject, h_reviewer = ''R'', h_comment = []\<rparr>"

lemma human_decided:
  assumes "stage ctx st []" "decision st = Some d" "decided_by d = HUMAN"
  shows "outcome (gate_decision st) = ESCALATE"
  using assms decide_gate_system by (auto elim!: stage_endE simp: by_system_def by_human_def gate_decision_def)

lemma sample_reviewed:
  "\<exists>sv cp. served (sample_context [sample_hit] :: 'w pipeline_context) sv \<and> sv_cases sv cid = Some cp
    \<and> cp_tasks cp = [] \<and> outcome (gate_decision (cp_state cp)) = ESCALATE"
proof -
  let ?ctx = "sample_context [sample_hit] :: 'w pipeline_context"
  obtain sv cp where s: "served ?ctx sv" "sv_cases sv cid = Some cp" "cp_interrupts cp \<noteq> []"
    using sample_served [of "[sample_hit]" cid, where 'w = 'w] by auto
  obtain r sv' cp' where r: "review ?ctx cid sample_review sv = (Inr r, sv')" "reviewed sample_review (hd (cp_interrupts cp)) r"
    "sv_cases sv' = (sv_cases sv)(cid \<mapsto> cp')" "cp_tasks cp' = []"
    using review_completes [OF s(1) sample_safe _ s(2,3), of sample_review] by (auto simp: sample_limit)
  have sv': "served ?ctx sv'" using served_step [OF s(1) step_review, of cid sample_review] r(1) by simp
  have c: "sv_cases sv' cid = Some cp'" using r(3) by simp
  have st: "stage ?ctx (cp_state cp') []" using served_case [OF sv' c] r(4) by (simp add: stored_def)
  have "case_status sv' cid = Inr r"
    using r(1) s(2,3) by (auto simp: review_def Let_def split: prod.splits run_end.splits)
  then have "decision (cp_state cp') = cr_decision r"
    using c by (auto simp: case_status_def snapshot_response_def Let_def)
  then obtain d where "decision (cp_state cp') = Some d" "decided_by d = HUMAN" using r(2) by (auto simp: reviewed_def)
  then show ?thesis using human_decided [OF st] sv' c r(4) by blast
qed

end
