(* ===== verification/Individuals.thy ===== *)
theory Individuals
  imports Packages Sample
begin

text \<open>
  The decision on an individual in closed form: for a printed identity card and a printed proof of
  address, an invoice or a bank statement, with any names, dates, address and volume.
\<close>

section \<open>Individuals\<close>

text \<open>What an individual declares, what the card says, and what the proof of address says: an invoice,
  or a bank statement when \<open>in_bank\<close>.\<close>

record individual =
  in_name :: string
  in_birth :: date
  in_address :: string
  in_volume :: nat
  in_holder :: string
  in_born :: date
  in_number :: string
  in_expiry :: date
  in_country :: string
  in_nationality :: string
  in_bank :: bool
  in_payer :: string
  in_home :: string
  in_issue :: date
  in_issuer :: string

definition card_of :: "individual \<Rightarrow> string" where
  "card_of x = id_card (in_holder x) (dmy (in_born x)) (in_number x) (dmy (in_expiry x)) (in_country x) (in_nationality x) []"

definition proof_of :: "individual \<Rightarrow> string" where
  "proof_of x = (if in_bank x then bank_statement else invoice) (in_payer x) (in_home x) (dmy (in_issue x)) (in_issuer x)"

definition package_of :: "individual \<Rightarrow> kyc_package" where
  "package_of x = individual_package (in_name x) (isoformat (in_birth x)) (in_address x) (in_volume x)
     (card_of x) (Some (proof_of x))"

definition card_ok :: "individual \<Rightarrow> bool" where
  "card_ok x \<longleftrightarrow> neat (in_holder x) \<and> neat (in_number x) \<and> neat (in_nationality x) \<and> header_line card_labels (in_country x)
     \<and> wf_date (in_born x) \<and> wf_date (in_expiry x) \<and> unmarked (card_of x) \<and> type_of_text (card_of x) = ID_DOCUMENT"

definition proof_ok :: "individual \<Rightarrow> bool" where
  "proof_ok x \<longleftrightarrow> neat (in_payer x) \<and> neat (in_home x) \<and> neat (in_issuer x) \<and> wf_date (in_issue x)
     \<and> header_line (if in_bank x then statement_labels else invoice_labels) (py_upper (in_issuer x))
     \<and> unmarked (proof_of x) \<and> type_of_text (proof_of x) = PROOF_OF_ADDRESS"

definition well_printed :: "individual \<Rightarrow> bool" where
  "well_printed x \<longleftrightarrow> wf_date (in_birth x) \<and> card_ok x \<and> proof_ok x"

definition doc_id :: "individual \<Rightarrow> input_document" where
  "doc_id x = \<lparr>document_id = ''doc-id'', file_name = ''id.pdf'', text_content = card_of x\<rparr>"

definition doc_poa :: "individual \<Rightarrow> input_document" where
  "doc_poa x = \<lparr>document_id = ''doc-poa'', file_name = ''poa.pdf'', text_content = proof_of x\<rparr>"

definition card_result :: "individual \<Rightarrow> extraction_result" where
  "card_result x = read_back (doc_id x) ID_DOCUMENT
     [(''full_name'', in_holder x), (''date_of_birth'', isoformat (in_born x)), (''document_number'', in_number x),
      (''expiry_date'', isoformat (in_expiry x)), (''nationality'', in_nationality x)]"

definition proof_result :: "individual \<Rightarrow> extraction_result" where
  "proof_result x = read_back (doc_poa x) PROOF_OF_ADDRESS
     [(''full_name'', in_payer x), (''address'', in_home x), (''issue_date'', isoformat (in_issue x)), (''issuer'', in_issuer x)]"

lemma doc_text [simp]: "text_content (doc_id x) = card_of x" "text_content (doc_poa x) = proof_of x"
    "document_id (doc_id x) = ''doc-id''" "document_id (doc_poa x) = ''doc-poa''"
  by (simp_all add: doc_id_def doc_poa_def)

lemma package_sel:
  assumes "wf_date (in_birth x)"
  shows "documents (package_of x) = [doc_id x, doc_poa x]" "customer_type (package_of x) = INDIVIDUAL"
    "applicant (package_of x) = \<lparr>full_name = in_name x, date_of_birth = Some (in_birth x), address = in_address x,
       company_name = None, registration_number = None, expected_monthly_volume_eur = dec_of_nat (in_volume x)\<rparr>"
  using assms by (simp_all add: package_of_def individual_package_def doc_id_def doc_poa_def fromisoformat_isoformat)

lemma card_read: "card_ok x \<Longrightarrow> fake_extraction (doc_id x) ID_DOCUMENT = Inr (card_result x)"
  unfolding card_result_def
  by (rule id_card_roundtrip [where country = "in_country x"])
    (auto simp: card_ok_def unmarked_def card_of_def id_card_def)

lemma proof_read: "proof_ok x \<Longrightarrow> fake_extraction (doc_poa x) PROOF_OF_ADDRESS = Inr (proof_result x)"
proof (cases "in_bank x")
  case True
  then show "proof_ok x \<Longrightarrow> ?thesis" unfolding proof_result_def
    by (intro statement_roundtrip) (simp_all add: proof_ok_def proof_of_def unmarked_plain)
next
  case False
  then show "proof_ok x \<Longrightarrow> ?thesis" unfolding proof_result_def
    by (intro invoice_roundtrip) (simp_all add: proof_ok_def proof_of_def unmarked_plain)
qed

text \<open>The flags of the two documents.\<close>

definition contradicts :: "individual \<Rightarrow> bool" where
  "contradicts x \<longleftrightarrow> fuzzy_ratio (in_name x) (in_holder x) < fl (85 / 100) \<or> in_birth x \<noteq> in_born x"

abbreviation name_flag :: "individual \<Rightarrow> rule_flag option" where
  "name_flag x \<equiv> snd (check_name (in_name x) (Some (in_holder x)) default_match_thresholds NAME_MISMATCH ''full_name'')"

abbreviation birth_flag :: "individual \<Rightarrow> rule_flag option" where
  "birth_flag x \<equiv> snd (check_exact (Some (isoformat (in_birth x))) (Some (isoformat (in_born x))) DOB_MISMATCH ''date_of_birth'' True)"

abbreviation home_flag :: "individual \<Rightarrow> rule_flag option" where
  "home_flag x \<equiv> snd (check_address (in_address x) (Some (in_home x)) default_match_thresholds)"

lemma individual_flags:
  assumes "well_printed x"
  shows "doc_flags_of (package_of x) td [card_result x, proof_result x] =
     opt_list (name_flag x) @ opt_list (birth_flag x) @ opt_list (check_document_expiry (Some (in_expiry x)) td) @ opt_list (home_flag x)"
proof -
  have w: "wf_date (in_birth x)" "wf_date (in_born x)" "wf_date (in_expiry x)" "in_holder x \<noteq> []" "in_number x \<noteq> []"
    "in_payer x \<noteq> []" "in_home x \<noteq> []"
    using assms by (auto simp: well_printed_def card_ok_def proof_ok_def neat_def)
  have c: "check_extraction_completeness (card_result x) = []" "check_extraction_completeness (proof_result x) = []"
    using w iso_not_Nil
    by (simp_all add: check_extraction_completeness_def card_result_def proof_result_def missing_field_def)
  have e: "expiry_of (er_fields (card_result x)) = Some (in_expiry x)"
    using iso_not_Nil w(3) by (simp add: expiry_of_def card_result_def str_field_def fromisoformat_isoformat)
  show ?thesis
    unfolding doc_flags_of_def using c e
    by (simp add: doc_flags_def doc_findings_def package_sel [OF w(1)]) (simp add: card_result_def proof_result_def str_field_def some_check_def split: prod.splits)
qed

lemma individual_mismatch:
  assumes "well_printed x"
  shows "critical_mismatches (doc_flags_of (package_of x) td [card_result x, proof_result x]) \<noteq> [] \<longleftrightarrow> contradicts x"
proof -
  have w: "wf_date (in_birth x)" "wf_date (in_born x)" using assms by (simp_all add: well_printed_def card_ok_def)
  have b: "birth_flag x \<noteq> None \<longleftrightarrow> in_birth x \<noteq> in_born x"
    unfolding check_exact_flag_iff using isoformat_inj [OF w] w by simp
  have ids: "name_flag x = Some f \<Longrightarrow> rule_id f = NAME_MISMATCH"
    "birth_flag x = Some f \<Longrightarrow> rule_id f = DOB_MISMATCH \<and> severity f = CRITICAL"
    "check_document_expiry (Some (in_expiry x)) td = Some f \<Longrightarrow> rule_id f = DOC_EXPIRED"
    "home_flag x = Some f \<Longrightarrow> severity f = WARNING" for f
    using check_name_flagD check_exact_flagD expiry_SomeD check_address_flagD by blast+
  have src: "NAME_MISMATCH \<in> set critical_mismatch_sources" "DOB_MISMATCH \<in> set critical_mismatch_sources"
    "DOC_EXPIRED \<notin> set critical_mismatch_sources" by (simp_all add: critical_mismatch_sources_def)
  show ?thesis
    unfolding critical_mismatches_Nil_iff individual_flags [OF assms] contradicts_def critical_name_flag [of _ _ NAME_MISMATCH "''full_name''", symmetric]
    using ids src b by fastforce
qed

lemma individual_expired:
  assumes "well_printed x"
  shows "(\<exists>f \<in> set (doc_flags_of (package_of x) td [card_result x, proof_result x]). rule_id f = DOC_EXPIRED) \<longleftrightarrow> in_expiry x < td"
proof -
  have "rule_id f \<noteq> DOC_EXPIRED" if "name_flag x = Some f \<or> birth_flag x = Some f \<or> home_flag x = Some f" for f
    using that check_name_flagD check_exact_flagD check_address_flagD by fastforce
  moreover have "(\<exists>f. check_document_expiry (Some (in_expiry x)) td = Some f \<and> rule_id f = DOC_EXPIRED) \<longleftrightarrow> in_expiry x < td"
    using expiry_flag_iff [of "Some (in_expiry x)" td] expiry_SomeD by fastforce
  ultimately show ?thesis unfolding individual_flags [OF assms] by auto
qed

section \<open>The decision on an individual\<close>

definition fired :: "individual \<Rightarrow> rule_id set" where
  "fired x =
     {r. (r = SANCTIONS_HIT \<and> (\<exists>n \<in> {in_name x, in_holder x, in_payer x}. sanctioned n))
       \<or> (r = PEP_MATCH \<and> (\<exists>n \<in> {in_name x, in_holder x, in_payer x}. exposed n))
       \<or> (r = HIGH_VOLUME \<and> 10000 < in_volume x) \<or> (r = CRITICAL_MISMATCH \<and> contradicts x)}"

lemma individual_documents:
  assumes "well_printed x"
  shows "ref_extractions offline_answers (package_of x) (map fake_classify_one (documents (package_of x))) = [card_result x, proof_result x]
    \<and> package_check (package_of x) (map fake_classify_one (documents (package_of x))) = None
    \<and> unknown_docs (map fake_classify_one (documents (package_of x))) = []
    \<and> ref_grounding offline_answers (package_of x) [card_result x, proof_result x] = []
    \<and> readable (card_result x) \<and> readable (proof_result x)"
proof -
  have ok: "wf_date (in_birth x)" "card_ok x" "proof_ok x" using assms by (simp_all add: well_printed_def)
  note sel = package_sel [OF ok(1)] and read = card_read [OF ok(2)] proof_read [OF ok(3)]
  have ng: "no_glitch (text_content (doc_id x))" "no_glitch (text_content (doc_poa x))"
    using ok unmarked_plain(2) by (simp_all add: card_ok_def proof_ok_def)
  obtain c c' where cs: "fake_classify_one (doc_id x) = \<lparr>cd_document_id = ''doc-id'', cd_doc_type = ID_DOCUMENT, classifier_confidence = c\<rparr>"
    "fake_classify_one (doc_poa x) = \<lparr>cd_document_id = ''doc-poa'', cd_doc_type = PROOF_OF_ADDRESS, classifier_confidence = c'\<rparr>"
    using classify_one [of "doc_id x" ID_DOCUMENT] classify_one [of "doc_poa x" PROOF_OF_ADDRESS] ok
    by (auto simp: card_ok_def proof_ok_def)
  have docs: "doc_of (package_of x) ''doc-id'' = doc_id x" "doc_of (package_of x) ''doc-poa'' = doc_poa x"
    by (simp_all add: doc_of_def docs_by_id_def dict_of_get sel)
  have "readable (card_result x)"
    by (rule read_readable [OF read(1) ng(1)]) (simp_all add: card_result_def)
  moreover have "readable (proof_result x)"
    by (rule read_readable [OF read(2) ng(2)]) (simp_all add: proof_result_def)
  moreover have "ref_grounding offline_answers (package_of x) [card_result x, proof_result x] = []"
    using read_confirmed [OF read(1) ng(1)] read_confirmed [OF read(2) ng(2)] docs
    by (simp add: ref_grounding_def card_result_def proof_result_def usable_def)
  ultimately show ?thesis
    by (simp add: cs ref_extractions_def docs known_docs_def unknown_docs_def package_check_def completeness_None_iff sel)
      (simp add: offline_answers_def read)
qed

lemma individual_names:
  assumes "wf_date (in_birth x)"
  shows "ref_names (package_of x) [card_result x, proof_result x] =
     Inr (add_key (in_payer x) (add_key (in_holder x) [in_name x]), [], map JStr [])"
  by (simp add: ref_names_def screening_names_def package_sel [OF assms] initial_state_def add_names_def Let_def
      card_result_def proof_result_def person_doc_types_def)

lemma individual_decision:
  fixes env :: "'s environment"
  assumes "well_printed x"
  shows "\<exists>ts. ref_decision (offline_context env default_settings td en :: ('s, 'x) world pipeline_context) offline_answers (package_of x)
      = Inr (decide_gate None (doc_flags_of (package_of x) td [card_result x, proof_result x]) ts False)
    \<and> rule_id ` set ts = fired x"
proof -
  have b: "wf_date (in_birth x)" using assms by (simp add: well_printed_def)
  note d = individual_documents [OF assms]
  have "fired_of (package_of x) (doc_flags_of (package_of x) td [card_result x, proof_result x])
      (add_key (in_payer x) (add_key (in_holder x) [in_name x])) [] [] = fired x"
    unfolding fired_of_def fired_def individual_mismatch [OF assms]
    by (auto simp: package_sel [OF b] volume_limit_def default_risk_thresholds_def)
  then show ?thesis
    using read_decision [of "package_of x" "[card_result x, proof_result x]" en _ _ "[]" env td, where 'x = 'x]
      individual_names [OF b] d by fastforce
qed

definition individual_outcome :: "individual \<Rightarrow> date \<Rightarrow> decision \<Rightarrow> bool" where
  "individual_outcome x td d \<longleftrightarrow>
     (if fired x \<noteq> {} then outcome d = ESCALATE \<and> set (reason_codes d) = fired x
      else if in_expiry x < td then outcome d = REJECT \<and> reason_codes d = [DOCUMENT_EXPIRED]
      else outcome d = APPROVE \<and> reason_codes d = [ALL_CHECKS_PASSED])"

lemma individual_reference:
  fixes env :: "'s environment"
  assumes "well_printed x"
  shows "\<exists>d. ref_decision (offline_context env default_settings td en :: ('s, 'x) world pipeline_context) offline_answers (package_of x)
      = Inr d \<and> individual_outcome x td d"
proof -
  let ?fs = "doc_flags_of (package_of x) td [card_result x, proof_result x]"
  obtain ts where ts: "ref_decision (offline_context env default_settings td en :: ('s, 'x) world pipeline_context) offline_answers (package_of x)
      = Inr (decide_gate None ?fs ts False)" "rule_id ` set ts = fired x"
    using individual_decision [OF assms, of env td en, where 'x = 'x] by blast
  have "individual_outcome x td (decide_gate None ?fs ts False)"
    using gate_on [OF ts(2), of ?fs] individual_expired [OF assms, of td] by (auto simp: individual_outcome_def)
  then show ?thesis using ts(1) by blast
qed

lemma individual_plain: "well_printed x \<Longrightarrow> d \<in> set (documents (package_of x)) \<Longrightarrow> plain_document d"
  using unmarked_plain(1) [of d] by (auto simp: package_sel well_printed_def card_ok_def proof_ok_def)

section \<open>The first golden case\<close>

definition anna :: individual where
  "anna =
     \<lparr>in_name = ''Anna Virtanen'', in_birth = Date 1991 3 14,
     in_address = ''Kalevankatu 12 A 5, 00100 Helsinki'', in_volume = 2500, in_holder = ''Anna Virtanen'',
     in_born = Date 1991 3 14, in_number = ''FIN-8842517'', in_expiry = Date 2030 5 1,
     in_country = ''REPUBLIC OF FINLAND'', in_nationality = ''FI'', in_bank = False, in_payer = ''Anna Virtanen'',
     in_home = ''Kalevankatu 12 A 5, 00100 Helsinki'', in_issue = Date 2026 5 10, in_issuer = ''Helen Oy''\<rparr>"

lemma anna_texts:
  "card_of anna = id_card ''Anna Virtanen'' ''14.03.1991'' ''FIN-8842517'' ''01.05.2030'' ''REPUBLIC OF FINLAND'' ''FI'' []"
  "proof_of anna = invoice ''Anna Virtanen'' ''Kalevankatu 12 A 5, 00100 Helsinki'' ''10.05.2026'' ''Helen Oy''"
  "isoformat (in_birth anna) = ''1991-03-14''"
  by (simp_all add: anna_def card_of_def proof_of_def date_texts)

lemma anna_dates: "wf_date (in_birth anna)" "wf_date (in_born anna)" "wf_date (in_expiry anna)" "wf_date (in_issue anna)"
  by (simp_all add: anna_def date_facts)

lemma anna_card: "card_ok anna"
  unfolding card_ok_def anna_texts by (simp add: anna_dates, simp add: anna_def, code_simp)

lemma anna_proof: "proof_ok anna"
  unfolding proof_ok_def anna_texts by (simp add: anna_dates, simp add: anna_def, code_simp)

lemma anna_printed: "well_printed anna"
  by (simp add: well_printed_def anna_dates anna_card anna_proof)

lemma anna_case: "gc_package case_clean_individual_1 = package_of anna"
  by (simp add: case_clean_individual_1_def golden_of_def package_of_def anna_texts) (simp add: anna_def)

lemma anna_listed: "\<forall>n \<in> set [''Anna Virtanen'']. \<not> sanctioned n \<and> \<not> exposed n"
  by (rule quiet) code_simp

lemma anna_fired: "fired anna = {}"
  using anna_listed by (simp add: fired_def contradicts_def anna_def fl_le_1 fuzzy_ratio_same not_less)

section \<open>Properties\<close>

text \<open>C8: the decision on an individual. For every individual whose card and proof of address, an
  invoice or a bank statement, are printed with words that stand on one line, hold no label and no
  marker, and let the router tell the documents apart: every offline run, whatever the case, the world
  and the audit sink, escalates with exactly the codes that fire - a listed name among the declared, the
  holder's and the payer's, an exposed one, a volume above 10000, a card that contradicts the declared
  name or birth date -, or else rejects an expired card, or else approves. The name on the proof of
  address is screened and never compared.\<close>

theorem individual_decided:
  fixes env :: "'s environment"
  assumes "well_printed x"
  shows "\<exists>out w' d. invoke (offline_context env default_settings td en :: ('s, 'x) world pipeline_context)
      (initial_state cid (package_of x) st) w = (out, w')
    \<and> ends_with d out \<and> individual_outcome x td d"
proof -
  from offline_decides [OF calm_default, of "package_of x" env td en, where 'x = 'x] individual_plain [OF assms]
    individual_reference [OF assms, of env td en, where 'x = 'x]
  show ?thesis by (metis sum.inject(2))
qed

lemma individual_decided_witness:
  "\<exists>out w' d. invoke (offline_context sample_env default_settings reference_date True :: (unit, unit) world pipeline_context)
      (initial_state ''case'' (gc_package case_clean_individual_1) None)
      \<lparr>w_store = (), w_ticks = 0, w_sanctions = 0, w_pep = 0, w_remote = ()\<rparr> = (out, w')
    \<and> ends_with d out \<and> outcome d = APPROVE \<and> reason_codes d = [ALL_CHECKS_PASSED]"
proof -
  have "\<not> in_expiry anna < reference_date" by code_simp
  then show ?thesis
    using individual_decided [OF anna_printed, where env = sample_env and en = True and td = reference_date] anna_fired
    unfolding anna_case individual_outcome_def by (simp only: if_True if_False simp_thms) blast
qed

end
