(* ===== verification/Companies.thy ===== *)
theory Companies
  imports Packages Sample
begin

text \<open>
  The decision on a company in closed form: for a printed certificate of registration and a printed
  declaration of any number of beneficial owners.
\<close>

section \<open>Companies\<close>

record company =
  co_rep :: string
  co_name :: string
  co_number :: string
  co_address :: string
  co_volume :: nat
  ce_name :: string
  ce_number :: string
  ce_date :: date
  ce_form :: string
  ce_office :: string
  de_name :: string
  de_owners :: "(string \<times> date \<times> nat) list"

definition cert_of :: "company \<Rightarrow> string" where
  "cert_of y = registration_cert (ce_name y) (ce_number y) (dmy (ce_date y)) (ce_form y) (ce_office y)"

definition declaration_of :: "company \<Rightarrow> string" where
  "declaration_of y = ubo_declaration (de_name y) (map print_owner (de_owners y))"

definition company_package :: "company \<Rightarrow> kyc_package" where
  "company_package y = business_package (co_rep y) (co_name y) (co_number y) (co_address y) (co_volume y) (cert_of y) (declaration_of y)"

definition company_printed :: "company \<Rightarrow> bool" where
  "company_printed y \<longleftrightarrow> co_name y \<noteq> [] \<and> neat (ce_name y) \<and> neat (ce_number y) \<and> neat (ce_form y) \<and> neat (ce_office y)
     \<and> wf_date (ce_date y) \<and> neat (de_name y) \<and> de_owners y \<noteq> [] \<and> (\<forall>o1 \<in> set (de_owners y). owner_ok o1)
     \<and> unmarked (cert_of y) \<and> CHR ''['' \<notin> set (declaration_of y)
     \<and> type_of_text (cert_of y) = BUSINESS_REGISTRATION \<and> type_of_text (declaration_of y) = UBO_DECLARATION"

definition doc_reg :: "company \<Rightarrow> input_document" where
  "doc_reg y = \<lparr>document_id = ''doc-reg'', file_name = ''registration.pdf'', text_content = cert_of y\<rparr>"

definition doc_ubo :: "company \<Rightarrow> input_document" where
  "doc_ubo y = \<lparr>document_id = ''doc-ubo'', file_name = ''ubo.pdf'', text_content = declaration_of y\<rparr>"

definition cert_result :: "company \<Rightarrow> extraction_result" where
  "cert_result y = read_back (doc_reg y) BUSINESS_REGISTRATION
     [(''company_name'', ce_name y), (''registration_number'', ce_number y), (''registration_date'', isoformat (ce_date y)),
      (''legal_form'', ce_form y), (''registered_address'', ce_office y)]"

definition declaration_result :: "company \<Rightarrow> extraction_result" where
  "declaration_result y = declared_owners (doc_ubo y) (de_name y) (de_owners y)"

lemma company_sel:
  "documents (company_package y) = [doc_reg y, doc_ubo y]" "customer_type (company_package y) = BUSINESS"
  "applicant (company_package y) = \<lparr>full_name = co_rep y, date_of_birth = None, address = co_address y,
     company_name = Some (co_name y), registration_number = Some (co_number y),
     expected_monthly_volume_eur = dec_of_nat (co_volume y)\<rparr>"
  "text_content (doc_reg y) = cert_of y" "text_content (doc_ubo y) = declaration_of y"
  "document_id (doc_reg y) = ''doc-reg''" "document_id (doc_ubo y) = ''doc-ubo''"
  by (simp_all add: company_package_def business_package_def doc_reg_def doc_ubo_def)

lemma declared_sel [simp]:
  "er_document_id (declared_owners d n os) = document_id d" "er_doc_type (declared_owners d n os) = UBO_DECLARATION"
  "extraction_error (declared_owners d n os) = None"
  "er_fields (declared_owners d n os) = [(''company_name'', JStr n), (''beneficial_owners'', JList (map owner_json os))]"
  "field_confidence (declared_owners d n os) = [(''company_name'', fl (98 / 100)), (''beneficial_owners'', fl (98 / 100))]"
  by (simp_all add: declared_owners_def)

lemma company_read:
  assumes "company_printed y"
  shows "fake_extraction (doc_reg y) BUSINESS_REGISTRATION = Inr (cert_result y)"
    "fake_extraction (doc_ubo y) UBO_DECLARATION = Inr (declaration_result y)"
    "no_glitch (text_content (doc_reg y))" "no_glitch (text_content (doc_ubo y))"
proof -
  show ng: "no_glitch (text_content (doc_reg y))" "no_glitch (text_content (doc_ubo y))"
    using assms unmarked_plain(2) no_bracket_glitch by (auto simp: company_printed_def company_sel)
  show "fake_extraction (doc_reg y) BUSINESS_REGISTRATION = Inr (cert_result y)"
    unfolding cert_result_def using assms ng by (intro cert_roundtrip) (auto simp: company_printed_def company_sel cert_of_def)
  show "fake_extraction (doc_ubo y) UBO_DECLARATION = Inr (declaration_result y)"
    unfolding declaration_result_def using assms ng
    by (intro declaration_roundtrip_aux) (auto simp: company_printed_def company_sel declaration_of_def)
qed

lemma owners_of_parse: "owners_of cs = Inr os \<Longrightarrow> \<forall>c \<in> set cs. \<not> isl (parse_pct (group ''pct'' c))"
  by (induction cs arbitrary: os) (auto split: sum.splits)

lemma company_plain:
  assumes "company_printed y" "d \<in> set (documents (company_package y))"
  shows "plain_document d"
proof -
  have "plain_document (doc_reg y)" using assms(1) unmarked_plain(1) by (simp add: company_printed_def company_sel)
  moreover have "plain_document (doc_ubo y)"
  proof -
    obtain os where "owners_of (finditer owner_re True (text_content (doc_ubo y))) = Inr os"
      using company_read(2) [OF assms(1)] by (auto simp: fake_extraction_def add_owner_list_def Let_def split: sum.splits)
    then show ?thesis using owners_of_parse company_read(4) [OF assms(1)] by (simp add: plain_document_def)
  qed
  ultimately show ?thesis using assms(2) by (auto simp: company_sel)
qed

lemma company_documents:
  assumes "company_printed y"
  shows "ref_extractions offline_answers (company_package y) (map fake_classify_one (documents (company_package y)))
      = [cert_result y, declaration_result y]
    \<and> package_check (company_package y) (map fake_classify_one (documents (company_package y))) = None
    \<and> unknown_docs (map fake_classify_one (documents (company_package y))) = []
    \<and> ref_grounding offline_answers (company_package y) [cert_result y, declaration_result y] = []
    \<and> readable (cert_result y) \<and> readable (declaration_result y)"
proof -
  note read = company_read [OF assms]
  obtain c c' where cs: "fake_classify_one (doc_reg y) = \<lparr>cd_document_id = ''doc-reg'', cd_doc_type = BUSINESS_REGISTRATION, classifier_confidence = c\<rparr>"
    "fake_classify_one (doc_ubo y) = \<lparr>cd_document_id = ''doc-ubo'', cd_doc_type = UBO_DECLARATION, classifier_confidence = c'\<rparr>"
    using classify_one [of "doc_reg y" BUSINESS_REGISTRATION] classify_one [of "doc_ubo y" UBO_DECLARATION] assms
    by (auto simp: company_printed_def company_sel)
  have docs: "doc_of (company_package y) ''doc-reg'' = doc_reg y" "doc_of (company_package y) ''doc-ubo'' = doc_ubo y"
    by (simp_all add: doc_of_def docs_by_id_def dict_of_get company_sel)
  have "readable (cert_result y)"
    by (rule read_readable [OF read(1,3)]) (simp_all add: cert_result_def)
  moreover have "readable (declaration_result y)"
    by (rule read_readable [OF read(2,4)]) (simp_all add: declaration_result_def)
  moreover have "ref_grounding offline_answers (company_package y) [cert_result y, declaration_result y] = []"
    using read_confirmed [OF read(1,3)] read_confirmed [OF read(2,4)] docs
    by (simp add: ref_grounding_def cert_result_def declaration_result_def usable_def company_sel)
  ultimately show ?thesis
    by (simp add: cs ref_extractions_def docs known_docs_def unknown_docs_def package_check_def completeness_None_iff company_sel)
      (simp add: offline_answers_def read)
qed

definition company_contradicts :: "company \<Rightarrow> bool" where
  "company_contradicts y \<longleftrightarrow> fuzzy_ratio (co_name y) (ce_name y) < fl (85 / 100)
     \<or> normalize_text (co_number y) \<noteq> normalize_text (ce_number y)"

abbreviation company_name_flag :: "company \<Rightarrow> rule_flag option" where
  "company_name_flag y \<equiv> snd (check_name (co_name y) (Some (ce_name y)) default_match_thresholds COMPANY_NAME_MISMATCH ''company_name'')"

abbreviation number_flag :: "company \<Rightarrow> rule_flag option" where
  "number_flag y \<equiv> snd (check_exact (Some (co_number y)) (Some (ce_number y)) REG_NUMBER_MISMATCH ''registration_number'' True)"

lemma company_flags:
  assumes "company_printed y"
  shows "doc_flags_of (company_package y) td [cert_result y, declaration_result y] =
     opt_list (company_name_flag y) @ opt_list (number_flag y)"
proof -
  have w: "co_name y \<noteq> []" "ce_name y \<noteq> []" "ce_number y \<noteq> []" "de_name y \<noteq> []" "de_owners y \<noteq> []"
    using assms by (auto simp: company_printed_def neat_def)
  have c: "check_extraction_completeness (cert_result y) = []" "check_extraction_completeness (declaration_result y) = []"
    using w by (simp_all add: check_extraction_completeness_def cert_result_def declaration_result_def missing_field_def)
  show ?thesis
    unfolding doc_flags_of_def using c w
    by (simp add: doc_flags_def doc_findings_def company_sel)
      (simp add: cert_result_def declaration_result_def str_field_def some_check_def split: prod.splits)
qed

lemma company_mismatch:
  assumes "company_printed y"
  shows "critical_mismatches (doc_flags_of (company_package y) td [cert_result y, declaration_result y]) \<noteq> [] \<longleftrightarrow> company_contradicts y"
proof -
  have n: "number_flag y \<noteq> None \<longleftrightarrow> normalize_text (co_number y) \<noteq> normalize_text (ce_number y)"
    unfolding check_exact_flag_iff by simp
  have ids: "company_name_flag y = Some f \<Longrightarrow> rule_id f = COMPANY_NAME_MISMATCH"
    "number_flag y = Some f \<Longrightarrow> rule_id f = REG_NUMBER_MISMATCH \<and> severity f = CRITICAL" for f
    using check_name_flagD check_exact_flagD by blast+
  have src: "COMPANY_NAME_MISMATCH \<in> set critical_mismatch_sources" "REG_NUMBER_MISMATCH \<in> set critical_mismatch_sources"
    by (simp_all add: critical_mismatch_sources_def)
  show ?thesis
    unfolding critical_mismatches_Nil_iff company_flags [OF assms] company_contradicts_def
      critical_name_flag [of _ _ COMPANY_NAME_MISMATCH "''company_name''", symmetric]
    using ids src n by fastforce
qed

lemma company_not_expired:
  assumes "company_printed y"
  shows "\<not> (\<exists>f \<in> set (doc_flags_of (company_package y) td [cert_result y, declaration_result y]). rule_id f = DOC_EXPIRED)"
proof -
  have "rule_id f \<noteq> DOC_EXPIRED" if "company_name_flag y = Some f \<or> number_flag y = Some f" for f
    using that check_name_flagD check_exact_flagD by fastforce
  then show ?thesis unfolding company_flags [OF assms] by auto
qed

lemma add_key_JStr: "add_key (JStr n) (map JStr acc) = map JStr (add_key n acc)"
  by (auto simp: add_key_def)

lemma add_owners_json:
  "\<forall>x \<in> set os. owner_ok x \<Longrightarrow> add_owners (map owner_json os) (map JStr acc) = Inr (map JStr (fold add_key (map fst os) acc))"
proof (induction os arbitrary: acc)
  case (Cons x os)
  obtain n d p where x: "x = (n, d, p)" by (cases x)
  then have "n \<noteq> []" using Cons.prems by (auto simp: owner_ok_def neat_def)
  then have "owner_name (owner_json x) = Some (JStr n)" by (simp add: x owner_json_def)
  then show ?case using Cons by (simp add: x add_key_JStr hashable.simps)
qed simp

lemma set_fold_add_key: "set (fold add_key ns acc) = set acc \<union> set ns"
  by (induction ns arbitrary: acc) auto

lemma company_names:
  assumes "company_printed y"
  shows "ref_names (company_package y) [cert_result y, declaration_result y] =
     Inr ([co_rep y], add_key (de_name y) (add_key (ce_name y) [co_name y]),
          map JStr (fold add_key (map fst (de_owners y)) []))"
proof -
  have "add_owners (map owner_json (de_owners y)) [] = Inr (map JStr (fold add_key (map fst (de_owners y)) []))"
    using add_owners_json [of "de_owners y" "[]"] assms by (simp add: company_printed_def)
  then show ?thesis using assms
    by (simp add: company_printed_def ref_names_def screening_names_def company_sel initial_state_def add_names_def Let_def
        cert_result_def declaration_result_def person_doc_types_def)
qed

definition company_fired :: "company \<Rightarrow> rule_id set" where
  "company_fired y =
     {r. (r = SANCTIONS_HIT \<and> (\<exists>n \<in> {co_rep y, co_name y, ce_name y, de_name y}. sanctioned n))
       \<or> (r = PEP_MATCH \<and> exposed (co_rep y))
       \<or> (r = UBO_SANCTIONS_OR_PEP \<and> (\<exists>n \<in> fst ` set (de_owners y). sanctioned n \<or> exposed n))
       \<or> (r = HIGH_VOLUME \<and> 50000 < co_volume y) \<or> (r = CRITICAL_MISMATCH \<and> company_contradicts y)}"

definition company_outcome :: "company \<Rightarrow> decision \<Rightarrow> bool" where
  "company_outcome y d \<longleftrightarrow>
     (if company_fired y \<noteq> {} then outcome d = ESCALATE \<and> set (reason_codes d) = company_fired y
      else outcome d = APPROVE \<and> reason_codes d = [ALL_CHECKS_PASSED])"

lemma company_reference:
  fixes env :: "'s environment"
  assumes "company_printed y"
  shows "\<exists>d. ref_decision (offline_context env default_settings td en :: ('s, 'x) world pipeline_context) offline_answers (company_package y)
      = Inr d \<and> company_outcome y d"
proof -
  let ?fs = "doc_flags_of (company_package y) td [cert_result y, declaration_result y]"
  have "fired_of (company_package y) ?fs [co_rep y] (add_key (de_name y) (add_key (ce_name y) [co_name y]))
      (fold add_key (map fst (de_owners y)) []) = company_fired y"
    unfolding fired_of_def company_fired_def company_mismatch [OF assms]
    by (auto simp: company_sel volume_limit_def default_risk_thresholds_def set_fold_add_key)
  then obtain ts where ts: "ref_decision (offline_context env default_settings td en :: ('s, 'x) world pipeline_context) offline_answers (company_package y)
      = Inr (decide_gate None ?fs ts False)" "rule_id ` set ts = company_fired y"
    using read_decision [of "company_package y" "[cert_result y, declaration_result y]" en _ _ _ env td, where 'x = 'x]
      company_names [OF assms] company_documents [OF assms] by fastforce
  have "company_outcome y (decide_gate None ?fs ts False)"
    using gate_on [OF ts(2), of ?fs] company_not_expired [OF assms, of td] by (auto simp: company_outcome_def)
  then show ?thesis using ts(1) by blast
qed

section \<open>A golden company\<close>

definition meridian :: company where
  "meridian =
     \<lparr>co_rep = ''Karl Tamm'', co_name = ''Meridian Trade OU'', co_number = ''EE-1447291'',
     co_address = ''Tartu mnt 25, 10117 Tallinn'', co_volume = 30000, ce_name = ''Meridian Trade OU'',
     ce_number = ''EE-1447291'', ce_date = Date 2019 2 1, ce_form = ''Osauhing (private limited company)'',
     ce_office = ''Tartu mnt 25, 10117 Tallinn'', de_name = ''Meridian Trade OU'',
     de_owners = [(''Karl Tamm'', Date 1978 7 12, 60), (''Liis Kukk'', Date 1985 9 25, 40)]\<rparr>"

lemma meridian_texts:
  "cert_of meridian = registration_cert ''Meridian Trade OU'' ''EE-1447291'' ''01.02.2019'' ''Osauhing (private limited company)'' ''Tartu mnt 25, 10117 Tallinn''"
  "declaration_of meridian = ubo_declaration ''Meridian Trade OU'' [(''Karl Tamm'', ''12.07.1978'', 60), (''Liis Kukk'', ''25.09.1985'', 40)]"
  by (simp_all add: meridian_def cert_of_def declaration_of_def print_owner_def date_texts)

lemma meridian_cert:
  "co_name meridian \<noteq> [] \<and> neat (ce_name meridian) \<and> neat (ce_number meridian) \<and> neat (ce_form meridian) \<and> neat (ce_office meridian)
     \<and> neat (de_name meridian) \<and> de_owners meridian \<noteq> [] \<and> unmarked (cert_of meridian) \<and> type_of_text (cert_of meridian) = BUSINESS_REGISTRATION"
  unfolding meridian_texts by (simp add: meridian_def, code_simp)

lemma meridian_owners:
  "(\<forall>o1 \<in> set (de_owners meridian). owner_ok o1) \<and> CHR ''['' \<notin> set (declaration_of meridian) \<and> type_of_text (declaration_of meridian) = UBO_DECLARATION"
  unfolding meridian_texts by (simp add: meridian_def owner_ok_def date_facts, code_simp)

lemma meridian_printed: "company_printed meridian"
  using meridian_cert meridian_owners by (simp add: company_printed_def) (simp add: meridian_def date_facts)

lemma meridian_case: "gc_package case_business_clean = company_package meridian"
  by (simp add: case_business_clean_def golden_of_def company_package_def meridian_texts) (simp add: meridian_def)

lemma meridian_listed: "\<forall>n \<in> set [''Karl Tamm'', ''Liis Kukk'', ''Meridian Trade OU'']. \<not> sanctioned n \<and> \<not> exposed n"
  by (rule quiet) code_simp

lemma meridian_fired: "company_fired meridian = {}"
  using meridian_listed by (simp add: company_fired_def company_contradicts_def meridian_def fl_le_1 fuzzy_ratio_same not_less)

section \<open>Properties\<close>

text \<open>C9: the decision on a company. For every company whose certificate and declaration of any
  number of beneficial owners are printed: every offline run escalates with exactly the codes that
  fire - a listed or exposed name among the company's names, the representative and the owners, a volume
  above 50000, a certificate that contradicts the declared name or number -, or else approves.\<close>

theorem company_decided:
  fixes env :: "'s environment"
  assumes "company_printed y"
  shows "\<exists>out w' d. invoke (offline_context env default_settings td en :: ('s, 'x) world pipeline_context)
      (initial_state cid (company_package y) st) w = (out, w')
    \<and> ends_with d out \<and> company_outcome y d"
proof -
  from offline_decides [OF calm_default, of "company_package y" env td en, where 'x = 'x] company_plain [OF assms]
    company_reference [OF assms, of env td en, where 'x = 'x]
  show ?thesis by (metis sum.inject(2))
qed

lemma company_decided_witness:
  "\<exists>out w' d. invoke (offline_context sample_env default_settings reference_date True :: (unit, unit) world pipeline_context)
      (initial_state ''case'' (gc_package case_business_clean) None)
      \<lparr>w_store = (), w_ticks = 0, w_sanctions = 0, w_pep = 0, w_remote = ()\<rparr> = (out, w')
    \<and> ends_with d out \<and> outcome d = APPROVE \<and> reason_codes d = [ALL_CHECKS_PASSED]"
  using company_decided [OF meridian_printed, where env = sample_env and en = True and td = reference_date] meridian_fired
  unfolding meridian_case company_outcome_def by (simp only: if_False simp_thms) blast

end
