(* ===== verification/Cases.thy ===== *)
theory Cases
  imports Individuals Companies
begin

text \<open>
  The golden cases as individuals and companies: what each card, proof of address, certificate and
  declaration says, and that it is printed as the decision theorems ask.
\<close>

section \<open>Individuals\<close>

definition mikael :: individual where
  "mikael =
     \<lparr>in_name = ''Mikael Korhonen'', in_birth = Date 1987 11 2,
     in_address = ''Itamerenkatu 3 B 21, 00180 Helsinki'', in_volume = 4200, in_holder = ''Mikael Korhonen'',
     in_born = Date 1987 11 2, in_number = ''FIN-5521904'', in_expiry = Date 2031 9 17,
     in_country = ''REPUBLIC OF FINLAND'', in_nationality = ''FI'', in_bank = True, in_payer = ''Mikael Korhonen'',
     in_home = ''Itamerenkatu 3 B 21, 00180 Helsinki'', in_issue = Date 2026 6 1,
     in_issuer = ''Nordea Bank Abp''\<rparr>"

lemma mikael_texts:
  "card_of mikael = id_card ''Mikael Korhonen'' ''02.11.1987'' ''FIN-5521904'' ''17.09.2031'' ''REPUBLIC OF FINLAND'' ''FI'' []"
  "proof_of mikael = bank_statement ''Mikael Korhonen'' ''Itamerenkatu 3 B 21, 00180 Helsinki'' ''01.06.2026'' ''Nordea Bank Abp''"
  "isoformat (in_birth mikael) = ''1987-11-02''"
  by (simp_all add: mikael_def card_of_def proof_of_def date_texts)

lemma mikael_dates: "wf_date (in_birth mikael)" "wf_date (in_born mikael)" "wf_date (in_expiry mikael)" "wf_date (in_issue mikael)"
  by (simp_all add: mikael_def date_facts)

lemma mikael_card: "card_ok mikael"
  unfolding card_ok_def mikael_texts by (simp add: mikael_dates, simp add: mikael_def, code_simp)

lemma mikael_proof: "proof_ok mikael"
  unfolding proof_ok_def mikael_texts by (simp add: mikael_dates, simp add: mikael_def, code_simp)

lemma mikael_printed: "well_printed mikael"
  by (simp add: well_printed_def mikael_dates mikael_card mikael_proof)

lemma mikael_case: "gc_package case_clean_individual_2 = package_of mikael"
  by (simp add: case_clean_individual_2_def golden_of_def package_of_def mikael_texts) (simp add: mikael_def)

definition sofia :: individual where
  "sofia =
     \<lparr>in_name = ''Sofia Lehtinen'', in_birth = Date 1995 6 27,
     in_address = ''Puistokatu 8 C 14, 20100 Turku'', in_volume = 1800, in_holder = ''Sofia Lehtinen'',
     in_born = Date 1995 6 27, in_number = ''FIN-7710382'', in_expiry = Date 2029 2 23,
     in_country = ''REPUBLIC OF FINLAND'', in_nationality = ''FI'', in_bank = False, in_payer = ''Sofia Lehtinen'',
     in_home = ''Puistokatu 8 C 14, 20100 Turku'', in_issue = Date 2026 6 5, in_issuer = ''Turku Energia''\<rparr>"

lemma sofia_texts:
  "card_of sofia = id_card ''Sofia Lehtinen'' ''27.06.1995'' ''FIN-7710382'' ''23.02.2029'' ''REPUBLIC OF FINLAND'' ''FI'' []"
  "proof_of sofia = invoice ''Sofia Lehtinen'' ''Puistokatu 8 C 14, 20100 Turku'' ''05.06.2026'' ''Turku Energia''"
  "isoformat (in_birth sofia) = ''1995-06-27''"
  by (simp_all add: sofia_def card_of_def proof_of_def date_texts)

lemma sofia_dates: "wf_date (in_birth sofia)" "wf_date (in_born sofia)" "wf_date (in_expiry sofia)" "wf_date (in_issue sofia)"
  by (simp_all add: sofia_def date_facts)

lemma sofia_card: "card_ok sofia"
  unfolding card_ok_def sofia_texts by (simp add: sofia_dates, simp add: sofia_def, code_simp)

lemma sofia_proof: "proof_ok sofia"
  unfolding proof_ok_def sofia_texts by (simp add: sofia_dates, simp add: sofia_def, code_simp)

lemma sofia_printed: "well_printed sofia"
  by (simp add: well_printed_def sofia_dates sofia_card sofia_proof)

lemma sofia_case: "gc_package case_clean_individual_3 = package_of sofia"
  by (simp add: case_clean_individual_3_def golden_of_def package_of_def sofia_texts) (simp add: sofia_def)

definition ville :: individual where
  "ville =
     \<lparr>in_name = ''Ville Niemi'', in_birth = Date 1983 1 19,
     in_address = ''Rautatienkatu 21 A 2, 33100 Tampere'', in_volume = 3100, in_holder = ''Ville Niemi'',
     in_born = Date 1983 1 19, in_number = ''FIN-3308571'', in_expiry = Date 2028 11 11,
     in_country = ''REPUBLIC OF FINLAND'', in_nationality = ''FI'', in_bank = False, in_payer = ''Ville Niemi'',
     in_home = ''Rautatienkatu 21 A 2, 33100 Tampere'', in_issue = Date 2026 5 20,
     in_issuer = ''Tampereen Sahkolaitos''\<rparr>"

lemma ville_texts:
  "card_of ville = id_card ''Ville Niemi'' ''19.01.1983'' ''FIN-3308571'' ''11.11.2028'' ''REPUBLIC OF FINLAND'' ''FI'' []"
  "proof_of ville = invoice ''Ville Niemi'' ''Rautatienkatu 21 A 2, 33100 Tampere'' ''20.05.2026'' ''Tampereen Sahkolaitos''"
  "isoformat (in_birth ville) = ''1983-01-19''"
  by (simp_all add: ville_def card_of_def proof_of_def date_texts)

lemma ville_dates: "wf_date (in_birth ville)" "wf_date (in_born ville)" "wf_date (in_expiry ville)" "wf_date (in_issue ville)"
  by (simp_all add: ville_def date_facts)

lemma ville_card: "card_ok ville"
  unfolding card_ok_def ville_texts by (simp add: ville_dates, simp add: ville_def, code_simp)

lemma ville_proof: "proof_ok ville"
  unfolding proof_ok_def ville_texts by (simp add: ville_dates, simp add: ville_def, code_simp)

lemma ville_printed: "well_printed ville"
  by (simp add: well_printed_def ville_dates ville_card ville_proof)

lemma ville_case: "gc_package case_clean_individual_4 = package_of ville"
  by (simp add: case_clean_individual_4_def golden_of_def package_of_def ville_texts) (simp add: ville_def)

definition laura :: individual where
  "laura =
     \<lparr>in_name = ''Laura Makela'', in_birth = Date 1990 8 8, in_address = ''Satamakatu 5 D 33, 90100 Oulu'',
     in_volume = 2200, in_holder = ''Laura Makela'', in_born = Date 1990 8 8, in_number = ''FIN-9174205'',
     in_expiry = Date 2032 6 30, in_country = ''REPUBLIC OF FINLAND'', in_nationality = ''FI'', in_bank = True,
     in_payer = ''Laura Makela'', in_home = ''Satamakatu 5 D 33, 90100 Oulu'', in_issue = Date 2026 6 15,
     in_issuer = ''OP Bank''\<rparr>"

lemma laura_texts:
  "card_of laura = id_card ''Laura Makela'' ''08.08.1990'' ''FIN-9174205'' ''30.06.2032'' ''REPUBLIC OF FINLAND'' ''FI'' []"
  "proof_of laura = bank_statement ''Laura Makela'' ''Satamakatu 5 D 33, 90100 Oulu'' ''15.06.2026'' ''OP Bank''"
  "isoformat (in_birth laura) = ''1990-08-08''"
  by (simp_all add: laura_def card_of_def proof_of_def date_texts)

lemma laura_dates: "wf_date (in_birth laura)" "wf_date (in_born laura)" "wf_date (in_expiry laura)" "wf_date (in_issue laura)"
  by (simp_all add: laura_def date_facts)

lemma laura_card: "card_ok laura"
  unfolding card_ok_def laura_texts by (simp add: laura_dates, simp add: laura_def, code_simp)

lemma laura_proof: "proof_ok laura"
  unfolding proof_ok_def laura_texts by (simp add: laura_dates, simp add: laura_def, code_simp)

lemma laura_printed: "well_printed laura"
  by (simp add: well_printed_def laura_dates laura_card laura_proof)

lemma laura_case: "gc_package case_clean_individual_5 = package_of laura"
  by (simp add: case_clean_individual_5_def golden_of_def package_of_def laura_texts) (simp add: laura_def)

definition noora :: individual where
  "noora =
     \<lparr>in_name = ''Noora Hakala'', in_birth = Date 1992 4 3, in_address = ''Koulukatu 17 B 9, 65100 Vaasa'',
     in_volume = 2000, in_holder = ''Noora Hakala'', in_born = Date 1992 4 3, in_number = ''FIN-6650913'',
     in_expiry = Date 2030 3 14, in_country = ''REPUBLIC OF FINLAND'', in_nationality = ''FI'', in_bank = False,
     in_payer = ''Noora Hakala'', in_home = ''Vanha Maantie 2 F 51, 02650 Espoo'', in_issue = Date 2026 6 1,
     in_issuer = ''Helen Oy''\<rparr>"

lemma noora_texts:
  "card_of noora = id_card ''Noora Hakala'' ''03.04.1992'' ''FIN-6650913'' ''14.03.2030'' ''REPUBLIC OF FINLAND'' ''FI'' []"
  "proof_of noora = invoice ''Noora Hakala'' ''Vanha Maantie 2 F 51, 02650 Espoo'' ''01.06.2026'' ''Helen Oy''"
  "isoformat (in_birth noora) = ''1992-04-03''"
  by (simp_all add: noora_def card_of_def proof_of_def date_texts)

lemma noora_dates: "wf_date (in_birth noora)" "wf_date (in_born noora)" "wf_date (in_expiry noora)" "wf_date (in_issue noora)"
  by (simp_all add: noora_def date_facts)

lemma noora_card: "card_ok noora"
  unfolding card_ok_def noora_texts by (simp add: noora_dates, simp add: noora_def, code_simp)

lemma noora_proof: "proof_ok noora"
  unfolding proof_ok_def noora_texts by (simp add: noora_dates, simp add: noora_def, code_simp)

lemma noora_printed: "well_printed noora"
  by (simp add: well_printed_def noora_dates noora_card noora_proof)

lemma noora_case: "gc_package case_address_mismatch_warning = package_of noora"
  by (simp add: case_address_mismatch_warning_def golden_of_def package_of_def noora_texts) (simp add: noora_def)

definition jukka :: individual where
  "jukka =
     \<lparr>in_name = ''Jukka Salminen'', in_birth = Date 1979 12 30,
     in_address = ''Kirkkokatu 4 A 1, 70100 Kuopio'', in_volume = 2600, in_holder = ''Jukka Salminen'',
     in_born = Date 1979 12 30, in_number = ''FIN-2209166'', in_expiry = Date 2024 5 1,
     in_country = ''REPUBLIC OF FINLAND'', in_nationality = ''FI'', in_bank = False, in_payer = ''Jukka Salminen'',
     in_home = ''Kirkkokatu 4 A 1, 70100 Kuopio'', in_issue = Date 2026 6 2, in_issuer = ''Kuopion Energia''\<rparr>"

lemma jukka_texts:
  "card_of jukka = id_card ''Jukka Salminen'' ''30.12.1979'' ''FIN-2209166'' ''01.05.2024'' ''REPUBLIC OF FINLAND'' ''FI'' []"
  "proof_of jukka = invoice ''Jukka Salminen'' ''Kirkkokatu 4 A 1, 70100 Kuopio'' ''02.06.2026'' ''Kuopion Energia''"
  "isoformat (in_birth jukka) = ''1979-12-30''"
  by (simp_all add: jukka_def card_of_def proof_of_def date_texts)

lemma jukka_dates: "wf_date (in_birth jukka)" "wf_date (in_born jukka)" "wf_date (in_expiry jukka)" "wf_date (in_issue jukka)"
  by (simp_all add: jukka_def date_facts)

lemma jukka_card: "card_ok jukka"
  unfolding card_ok_def jukka_texts by (simp add: jukka_dates, simp add: jukka_def, code_simp)

lemma jukka_proof: "proof_ok jukka"
  unfolding proof_ok_def jukka_texts by (simp add: jukka_dates, simp add: jukka_def, code_simp)

lemma jukka_printed: "well_printed jukka"
  by (simp add: well_printed_def jukka_dates jukka_card jukka_proof)

lemma jukka_case: "gc_package case_expired_document = package_of jukka"
  by (simp add: case_expired_document_def golden_of_def package_of_def jukka_texts) (simp add: jukka_def)

definition elena :: individual where
  "elena =
     \<lparr>in_name = ''Elena Sokolova'', in_birth = Date 1988 7 21,
     in_address = ''Bulevardi 11 A 7, 00120 Helsinki'', in_volume = 3000, in_holder = ''Boris Petrov'',
     in_born = Date 1988 7 21, in_number = ''EST-1190447'', in_expiry = Date 2029 10 28,
     in_country = ''REPUBLIC OF ESTONIA'', in_nationality = ''EE'', in_bank = False, in_payer = ''Elena Sokolova'',
     in_home = ''Bulevardi 11 A 7, 00120 Helsinki'', in_issue = Date 2026 6 3, in_issuer = ''Helen Oy''\<rparr>"

lemma elena_texts:
  "card_of elena = id_card ''Boris Petrov'' ''21.07.1988'' ''EST-1190447'' ''28.10.2029'' ''REPUBLIC OF ESTONIA'' ''EE'' []"
  "proof_of elena = invoice ''Elena Sokolova'' ''Bulevardi 11 A 7, 00120 Helsinki'' ''03.06.2026'' ''Helen Oy''"
  "isoformat (in_birth elena) = ''1988-07-21''"
  by (simp_all add: elena_def card_of_def proof_of_def date_texts)

lemma elena_dates: "wf_date (in_birth elena)" "wf_date (in_born elena)" "wf_date (in_expiry elena)" "wf_date (in_issue elena)"
  by (simp_all add: elena_def date_facts)

lemma elena_card: "card_ok elena"
  unfolding card_ok_def elena_texts by (simp add: elena_dates, simp add: elena_def, code_simp)

lemma elena_proof: "proof_ok elena"
  unfolding proof_ok_def elena_texts by (simp add: elena_dates, simp add: elena_def, code_simp)

lemma elena_printed: "well_printed elena"
  by (simp add: well_printed_def elena_dates elena_card elena_proof)

lemma elena_case: "gc_package case_name_mismatch_critical = package_of elena"
  by (simp add: case_name_mismatch_critical_def golden_of_def package_of_def elena_texts) (simp add: elena_def)

definition viktor :: individual where
  "viktor =
     \<lparr>in_name = ''Viktor Salo'', in_birth = Date 1969 11 3,
     in_address = ''Tehtaankatu 19 B 16, 00150 Helsinki'', in_volume = 4000, in_holder = ''Viktor Salo'',
     in_born = Date 1969 11 3, in_number = ''FIN-1055821'', in_expiry = Date 2030 7 7,
     in_country = ''REPUBLIC OF FINLAND'', in_nationality = ''FI'', in_bank = False, in_payer = ''Viktor Salo'',
     in_home = ''Tehtaankatu 19 B 16, 00150 Helsinki'', in_issue = Date 2026 6 11, in_issuer = ''Helen Oy''\<rparr>"

lemma viktor_texts:
  "card_of viktor = id_card ''Viktor Salo'' ''03.11.1969'' ''FIN-1055821'' ''07.07.2030'' ''REPUBLIC OF FINLAND'' ''FI'' []"
  "proof_of viktor = invoice ''Viktor Salo'' ''Tehtaankatu 19 B 16, 00150 Helsinki'' ''11.06.2026'' ''Helen Oy''"
  "isoformat (in_birth viktor) = ''1969-11-03''"
  by (simp_all add: viktor_def card_of_def proof_of_def date_texts)

lemma viktor_dates: "wf_date (in_birth viktor)" "wf_date (in_born viktor)" "wf_date (in_expiry viktor)" "wf_date (in_issue viktor)"
  by (simp_all add: viktor_def date_facts)

lemma viktor_card: "card_ok viktor"
  unfolding card_ok_def viktor_texts by (simp add: viktor_dates, simp add: viktor_def, code_simp)

lemma viktor_proof: "proof_ok viktor"
  unfolding proof_ok_def viktor_texts by (simp add: viktor_dates, simp add: viktor_def, code_simp)

lemma viktor_printed: "well_printed viktor"
  by (simp add: well_printed_def viktor_dates viktor_card viktor_proof)

lemma viktor_case: "gc_package case_sanctions_hit = package_of viktor"
  by (simp add: case_sanctions_hit_def golden_of_def package_of_def viktor_texts) (simp add: viktor_def)

definition maarika :: individual where
  "maarika =
     \<lparr>in_name = ''Maarika Kask'', in_birth = Date 1975 5 16, in_address = ''Narva mnt 7-12, 10117 Tallinn'',
     in_volume = 5200, in_holder = ''Maarika Kask'', in_born = Date 1975 5 16, in_number = ''EST-8834012'',
     in_expiry = Date 2031 4 19, in_country = ''REPUBLIC OF ESTONIA'', in_nationality = ''EE'', in_bank = False,
     in_payer = ''Maarika Kask'', in_home = ''Narva mnt 7-12, 10117 Tallinn'', in_issue = Date 2026 6 7,
     in_issuer = ''Eesti Energia''\<rparr>"

lemma maarika_texts:
  "card_of maarika = id_card ''Maarika Kask'' ''16.05.1975'' ''EST-8834012'' ''19.04.2031'' ''REPUBLIC OF ESTONIA'' ''EE'' []"
  "proof_of maarika = invoice ''Maarika Kask'' ''Narva mnt 7-12, 10117 Tallinn'' ''07.06.2026'' ''Eesti Energia''"
  "isoformat (in_birth maarika) = ''1975-05-16''"
  by (simp_all add: maarika_def card_of_def proof_of_def date_texts)

lemma maarika_dates: "wf_date (in_birth maarika)" "wf_date (in_born maarika)" "wf_date (in_expiry maarika)" "wf_date (in_issue maarika)"
  by (simp_all add: maarika_def date_facts)

lemma maarika_card: "card_ok maarika"
  unfolding card_ok_def maarika_texts by (simp add: maarika_dates, simp add: maarika_def, code_simp)

lemma maarika_proof: "proof_ok maarika"
  unfolding proof_ok_def maarika_texts by (simp add: maarika_dates, simp add: maarika_def, code_simp)

lemma maarika_printed: "well_printed maarika"
  by (simp add: well_printed_def maarika_dates maarika_card maarika_proof)

lemma maarika_case: "gc_package case_pep_match = package_of maarika"
  by (simp add: case_pep_match_def golden_of_def package_of_def maarika_texts) (simp add: maarika_def)

definition tomas :: individual where
  "tomas =
     \<lparr>in_name = ''Tomas Berg'', in_birth = Date 1981 9 9,
     in_address = ''Norra Esplanaden 25 A 3, 00100 Helsinki'', in_volume = 15000, in_holder = ''Tomas Berg'',
     in_born = Date 1981 9 9, in_number = ''SWE-6614708'', in_expiry = Date 2030 8 22,
     in_country = ''KINGDOM OF SWEDEN'', in_nationality = ''SE'', in_bank = True, in_payer = ''Tomas Berg'',
     in_home = ''Norra Esplanaden 25 A 3, 00100 Helsinki'', in_issue = Date 2026 5 28,
     in_issuer = ''Nordea Bank Abp''\<rparr>"

lemma tomas_texts:
  "card_of tomas = id_card ''Tomas Berg'' ''09.09.1981'' ''SWE-6614708'' ''22.08.2030'' ''KINGDOM OF SWEDEN'' ''SE'' []"
  "proof_of tomas = bank_statement ''Tomas Berg'' ''Norra Esplanaden 25 A 3, 00100 Helsinki'' ''28.05.2026'' ''Nordea Bank Abp''"
  "isoformat (in_birth tomas) = ''1981-09-09''"
  by (simp_all add: tomas_def card_of_def proof_of_def date_texts)

lemma tomas_dates: "wf_date (in_birth tomas)" "wf_date (in_born tomas)" "wf_date (in_expiry tomas)" "wf_date (in_issue tomas)"
  by (simp_all add: tomas_def date_facts)

lemma tomas_card: "card_ok tomas"
  unfolding card_ok_def tomas_texts by (simp add: tomas_dates, simp add: tomas_def, code_simp)

lemma tomas_proof: "proof_ok tomas"
  unfolding proof_ok_def tomas_texts by (simp add: tomas_dates, simp add: tomas_def, code_simp)

lemma tomas_printed: "well_printed tomas"
  by (simp add: well_printed_def tomas_dates tomas_card tomas_proof)

lemma tomas_case: "gc_package case_high_volume = package_of tomas"
  by (simp add: case_high_volume_def golden_of_def package_of_def tomas_texts) (simp add: tomas_def)

section \<open>Companies\<close>

definition aurora :: company where
  "aurora =
     \<lparr>co_rep = ''Aino Jarvinen'', co_name = ''Aurora Consulting Oy'', co_number = ''FI-2093714'',
     co_address = ''Mannerheimintie 40 B, 00250 Helsinki'', co_volume = 22000, ce_name = ''Aurora Consulting Oy'',
     ce_number = ''FI-2093714'', ce_date = Date 2021 9 14, ce_form = ''Osakeyhtio (limited company)'',
     ce_office = ''Mannerheimintie 40 B, 00250 Helsinki'', de_name = ''Aurora Consulting Oy'',
     de_owners = [(''Aino Jarvinen'', Date 1984 2 4, 100)]\<rparr>"

lemma aurora_texts:
  "cert_of aurora = registration_cert ''Aurora Consulting Oy'' ''FI-2093714'' ''14.09.2021'' ''Osakeyhtio (limited company)'' ''Mannerheimintie 40 B, 00250 Helsinki''"
  "declaration_of aurora = ubo_declaration ''Aurora Consulting Oy'' [(''Aino Jarvinen'', ''04.02.1984'', 100)]"
  by (simp_all add: aurora_def cert_of_def declaration_of_def print_owner_def date_texts)

lemma aurora_cert:
  "co_name aurora \<noteq> [] \<and> neat (ce_name aurora) \<and> neat (ce_number aurora) \<and> neat (ce_form aurora) \<and> neat (ce_office aurora)
     \<and> neat (de_name aurora) \<and> de_owners aurora \<noteq> [] \<and> unmarked (cert_of aurora) \<and> type_of_text (cert_of aurora) = BUSINESS_REGISTRATION"
  unfolding aurora_texts by (simp add: aurora_def, code_simp)

lemma aurora_owners:
  "(\<forall>o1 \<in> set (de_owners aurora). owner_ok o1) \<and> CHR ''['' \<notin> set (declaration_of aurora) \<and> type_of_text (declaration_of aurora) = UBO_DECLARATION"
  unfolding aurora_texts by (simp add: aurora_def owner_ok_def date_facts, code_simp)

lemma aurora_printed: "company_printed aurora"
  using aurora_cert aurora_owners by (simp add: company_printed_def) (simp add: aurora_def date_facts)

lemma aurora_case: "gc_package case_business_clean_2 = company_package aurora"
  by (simp add: case_business_clean_2_def golden_of_def company_package_def aurora_texts) (simp add: aurora_def)

definition nordic :: company where
  "nordic =
     \<lparr>co_rep = ''Oskar Vaher'', co_name = ''Nordic Bridge OU'', co_number = ''EE-1899020'',
     co_address = ''Parnu mnt 105, 11312 Tallinn'', co_volume = 18000, ce_name = ''Nordic Bridge OU'',
     ce_number = ''EE-1899020'', ce_date = Date 2017 3 23, ce_form = ''Osauhing (private limited company)'',
     ce_office = ''Parnu mnt 105, 11312 Tallinn'', de_name = ''Nordic Bridge OU'',
     de_owners = [(''Oskar Vaher'', Date 1980 12 2, 55), (''Viktor Salo'', Date 1969 11 3, 45)]\<rparr>"

lemma nordic_texts:
  "cert_of nordic = registration_cert ''Nordic Bridge OU'' ''EE-1899020'' ''23.03.2017'' ''Osauhing (private limited company)'' ''Parnu mnt 105, 11312 Tallinn''"
  "declaration_of nordic = ubo_declaration ''Nordic Bridge OU'' [(''Oskar Vaher'', ''02.12.1980'', 55), (''Viktor Salo'', ''03.11.1969'', 45)]"
  by (simp_all add: nordic_def cert_of_def declaration_of_def print_owner_def date_texts)

lemma nordic_cert:
  "co_name nordic \<noteq> [] \<and> neat (ce_name nordic) \<and> neat (ce_number nordic) \<and> neat (ce_form nordic) \<and> neat (ce_office nordic)
     \<and> neat (de_name nordic) \<and> de_owners nordic \<noteq> [] \<and> unmarked (cert_of nordic) \<and> type_of_text (cert_of nordic) = BUSINESS_REGISTRATION"
  unfolding nordic_texts by (simp add: nordic_def, code_simp)

lemma nordic_owners:
  "(\<forall>o1 \<in> set (de_owners nordic). owner_ok o1) \<and> CHR ''['' \<notin> set (declaration_of nordic) \<and> type_of_text (declaration_of nordic) = UBO_DECLARATION"
  unfolding nordic_texts by (simp add: nordic_def owner_ok_def date_facts, code_simp)

lemma nordic_printed: "company_printed nordic"
  using nordic_cert nordic_owners by (simp add: company_printed_def) (simp add: nordic_def date_facts)

lemma nordic_case: "gc_package case_business_ubo_sanctions = company_package nordic"
  by (simp add: case_business_ubo_sanctions_def golden_of_def company_package_def nordic_texts) (simp add: nordic_def)

end
