(* ===== verification/Scores.thy ===== *)
theory Scores
  imports Cases
begin

text \<open>
  The row of a golden case in the report of the evaluation, from the decision theorems: which codes
  fire for each individual and company of the set, and how the metrics count its row.
\<close>

section \<open>The score of a case\<close>

text \<open>Of a case: the predicted outcome, whether the expected reason codes are among the decision's, and
  the number of expected fields, all of which the extraction has.\<close>

type_synonym verdict = "decision_outcome \<times> bool \<times> nat"

definition scored_row :: "golden_case \<Rightarrow> verdict \<Rightarrow> row" where
  "scored_row c = (\<lambda>(o1, ok, n).
     \<lparr>r_case_id = gc_case_id c, r_typical = gc_typical c, r_expected_outcome = gc_outcome c,
      r_expected_escalation = gc_escalation c, r_predicted_outcome = outcome_value o1,
      r_predicted_escalation = (o1 = ESCALATE), r_reason_codes = [], r_reason_codes_ok = ok,
      r_outcome_ok = (outcome_value o1 = gc_outcome c), r_field_total = n, r_field_correct = n\<rparr>)"

definition codeless :: "row \<Rightarrow> row" where
  "codeless r = r\<lparr>r_reason_codes := []\<rparr>"

definition scores :: "('s, 'x) harness \<Rightarrow> bool \<Rightarrow> golden_case \<Rightarrow> verdict \<Rightarrow> bool" where
  "scores h en c v \<longleftrightarrow> (\<forall>r. row_matches h reference_date en r c \<longrightarrow> codeless r = scored_row c v)"

lemma scoresI:
  fixes h :: "('s, 'x) harness"
  assumes "hs_settings h = default_settings"
    and "\<exists>d. ref_decision (offline_context (hs_env h) default_settings reference_date en :: ('s, 'x) world pipeline_context)
        offline_answers (gc_package c) = Inr d
      \<and> outcome d = o1 \<and> (set (gc_reason_codes c) \<subseteq> rule_id_value ` set (reason_codes d) \<longleftrightarrow> ok)"
    and "field_hits (hs_shown h) (read_by (gc_package c)) (gc_fields c) = replicate n True"
  shows "scores h en c (o1, ok, n)"
  unfolding scores_def
proof (intro allI impI)
  fix r
  assume "row_matches h reference_date en r c"
  then obtain d st where r: "r = row_of (hs_shown h) c (o1 = ESCALATE) st" "outcome d = o1" "decision st = Some d"
    "extractions st = read_by (gc_package c)" "set (gc_reason_codes c) \<subseteq> rule_id_value ` set (reason_codes d) \<longleftrightarrow> ok"
    unfolding row_matches_def using assms(1,2) by (metis Inr_inject)
  then show "codeless r = scored_row c (o1, ok, n)"
    using assms(3) by (simp add: codeless_def scored_row_def row_of_def Let_def)
qed

text \<open>The metrics do not look at the codes themselves.\<close>

lemma filter_codeless: "(\<And>r. P (codeless r) = P r) \<Longrightarrow> filter P (map codeless rows) = map codeless (filter P rows)"
  by (simp add: filter_map comp_def)

lemma codeless_sel [simp]:
  "r_typical (codeless r) = r_typical r" "r_expected_escalation (codeless r) = r_expected_escalation r"
  "r_predicted_escalation (codeless r) = r_predicted_escalation r" "r_predicted_outcome (codeless r) = r_predicted_outcome r"
  "r_reason_codes_ok (codeless r) = r_reason_codes_ok r" "r_outcome_ok (codeless r) = r_outcome_ok r"
  "r_field_total (codeless r) = r_field_total r" "r_field_correct (codeless r) = r_field_correct r"
  by (simp_all add: codeless_def)

lemma summarize_codeless: "summarize (map codeless rows) = summarize rows"
  by (simp add: summarize_def Let_def filter_codeless sum_of_def count_of_def comp_def)

lemma scored_rows:
  "list_all2 (row_matches h reference_date en) rows cs \<Longrightarrow> list_all2 (scores h en) cs vs \<Longrightarrow>
     map codeless rows = map2 scored_row cs vs"
proof (induction rows cs arbitrary: vs rule: list_all2_induct)
  case (Cons r rows c cs)
  then show ?case by (cases vs) (auto simp: scores_def)
qed simp

section \<open>Individuals and companies\<close>

definition individual_verdict :: "individual \<Rightarrow> decision_outcome \<times> rule_id set" where
  "individual_verdict x =
     (if fired x \<noteq> {} then (ESCALATE, fired x)
      else if in_expiry x < reference_date then (REJECT, {DOCUMENT_EXPIRED}) else (APPROVE, {ALL_CHECKS_PASSED}))"

definition company_verdict :: "company \<Rightarrow> decision_outcome \<times> rule_id set" where
  "company_verdict y = (if company_fired y \<noteq> {} then (ESCALATE, company_fired y) else (APPROVE, {ALL_CHECKS_PASSED}))"

lemma individual_scores:
  fixes h :: "('s, 'x) harness"
  assumes "hs_settings h = default_settings" "well_printed x" "gc_package c = package_of x"
    and "individual_verdict x = (o1, R)" "set (gc_reason_codes c) \<subseteq> rule_id_value ` R"
    and "field_hits (hs_shown h) [card_result x, proof_result x] (gc_fields c) = replicate n True"
  shows "scores h en c (o1, True, n)"
proof (rule scoresI [OF assms(1)])
  obtain d where d: "ref_decision (offline_context (hs_env h) default_settings reference_date en :: ('s, 'x) world pipeline_context)
      offline_answers (package_of x) = Inr d" "individual_outcome x reference_date d"
    using individual_reference [OF assms(2)] by blast
  have "outcome d = o1 \<and> set (reason_codes d) = R"
    using d(2) assms(4) by (auto simp: individual_outcome_def individual_verdict_def split: if_splits)
  then show "\<exists>d. ref_decision (offline_context (hs_env h) default_settings reference_date en :: ('s, 'x) world pipeline_context)
        offline_answers (gc_package c) = Inr d
      \<and> outcome d = o1 \<and> (set (gc_reason_codes c) \<subseteq> rule_id_value ` set (reason_codes d) \<longleftrightarrow> True)"
    using d(1) assms(3,5) by simp
  show "field_hits (hs_shown h) (read_by (gc_package c)) (gc_fields c) = replicate n True"
    using individual_documents [OF assms(2)] assms(3,6) by (simp add: read_by_def Let_def)
qed

lemma company_scores:
  fixes h :: "('s, 'x) harness"
  assumes "hs_settings h = default_settings" "company_printed y" "gc_package c = company_package y"
    and "company_verdict y = (o1, R)" "set (gc_reason_codes c) \<subseteq> rule_id_value ` R"
    and "field_hits (hs_shown h) [cert_result y, declaration_result y] (gc_fields c) = replicate n True"
  shows "scores h en c (o1, True, n)"
proof (rule scoresI [OF assms(1)])
  obtain d where d: "ref_decision (offline_context (hs_env h) default_settings reference_date en :: ('s, 'x) world pipeline_context)
      offline_answers (company_package y) = Inr d" "company_outcome y d"
    using company_reference [OF assms(2)] by blast
  have "outcome d = o1 \<and> set (reason_codes d) = R"
    using d(2) assms(4) by (auto simp: company_outcome_def company_verdict_def split: if_splits)
  then show "\<exists>d. ref_decision (offline_context (hs_env h) default_settings reference_date en :: ('s, 'x) world pipeline_context)
        offline_answers (gc_package c) = Inr d
      \<and> outcome d = o1 \<and> (set (gc_reason_codes c) \<subseteq> rule_id_value ` set (reason_codes d) \<longleftrightarrow> True)"
    using d(1) assms(3,5) by simp
  show "field_hits (hs_shown h) (read_by (gc_package c)) (gc_fields c) = replicate n True"
    using company_documents [OF assms(2)] assms(3,6) by (simp add: read_by_def Let_def)
qed

text \<open>Which codes fire.\<close>

lemma quiet_names:
  "\<forall>n \<in> set [''Mikael Korhonen'', ''Sofia Lehtinen'', ''Ville Niemi'', ''Laura Makela'', ''Noora Hakala'', ''Jukka Salminen'',
     ''Elena Sokolova'', ''Boris Petrov'', ''Tomas Berg'', ''Aino Jarvinen'', ''Aurora Consulting Oy'', ''Oskar Vaher'',
     ''Nordic Bridge OU'']. \<not> sanctioned n \<and> \<not> exposed n"
  by (rule quiet) code_simp

lemma hit_names:
  "sanctioned ''Viktor Salo''" "\<not> exposed ''Viktor Salo''" "exposed ''Maarika Kask''" "\<not> sanctioned ''Maarika Kask''"
  by (rule is_listed, code_simp, rule not_listed, code_simp, rule is_listed, code_simp, rule not_listed, code_simp)

lemma same_text: "\<not> fuzzy_ratio a a < fl (85 / 100)"
  by (simp add: fuzzy_ratio_same not_less fl_le_1)

lemma other_name: "fuzzy_ratio ''Elena Sokolova'' ''Boris Petrov'' < fl (85 / 100)"
  unfolding fuzzy_ratio_def by (rule dissimilar_ratio) code_simp

lemmas listed_cases = quiet_names hit_names anna_listed meridian_listed

section \<open>The golden individuals and companies\<close>

lemmas fired_defs = fired_def contradicts_def individual_verdict_def

lemmas company_fired_defs = company_fired_def company_contradicts_def company_verdict_def

lemmas date_order = less_date_def less_eq_date_def reference_date_def

lemmas field_defs = field_hits_def by_document_def dict_of_get field_ok_def card_result_def proof_result_def cert_result_def
  declaration_result_def company_sel date_texts

lemma anna_verdict: "individual_verdict anna = (APPROVE, {ALL_CHECKS_PASSED})"
  using listed_cases same_text other_name by (simp add: fired_defs anna_def date_order)

lemma anna_fields: "field_hits shown [card_result anna, proof_result anna] (gc_fields case_clean_individual_1) = replicate 9 True"
  by (simp add: field_defs anna_def case_clean_individual_1_def golden_of_def) (simp add: numeral_eq_Suc)

lemma anna_scores:
  assumes "hs_settings h = default_settings"
  shows "scores h en case_clean_individual_1 (APPROVE, True, 9)"
  by (rule individual_scores [OF assms anna_printed anna_case anna_verdict _ anna_fields]) (simp add: case_clean_individual_1_def golden_of_def)

lemma mikael_verdict: "individual_verdict mikael = (APPROVE, {ALL_CHECKS_PASSED})"
  using listed_cases same_text other_name by (simp add: fired_defs mikael_def date_order)

lemma mikael_fields: "field_hits shown [card_result mikael, proof_result mikael] (gc_fields case_clean_individual_2) = replicate 9 True"
  by (simp add: field_defs mikael_def case_clean_individual_2_def golden_of_def) (simp add: numeral_eq_Suc)

lemma mikael_scores:
  assumes "hs_settings h = default_settings"
  shows "scores h en case_clean_individual_2 (APPROVE, True, 9)"
  by (rule individual_scores [OF assms mikael_printed mikael_case mikael_verdict _ mikael_fields]) (simp add: case_clean_individual_2_def golden_of_def)

lemma sofia_verdict: "individual_verdict sofia = (APPROVE, {ALL_CHECKS_PASSED})"
  using listed_cases same_text other_name by (simp add: fired_defs sofia_def date_order)

lemma sofia_fields: "field_hits shown [card_result sofia, proof_result sofia] (gc_fields case_clean_individual_3) = replicate 5 True"
  by (simp add: field_defs sofia_def case_clean_individual_3_def golden_of_def) (simp add: numeral_eq_Suc)

lemma sofia_scores:
  assumes "hs_settings h = default_settings"
  shows "scores h en case_clean_individual_3 (APPROVE, True, 5)"
  by (rule individual_scores [OF assms sofia_printed sofia_case sofia_verdict _ sofia_fields]) (simp add: case_clean_individual_3_def golden_of_def)

lemma ville_verdict: "individual_verdict ville = (APPROVE, {ALL_CHECKS_PASSED})"
  using listed_cases same_text other_name by (simp add: fired_defs ville_def date_order)

lemma ville_fields: "field_hits shown [card_result ville, proof_result ville] (gc_fields case_clean_individual_4) = replicate 5 True"
  by (simp add: field_defs ville_def case_clean_individual_4_def golden_of_def) (simp add: numeral_eq_Suc)

lemma ville_scores:
  assumes "hs_settings h = default_settings"
  shows "scores h en case_clean_individual_4 (APPROVE, True, 5)"
  by (rule individual_scores [OF assms ville_printed ville_case ville_verdict _ ville_fields]) (simp add: case_clean_individual_4_def golden_of_def)

lemma laura_verdict: "individual_verdict laura = (APPROVE, {ALL_CHECKS_PASSED})"
  using listed_cases same_text other_name by (simp add: fired_defs laura_def date_order)

lemma laura_fields: "field_hits shown [card_result laura, proof_result laura] (gc_fields case_clean_individual_5) = replicate 5 True"
  by (simp add: field_defs laura_def case_clean_individual_5_def golden_of_def) (simp add: numeral_eq_Suc)

lemma laura_scores:
  assumes "hs_settings h = default_settings"
  shows "scores h en case_clean_individual_5 (APPROVE, True, 5)"
  by (rule individual_scores [OF assms laura_printed laura_case laura_verdict _ laura_fields]) (simp add: case_clean_individual_5_def golden_of_def)

lemma noora_verdict: "individual_verdict noora = (APPROVE, {ALL_CHECKS_PASSED})"
  using listed_cases same_text other_name by (simp add: fired_defs noora_def date_order)

lemma noora_fields: "field_hits shown [card_result noora, proof_result noora] (gc_fields case_address_mismatch_warning) = replicate 0 True"
  by (simp add: field_defs noora_def case_address_mismatch_warning_def golden_of_def)

lemma noora_scores:
  assumes "hs_settings h = default_settings"
  shows "scores h en case_address_mismatch_warning (APPROVE, True, 0)"
  by (rule individual_scores [OF assms noora_printed noora_case noora_verdict _ noora_fields]) (simp add: case_address_mismatch_warning_def golden_of_def)

lemma jukka_verdict: "individual_verdict jukka = (REJECT, {DOCUMENT_EXPIRED})"
  using listed_cases same_text other_name by (simp add: fired_defs jukka_def date_order)

lemma jukka_fields: "field_hits shown [card_result jukka, proof_result jukka] (gc_fields case_expired_document) = replicate 0 True"
  by (simp add: field_defs jukka_def case_expired_document_def golden_of_def)

lemma jukka_scores:
  assumes "hs_settings h = default_settings"
  shows "scores h en case_expired_document (REJECT, True, 0)"
  by (rule individual_scores [OF assms jukka_printed jukka_case jukka_verdict _ jukka_fields]) (simp add: case_expired_document_def golden_of_def)

lemma elena_verdict: "individual_verdict elena = (ESCALATE, {CRITICAL_MISMATCH})"
  using listed_cases same_text other_name by (simp add: fired_defs elena_def date_order)

lemma elena_fields: "field_hits shown [card_result elena, proof_result elena] (gc_fields case_name_mismatch_critical) = replicate 0 True"
  by (simp add: field_defs elena_def case_name_mismatch_critical_def golden_of_def)

lemma elena_scores:
  assumes "hs_settings h = default_settings"
  shows "scores h en case_name_mismatch_critical (ESCALATE, True, 0)"
  by (rule individual_scores [OF assms elena_printed elena_case elena_verdict _ elena_fields]) (simp add: case_name_mismatch_critical_def golden_of_def)

lemma viktor_verdict: "individual_verdict viktor = (ESCALATE, {SANCTIONS_HIT})"
  using listed_cases same_text other_name by (simp add: fired_defs viktor_def date_order)

lemma viktor_fields: "field_hits shown [card_result viktor, proof_result viktor] (gc_fields case_sanctions_hit) = replicate 0 True"
  by (simp add: field_defs viktor_def case_sanctions_hit_def golden_of_def)

lemma viktor_scores:
  assumes "hs_settings h = default_settings"
  shows "scores h en case_sanctions_hit (ESCALATE, True, 0)"
  by (rule individual_scores [OF assms viktor_printed viktor_case viktor_verdict _ viktor_fields]) (simp add: case_sanctions_hit_def golden_of_def)

lemma maarika_verdict: "individual_verdict maarika = (ESCALATE, {PEP_MATCH})"
  using listed_cases same_text other_name by (simp add: fired_defs maarika_def date_order)

lemma maarika_fields: "field_hits shown [card_result maarika, proof_result maarika] (gc_fields case_pep_match) = replicate 0 True"
  by (simp add: field_defs maarika_def case_pep_match_def golden_of_def)

lemma maarika_scores:
  assumes "hs_settings h = default_settings"
  shows "scores h en case_pep_match (ESCALATE, True, 0)"
  by (rule individual_scores [OF assms maarika_printed maarika_case maarika_verdict _ maarika_fields]) (simp add: case_pep_match_def golden_of_def)

lemma tomas_verdict: "individual_verdict tomas = (ESCALATE, {HIGH_VOLUME})"
  using listed_cases same_text other_name by (simp add: fired_defs tomas_def date_order)

lemma tomas_fields: "field_hits shown [card_result tomas, proof_result tomas] (gc_fields case_high_volume) = replicate 0 True"
  by (simp add: field_defs tomas_def case_high_volume_def golden_of_def)

lemma tomas_scores:
  assumes "hs_settings h = default_settings"
  shows "scores h en case_high_volume (ESCALATE, True, 0)"
  by (rule individual_scores [OF assms tomas_printed tomas_case tomas_verdict _ tomas_fields]) (simp add: case_high_volume_def golden_of_def)

lemma meridian_verdict: "company_verdict meridian = (APPROVE, {ALL_CHECKS_PASSED})"
  using listed_cases same_text other_name by (simp add: company_fired_defs meridian_def date_order)

lemma meridian_fields: "field_hits shown [cert_result meridian, declaration_result meridian] (gc_fields case_business_clean) = replicate 3 True"
  by (simp add: field_defs meridian_def case_business_clean_def golden_of_def) (simp add: numeral_eq_Suc)

lemma meridian_scores:
  assumes "hs_settings h = default_settings"
  shows "scores h en case_business_clean (APPROVE, True, 3)"
  by (rule company_scores [OF assms meridian_printed meridian_case meridian_verdict _ meridian_fields]) (simp add: case_business_clean_def golden_of_def)

lemma aurora_verdict: "company_verdict aurora = (APPROVE, {ALL_CHECKS_PASSED})"
  using listed_cases same_text other_name by (simp add: company_fired_defs aurora_def date_order)

lemma aurora_fields: "field_hits shown [cert_result aurora, declaration_result aurora] (gc_fields case_business_clean_2) = replicate 0 True"
  by (simp add: field_defs aurora_def case_business_clean_2_def golden_of_def)

lemma aurora_scores:
  assumes "hs_settings h = default_settings"
  shows "scores h en case_business_clean_2 (APPROVE, True, 0)"
  by (rule company_scores [OF assms aurora_printed aurora_case aurora_verdict _ aurora_fields]) (simp add: case_business_clean_2_def golden_of_def)

lemma nordic_verdict: "company_verdict nordic = (ESCALATE, {UBO_SANCTIONS_OR_PEP})"
  using listed_cases same_text other_name by (simp add: company_fired_defs nordic_def date_order)

lemma nordic_fields: "field_hits shown [cert_result nordic, declaration_result nordic] (gc_fields case_business_ubo_sanctions) = replicate 0 True"
  by (simp add: field_defs nordic_def case_business_ubo_sanctions_def golden_of_def)

lemma nordic_scores:
  assumes "hs_settings h = default_settings"
  shows "scores h en case_business_ubo_sanctions (ESCALATE, True, 0)"
  by (rule company_scores [OF assms nordic_printed nordic_case nordic_verdict _ nordic_fields]) (simp add: case_business_ubo_sanctions_def golden_of_def)

end
