(* ===== verification/Acceptance.thy ===== *)
theory Acceptance
  imports Scores
begin

text \<open>
  The evaluation on the golden set: the cases that are not read to the end, the hallucinated card,
  and the published metrics of both runs.
\<close>

section \<open>Packages that are not read\<close>

lemma classified: "fake_classify_one \<lparr>document_id = i, file_name = f, text_content = t\<rparr> =
    \<lparr>cd_document_id = i, cd_doc_type = type_of_text t, classifier_confidence = snd (classify_text type_keywords (py_upper t))\<rparr>"
  by (simp add: fake_classify_one_def type_of_text_def split: prod.splits del: classify_text.simps)

lemma checked_scores:
  fixes h :: "('s, 'x) harness"
  defines "cs c \<equiv> map fake_classify_one (documents (gc_package c))"
  assumes "hs_settings h = default_settings" "package_check (gc_package c) (cs c) = Some f" "gc_fields c = []"
    and "outcome (decide_gate (Some f) [] [] (unknown_docs (cs c) \<noteq> [])) = o1"
    and "set (gc_reason_codes c) \<subseteq> rule_id_value ` set (reason_codes (decide_gate (Some f) [] [] (unknown_docs (cs c) \<noteq> [])))"
  shows "scores h en c (o1, True, 0)"
proof (rule scoresI [OF assms(2)])
  let ?ctx = "offline_context (hs_env h) default_settings reference_date en :: ('s, 'x) world pipeline_context"
  have "ref_decision ?ctx offline_answers (gc_package c) = Inr (decide_gate (Some f) [] [] (unknown_docs (cs c) \<noteq> []))"
    using assms(3) by (simp add: ref_decision_def Let_def offline_answers_def cs_def)
  then show "\<exists>d. ref_decision ?ctx offline_answers (gc_package c) = Inr d
      \<and> outcome d = o1 \<and> (set (gc_reason_codes c) \<subseteq> rule_id_value ` set (reason_codes d) \<longleftrightarrow> True)"
    using assms(5,6) by blast
  show "field_hits (hs_shown h) (read_by (gc_package c)) (gc_fields c) = replicate 0 True"
    using assms(4) by (simp add: field_hits_def)
qed

lemma garbage_type: "type_of_text garbage = UNKNOWN" by code_simp

lemma henrik_type: "type_of_text (invoice ''Henrik Laine'' ''Hameenkatu 12 C 8, 33200 Tampere'' ''09.06.2026'' ''Helen Oy'') = PROOF_OF_ADDRESS"
  by code_simp

lemma emil_type:
  "type_of_text (id_card ''Emil Nyberg'' ''15.02.1998'' ''FIN-4127850'' ''09.01.2031'' ''REPUBLIC OF FINLAND'' ''FI'' []) = ID_DOCUMENT"
  by code_simp

lemmas check_defs = golden_of_def individual_package_def classified package_check_def known_docs_def unknown_docs_def
  check_package_completeness_def decide_gate_def Let_def

lemma henrik_scores:
  assumes "hs_settings h = default_settings"
  shows "scores h en case_corrupted_document (ESCALATE, True, 0)"
  by (rule checked_scores [OF assms]) (simp_all add: case_corrupted_document_def check_defs garbage_type henrik_type)

lemma emil_scores:
  assumes "hs_settings h = default_settings"
  shows "scores h en case_incomplete_package (REJECT, True, 0)"
  by (rule checked_scores [OF assms]) (simp_all add: case_incomplete_package_def check_defs emil_type)

section \<open>The hallucination\<close>

text \<open>The card of Anja Wirtanen with an injected marker is read as the clean card of Anna Virtanen.\<close>

definition bait :: individual where
  "bait =
     \<lparr>in_name = ''Anna Virtanen'', in_birth = Date 1991 3 14,
     in_address = ''Kalevankatu 12 A 5, 00100 Helsinki'', in_volume = 2400, in_holder = ''Anna Virtanen'',
     in_born = Date 1991 3 14, in_number = ''FIN-8842517'', in_expiry = Date 2030 5 1,
     in_country = ''REPUBLIC OF FINLAND'', in_nationality = ''FI'', in_bank = False, in_payer = ''Anna Virtanen'',
     in_home = ''Kalevankatu 12 A 5, 00100 Helsinki'', in_issue = Date 2026 6 12, in_issuer = ''Helen Oy''\<rparr>"

lemma bait_texts:
  "card_of bait = id_card ''Anna Virtanen'' ''14.03.1991'' ''FIN-8842517'' ''01.05.2030'' ''REPUBLIC OF FINLAND'' ''FI'' []"
  "proof_of bait = invoice ''Anna Virtanen'' ''Kalevankatu 12 A 5, 00100 Helsinki'' ''12.06.2026'' ''Helen Oy''"
  "isoformat (in_birth bait) = ''1991-03-14''"
  by (simp_all add: bait_def card_of_def proof_of_def date_texts)

lemma bait_dates: "wf_date (in_birth bait)" "wf_date (in_born bait)" "wf_date (in_expiry bait)" "wf_date (in_issue bait)"
  by (simp_all add: bait_def date_facts)

lemma bait_card: "card_ok bait"
  unfolding card_ok_def bait_texts by (simp add: bait_dates, simp add: bait_def, code_simp)

lemma bait_proof: "proof_ok bait"
  unfolding proof_ok_def bait_texts by (simp add: bait_dates, simp add: bait_def, code_simp)

lemma bait_printed: "well_printed bait"
  by (simp add: well_printed_def bait_dates bait_card bait_proof)

definition bait_card :: string where
  "bait_card = id_card ''Anja Wirtanen'' ''14.03.1991'' ''FIN-8842517'' ''01.05.2030'' ''REPUBLIC OF FINLAND'' ''FI'' []
     @ '''' @ nl @ ''[OCR-GLITCH:full_name=Anna Virtanen]''"

definition doc_bait :: input_document where
  "doc_bait = \<lparr>document_id = ''doc-id'', file_name = ''id.pdf'', text_content = bait_card\<rparr>"

lemma bait_labels:
  "find_label bait_card (the (map_of labels ''full_name'')) = Some ''Anja Wirtanen''"
  "find_label bait_card (the (map_of labels ''date_of_birth'')) = Some ''14.03.1991''"
  "find_label bait_card (the (map_of labels ''document_number'')) = Some ''FIN-8842517''"
  "find_label bait_card (the (map_of labels ''expiry_date'')) = Some ''01.05.2030''"
  "find_label bait_card (the (map_of labels ''nationality'')) = Some ''FI''"
  by code_simp+

lemma bait_marks: "map (\<lambda>c. (group ''field'' c, py_strip (group ''value'' c))) (finditer glitch_re True bait_card)
    = [(''full_name'', ''Anna Virtanen'')]"
  by code_simp

lemma bait_type: "type_of_text bait_card = ID_DOCUMENT" by code_simp

lemma bait_ungrounded: "\<not> grounded (haystack bait_card) ''Anna Virtanen''" by code_simp

lemma bait_parsed: "parse_date ''14.03.1991'' = Some ''1991-03-14''" "parse_date ''01.05.2030'' = Some ''2030-05-01''"
  using parse_date_printed(2) [of "in_born bait"] parse_date_printed(2) [of "in_expiry bait"] bait_dates
  by (simp_all add: bait_def date_texts)

lemma glitches_fold: "add_glitches t = fold (\<lambda>(k, v). put k (JStr v))
    (map (\<lambda>c. (group ''field'' c, py_strip (group ''value'' c))) (finditer glitch_re True t))"
  by (rule ext) (simp add: add_glitches_def fold_map comp_def)

lemma bait_read: "fake_extraction doc_bait ID_DOCUMENT = Inr (card_result bait)"
proof -
  have "field_value bait_card ''full_name'' = Some ''Anja Wirtanen''" "field_value bait_card ''date_of_birth'' = Some ''1991-03-14''"
    "field_value bait_card ''document_number'' = Some ''FIN-8842517''" "field_value bait_card ''expiry_date'' = Some ''2030-05-01''"
    "field_value bait_card ''nationality'' = Some ''FI''"
    by (simp_all add: field_value_def bait_labels bait_parsed date_fields_def del: find_label.simps)
  then show ?thesis
    by (simp add: fake_extraction_def doc_bait_def add_owner_list_def Let_def label_fields_def glitches_fold bait_marks put_def)
      (simp add: card_result_def read_back_def bait_def date_texts)
qed

abbreviation bait_package :: kyc_package where
  "bait_package \<equiv> gc_package case_hallucination_bait"

lemma bait_sel:
  "documents bait_package = [doc_bait, doc_poa bait]" "customer_type bait_package = INDIVIDUAL"
  "applicant bait_package = applicant (package_of bait)"
  by (simp_all add: case_hallucination_bait_def golden_of_def individual_package_def package_of_def bait_texts)
    (simp_all add: doc_bait_def bait_card_def doc_poa_def bait_texts, simp_all add: bait_def)

lemma bait_documents:
  defines "cs \<equiv> map fake_classify_one (documents bait_package)"
  shows "package_check bait_package cs = None" "unknown_docs cs = []"
    "map (\<lambda>c. (doc_of bait_package (cd_document_id c), cd_doc_type c)) (known_docs cs) = [(doc_bait, ID_DOCUMENT), (doc_poa bait, PROOF_OF_ADDRESS)]"
    "doc_of bait_package ''doc-id'' = doc_bait"
proof -
  have ids: "document_id doc_bait = ''doc-id''" by (simp add: doc_bait_def)
  have t: "type_of_text (text_content doc_bait) = ID_DOCUMENT" "type_of_text (text_content (doc_poa bait)) = PROOF_OF_ADDRESS"
    using bait_type bait_proof by (simp_all add: doc_bait_def proof_ok_def)
  obtain c c' where cs: "fake_classify_one doc_bait = \<lparr>cd_document_id = ''doc-id'', cd_doc_type = ID_DOCUMENT, classifier_confidence = c\<rparr>"
    "fake_classify_one (doc_poa bait) = \<lparr>cd_document_id = ''doc-poa'', cd_doc_type = PROOF_OF_ADDRESS, classifier_confidence = c'\<rparr>"
    using classify_one [OF t(1)] classify_one [OF t(2)] ids by auto
  show "package_check bait_package cs = None" "unknown_docs cs = []"
    "map (\<lambda>c. (doc_of bait_package (cd_document_id c), cd_doc_type c)) (known_docs cs) = [(doc_bait, ID_DOCUMENT), (doc_poa bait, PROOF_OF_ADDRESS)]"
    "doc_of bait_package ''doc-id'' = doc_bait"
    by (simp_all add: cs_def cs bait_sel package_check_def completeness_None_iff known_docs_def unknown_docs_def doc_of_def
        docs_by_id_def dict_of_get ids)
qed

lemma bait_extractions:
  "ref_extractions offline_answers bait_package (map fake_classify_one (documents bait_package)) = [card_result bait, proof_result bait]"
proof -
  have "ref_extractions offline_answers bait_package (map fake_classify_one (documents bait_package)) =
      map (\<lambda>(d, t). projr (fake_extraction d t)) (map (\<lambda>c. (doc_of bait_package (cd_document_id c), cd_doc_type c))
        (known_docs (map fake_classify_one (documents bait_package))))"
    by (simp add: ref_extractions_def offline_answers_def)
  then show ?thesis using bait_read proof_read [OF bait_proof] by (simp add: bait_documents(3))
qed

lemma bait_names:
  "ref_names bait_package [card_result bait, proof_result bait] = ref_names (package_of bait) [card_result bait, proof_result bait]"
  by (simp add: ref_names_def screening_names_def bait_sel initial_state_def package_sel [OF bait_dates(1)])

lemma bait_verified:
  "\<exists>fs. verify_fields (haystack bait_card) (card_result bait) (er_fields (card_result bait)) =
     Inr (discrepancy (card_result bait) (''extracted full_name='' @ py_repr ''Anna Virtanen'') # fs)"
proof -
  have "value_flags (haystack bait_card) e ''full_name'' (JStr ''Anna Virtanen'') =
      [discrepancy e (''extracted full_name='' @ py_repr ''Anna Virtanen'')]" for e
    using bait_ungrounded by (simp add: value_flags_def)
  moreover have "in_holder bait = ''Anna Virtanen''" by (simp add: bait_def)
  ultimately show ?thesis by (simp add: card_result_def date_fields_def)
qed

lemma bait_grounding:
  "\<exists>f \<in> set (ref_grounding offline_answers bait_package [card_result bait, proof_result bait]).
     rule_id f = EVALUATOR_DISCREPANCY \<and> severity f = CRITICAL"
proof -
  obtain fs where "a_verify offline_answers doc_bait (card_result bait) =
      discrepancy (card_result bait) (''extracted full_name='' @ py_repr ''Anna Virtanen'') # fs"
    using bait_verified by (auto simp: offline_answers_def doc_bait_def)
  then show ?thesis
    by (simp add: ref_grounding_def usable_def bait_documents(4) card_result_def discrepancy_def)
qed

lemma bait_fit: "fit_package bait_package"
proof -
  have "readable (card_result bait)" "readable (proof_result bait)" using individual_documents [OF bait_printed] by blast+
  moreover have "offline_readable doc_bait ID_DOCUMENT"
    using bait_read bait_verified by (auto simp: offline_readable_def doc_bait_def)
  moreover have "offline_readable (doc_poa bait) PROOF_OF_ADDRESS"
    using individual_plain [OF bait_printed] package_sel [OF bait_dates(1)] by (simp add: plain_readable)
  moreover have "\<forall>x \<in> set (map (\<lambda>c. (doc_of bait_package (cd_document_id c), cd_doc_type c)) (known_docs (map fake_classify_one (documents bait_package)))).
      offline_readable (fst x) (snd x)"
    using calculation unfolding bait_documents(3) by simp
  ultimately show ?thesis
    by (simp add: fit_package_def Let_def bait_extractions readable_def)
qed

lemma anna_listed_bait: "fired bait = {}"
  using anna_listed same_text by (simp add: fired_defs bait_def)

lemma bait_scores:
  fixes h :: "('s, 'x) harness"
  assumes "hs_settings h = default_settings"
  shows "scores h en case_hallucination_bait (if en then (ESCALATE, True, 0) else (APPROVE, False, 0))"
proof -
  let ?es = "[card_result bait, proof_result bait]" and ?cs = "map fake_classify_one (documents bait_package)"
  let ?ctx = "offline_context (hs_env h) default_settings reference_date en :: ('s, 'x) world pipeline_context"
  have codes: "set (gc_reason_codes case_hallucination_bait) = {''CRITICAL_MISMATCH''}"
    "gc_fields case_hallucination_bait = []" by (simp_all add: case_hallucination_bait_def golden_of_def)
  have r: "readable (card_result bait)" "readable (proof_result bait)" using individual_documents [OF bait_printed] by blast+
  note names = individual_names [OF bait_dates(1), folded bait_names]
  have hits: "field_hits (hs_shown h) (read_by bait_package) (gc_fields case_hallucination_bait) = replicate 0 True"
    by (simp add: codes field_hits_def)
  show ?thesis
  proof (cases en)
    case True
    obtain f where f: "f \<in> set (ref_grounding offline_answers bait_package ?es)" "rule_id f = EVALUATOR_DISCREPANCY" "severity f = CRITICAL"
      using bait_grounding by blast
    obtain d where "ref_decision (offline_context (hs_env h) default_settings reference_date True :: ('s, 'x) world pipeline_context)
        offline_answers bait_package = Inr d" "outcome d = ESCALATE" "CRITICAL_MISMATCH \<in> set (reason_codes d)"
      using read_ungrounded [OF bait_documents(1) bait_extractions _ names f, where env = "hs_env h" and td = reference_date and 'x = 'x] r by auto
    then have "\<exists>d. ref_decision ?ctx offline_answers bait_package = Inr d
      \<and> outcome d = ESCALATE \<and> (set (gc_reason_codes case_hallucination_bait) \<subseteq> rule_id_value ` set (reason_codes d) \<longleftrightarrow> True)"
      using True codes by force
    from scoresI [OF assms this hits] show ?thesis using True by simp
  next
    case False
    let ?fs = "doc_flags_of bait_package reference_date ?es"
    obtain ts where ts: "ref_decision ?ctx offline_answers bait_package = Inr (decide_gate None ?fs ts False)"
      "rule_id ` set ts = fired_of bait_package ?fs (add_key (in_payer bait) (add_key (in_holder bait) [in_name bait])) [] []"
      using read_decision [OF bait_documents(1,2) bait_extractions, where env = "hs_env h" and td = reference_date and en = False and 'x = 'x, OF _ _ _ names] r False by auto
    have fs: "?fs = doc_flags_of (package_of bait) reference_date ?es" by (simp add: doc_flags_of_def bait_sel)
    have m: "critical_mismatches ?fs = []" using individual_mismatch [OF bait_printed] same_text
      unfolding fs by (simp add: contradicts_def bait_def)
    have "fired_of bait_package ?fs (add_key (in_payer bait) (add_key (in_holder bait) [in_name bait])) [] [] = {}"
      using anna_listed m by (simp add: fired_of_def bait_sel package_sel [OF bait_dates(1)])
        (simp add: bait_def volume_limit_def default_risk_thresholds_def)
    moreover have "\<not> (\<exists>f \<in> set ?fs. rule_id f = DOC_EXPIRED)"
      unfolding fs individual_expired [OF bait_printed] by (simp add: bait_def date_order)
    ultimately have "outcome (decide_gate None ?fs ts False) = APPROVE \<and> reason_codes (decide_gate None ?fs ts False) = [ALL_CHECKS_PASSED]"
      using gate_on(3) [of ts "{}" ?fs] ts(2) by simp
    then have "\<exists>d. ref_decision ?ctx offline_answers bait_package = Inr d
      \<and> outcome d = APPROVE \<and> (set (gc_reason_codes case_hallucination_bait) \<subseteq> rule_id_value ` set (reason_codes d) \<longleftrightarrow> False)"
      using ts(1) codes by simp
    from scoresI [OF assms this hits] show ?thesis using False by simp
  qed
qed

section \<open>The whole set\<close>

definition verdicts :: "bool \<Rightarrow> verdict list" where
  "verdicts en =
     [(APPROVE, True, 9), (APPROVE, True, 9), (APPROVE, True, 5), (APPROVE, True, 5), (APPROVE, True, 5),
      (APPROVE, True, 0), (REJECT, True, 0), (REJECT, True, 0), (ESCALATE, True, 0), (ESCALATE, True, 0),
      (ESCALATE, True, 0), (ESCALATE, True, 0), (ESCALATE, True, 0), if en then (ESCALATE, True, 0) else (APPROVE, False, 0),
      (APPROVE, True, 3), (APPROVE, True, 0), (ESCALATE, True, 0)]"

lemma golden_scores: "hs_settings h = default_settings \<Longrightarrow> list_all2 (scores h en) golden_cases (verdicts en)"
  by (simp only: golden_cases_def verdicts_def list_all2_Cons list_all2_Nil simp_thms anna_scores mikael_scores sofia_scores ville_scores
      laura_scores noora_scores jukka_scores emil_scores elena_scores viktor_scores maarika_scores tomas_scores
      henrik_scores bait_scores meridian_scores aurora_scores nordic_scores)

lemma individual_fit: "well_printed x \<Longrightarrow> gc_package c = package_of x \<Longrightarrow> fit_package (gc_package c)"
  using plain_fit individual_plain by metis

lemma company_fit: "company_printed y \<Longrightarrow> gc_package c = company_package y \<Longrightarrow> fit_package (gc_package c)"
  using plain_fit company_plain by metis

lemma checked_fit: "fit_package (gc_package case_incomplete_package)" "fit_package (gc_package case_corrupted_document)"
  by (rule plain_fit, simp add: plain_simps)+

lemma golden_fit: "\<forall>c \<in> set golden_cases. fit_package (gc_package c)"
  by (simp only: golden_cases_def list.set ball_simps insert_iff empty_iff simp_thms checked_fit bait_fit
      individual_fit [OF anna_printed anna_case] individual_fit [OF mikael_printed mikael_case]
      individual_fit [OF sofia_printed sofia_case] individual_fit [OF ville_printed ville_case]
      individual_fit [OF laura_printed laura_case] individual_fit [OF noora_printed noora_case]
      individual_fit [OF jukka_printed jukka_case] individual_fit [OF elena_printed elena_case]
      individual_fit [OF viktor_printed viktor_case] individual_fit [OF maarika_printed maarika_case]
      individual_fit [OF tomas_printed tomas_case] company_fit [OF meridian_printed meridian_case]
      company_fit [OF aurora_printed aurora_case] company_fit [OF nordic_printed nordic_case])

definition full_summary :: summary where
  "full_summary = \<lparr>sm_cases = 17, field_accuracy = Some 1, auto_rate_typical = Some (fl (7143 / 10000)),
     escalation_recall = Some 1, escalation_precision = Some 1, decision_accuracy = 1, reason_codes_accuracy = 1,
     false_auto_approvals = 0\<rparr>"

definition ablation_summary :: summary where
  "ablation_summary = full_summary\<lparr>escalation_recall := Some (fl (8571 / 10000)), decision_accuracy := fl (9412 / 10000),
     reason_codes_accuracy := fl (9412 / 10000), false_auto_approvals := 1\<rparr>"

lemma shares: "share 10 14 = fl (7143 / 10000)" "share 6 7 = fl (8571 / 10000)" "share 16 17 = fl (9412 / 10000)"
  by code_simp+

lemma golden_summary: "summarize (map2 scored_row golden_cases (verdicts True)) = Inr full_summary"
  "summarize (map2 scored_row golden_cases (verdicts False)) = Inr ablation_summary"
  by (simp_all add: golden_cases_def golden_case_defs golden_of_def verdicts_def scored_row_def summarize_def sum_of_def count_of_def
      share_opt_def full_summary_def ablation_summary_def share_1)
    (simp_all add: shares flip: One_nat_def)

lemma golden_outcomes: "map gc_outcome golden_cases = map (\<lambda>v. outcome_value (fst v)) (verdicts True)"
  by (simp add: golden_cases_def golden_case_defs golden_of_def verdicts_def)

lemma verdict_outcomes:
  "map (\<lambda>v. outcome_value (fst v)) (verdicts False) = (map (\<lambda>v. outcome_value (fst v)) (verdicts True))[13 := ''approve'']"
  by (simp add: verdicts_def numeral_eq_Suc)

lemma scored_outcomes:
  "length cs = length vs \<Longrightarrow> map r_predicted_outcome (map2 scored_row cs vs) = map (\<lambda>v. outcome_value (fst v)) vs"
  by (induction cs vs rule: list_induct2) (auto simp: scored_row_def)

lemma summary_rows:
  assumes "hs_settings h = default_settings" "list_all2 (row_matches h reference_date en) rows golden_cases" "summarize rows = Inr s"
  shows "s = (if en then full_summary else ablation_summary)"
    "map r_predicted_outcome rows = (if en then map gc_outcome golden_cases else (map gc_outcome golden_cases)[13 := ''approve''])"
proof -
  have rows: "map codeless rows = map2 scored_row golden_cases (verdicts en)"
    by (rule scored_rows [OF assms(2) golden_scores [OF assms(1)]])
  have "summarize (map2 scored_row golden_cases (verdicts en)) = Inr s"
    using assms(3) by (simp add: summarize_codeless flip: rows)
  then show "s = (if en then full_summary else ablation_summary)" using golden_summary by (cases en) simp_all
  have "map r_predicted_outcome rows = map r_predicted_outcome (map codeless rows)" by simp
  also have "\<dots> = map (\<lambda>v. outcome_value (fst v)) (verdicts en)"
    using list_all2_lengthD [OF golden_scores [OF assms(1)]] by (simp only: rows scored_outcomes)
  also have "\<dots> = (if en then map gc_outcome golden_cases else (map gc_outcome golden_cases)[13 := ''approve''])"
    unfolding golden_outcomes using verdict_outcomes by (cases en) (simp_all only: if_True if_False)
  finally show "map r_predicted_outcome rows = (if en then map gc_outcome golden_cases else (map gc_outcome golden_cases)[13 := ''approve''])" .
qed

section \<open>Properties\<close>

text \<open>C7: the published results. On the golden set, with the default settings, the evaluation reports
  the numbers of the results file, for every sink and every state of the world: seventeen cases, every
  expected field read, ten of fourteen typical cases decided automatically, every case that must escalate
  escalated and no other, every outcome as expected, and exit code 0; without the evaluator the
  hallucinated card, and only it, is approved, which costs a seventh of the recall.\<close>

theorem published_results:
  fixes h :: "('s, 'x) harness"
  assumes "hs_settings h = default_settings"
  shows "\<exists>rows rows' w'. eval_main h False golden_cases reference_date w =
      (Inr ([(''full_pipeline'',
              \<lparr>sm_cases = 17, field_accuracy = Some 1, auto_rate_typical = Some (fl (7143 / 10000)),
               escalation_recall = Some 1, escalation_precision = Some 1, decision_accuracy = 1,
               reason_codes_accuracy = 1, false_auto_approvals = 0\<rparr>, rows),
             (''no_validator_ablation'',
              \<lparr>sm_cases = 17, field_accuracy = Some 1, auto_rate_typical = Some (fl (7143 / 10000)),
               escalation_recall = Some (fl (8571 / 10000)), escalation_precision = Some 1,
               decision_accuracy = fl (9412 / 10000), reason_codes_accuracy = fl (9412 / 10000),
               false_auto_approvals = 1\<rparr>, rows')], 0), w')
    \<and> map r_predicted_outcome rows = map gc_outcome golden_cases
    \<and> map r_predicted_outcome rows' = (map gc_outcome golden_cases)[13 := ''approve'']"
proof -
  have o: "offline (hs_settings h)" "calm_settings (hs_settings h)" using assms by (simp_all add: offline_default calm_default)
  have ne: "golden_cases \<noteq> []" by (simp add: golden_cases_def)
  obtain s rows s2 rows2 w2 where main: "eval_main h False golden_cases reference_date w =
      (Inr ([(''full_pipeline'', s, rows), (''no_validator_ablation'', s2, rows2)], exit_code (Some s)), w2)"
    "summarize rows = Inr s" "list_all2 (row_matches h reference_date True) rows golden_cases"
    "summarize rows2 = Inr s2" "list_all2 (row_matches h reference_date False) rows2 golden_cases"
    using offline_main [OF o golden_fit ne] by blast
  note f = summary_rows [OF assms main(3,2)] and a = summary_rows [OF assms main(5,4)]
  show ?thesis using main(1) f a by (simp add: full_summary_def ablation_summary_def exit_code_def)
qed

lemma published_results_witness:
  "\<exists>s rows rest w'. eval_main \<lparr>hs_dump = \<lambda>e. [], hs_init = \<lambda>name provider temp url key. Inl zero_division,
       hs_env = \<lparr>env_sink = \<lambda>e s. (Inr (), s), env_times = \<lambda>i. 0, env_sanctions_draws = \<lambda>i. 0, env_pep_draws = \<lambda>i. 0\<rparr>, hs_sink = (),
       hs_settings = default_settings, hs_shown = \<lambda>v. []\<rparr> False golden_cases
     reference_date (undefined :: (unit, unit) world) = (Inr ((''full_pipeline'', s, rows) # rest, 0), w')
   \<and> escalation_recall s = Some 1"
proof -
  let ?h = "\<lparr>hs_dump = \<lambda>e. [], hs_init = \<lambda>name provider temp url key. Inl zero_division,
       hs_env = \<lparr>env_sink = \<lambda>e s. (Inr (), s), env_times = \<lambda>i. 0, env_sanctions_draws = \<lambda>i. 0, env_pep_draws = \<lambda>i. 0\<rparr>, hs_sink = (),
       hs_settings = default_settings, hs_shown = \<lambda>v. []\<rparr> :: (unit, unit) harness"
  have "hs_settings ?h = default_settings" by simp
  from published_results [OF this, where w = undefined] show ?thesis by fastforce
qed

end
