(* ===== verification/Screening.thy ===== *)
theory Screening
  imports Factory Guarantees
begin

text \<open>
  What an answer of a registry of a built context says: a listed name is never answered without
  a hit, and a registry that fails on every call never answers.
\<close>

lemma context_search:
  assumes "build_context dump init env s td en = Inr ctx"
  shows "sanctions ctx = sanctions_service (registry_failure_rate s) (env_sanctions_draws env)"
    "pep ctx = pep_service (registry_failure_rate s) (env_pep_draws env)"
  using assms by (auto elim!: build_contextD)

lemma zoom_answer: "zoom part back m w = (Inr x, w') \<Longrightarrow> \<exists>v'. m (part w) = (Inr x, v')"
  by (auto simp: zoom_def split: prod.splits)

lemma sanctions_answer:
  assumes "answered (sanctions_service rate draws :: ('s, 'x) world registry_service) (JStr n) found"
  shows "\<exists>p p'. search (build_sanctions_client rate draws) n p = (Inr found, p')"
proof -
  obtain w w' :: "('s, 'x) world" where "rs_search (sanctions_service rate draws) (JStr n) w = (Inr found, w')"
    using assms unfolding answered_def by blast
  then show ?thesis
    using zoom_answer by (fastforce simp: sanctions_service_def search_json_def)
qed

lemma built_listed:
  assumes "build_context dump init env s td en = Inr (ctx :: ('s, 'x) world pipeline_context)"
    and "e \<in> set sanctions_entries" "registry_normalize n = registry_normalize (entry_full_name e)"
  shows "\<not> answered (sanctions ctx) (JStr n) []"
proof
  let ?c = "build_sanctions_client (registry_failure_rate s) (env_sanctions_draws env)"
  assume "answered (sanctions ctx) (JStr n) []"
  then obtain p p' where r: "search ?c n p = (Inr [], p')"
    unfolding context_search [OF assms(1)] using sanctions_answer by blast
  have "e \<in> set (rc_entries ?c)" using assms(2) by (simp add: build_sanctions_client_def)
  from search_exact [OF r this threshold_le_1(1) assms(3)] show False by simp
qed

lemma built_down:
  assumes "build_context dump init env s td en = Inr (ctx :: ('s, 'x) world pipeline_context)"
    and "1 \<le> registry_failure_rate s" "\<forall>i. env_sanctions_draws env i < 1"
  shows "\<not> answered (sanctions ctx) (JStr n) found"
proof
  let ?c = "build_sanctions_client (registry_failure_rate s) (env_sanctions_draws env)"
  assume "answered (sanctions ctx) (JStr n) found"
  then obtain p p' where r: "search ?c n p = (Inr found, p')"
    unfolding context_search [OF assms(1)] using sanctions_answer by blast
  have "1 \<le> rc_failure_rate ?c" "\<And>i. rc_draws ?c i < 1"
    using assms(2,3) by (simp_all add: build_sanctions_client_def)
  from search_never [OF this, of n p] show False using r by simp
qed

end
