(* ===== verification/Spec2Isabelle.thy ===== *)
theory Spec2Isabelle
  imports App Acceptance Sample Screening
begin

text \<open>
  A verification library for the KYC document pipeline in \<open>src/src/kyc_agent\<close> and its evaluation
  harness in \<open>src/eval\<close>.

  \<^bold>\<open>The program.\<close> A package of documents is submitted to the HTTP API (\<open>api/main.py\<close>). The case
  service (\<open>api/service.py\<close>) runs a graph on it in the background (\<open>graph/builder.py\<close>): intake, router
  (classify the documents), orchestrator (completeness, then one worker per document), extraction,
  validator (rules and grounding), risk scorer (registries and triggers), decision gate, and then
  either the automatic decision or an interrupt for a human review, and finalize. Model calls go
  through a bounded retry with one fallback (\<open>llm/resilience.py\<close>) to offline (\<open>llm/fake.py\<close>) or live
  services (\<open>llm/live.py\<close>), chosen by a factory from the settings. Every node writes audit events.

  \<^bold>\<open>Which theory models what.\<close>
  \<^item> \<open>Prelude\<close>: actions (a step on a world that returns or raises), their rules, dictionaries, sorted
    sets. \<open>PyString\<close>, \<open>PyFloat\<close>, \<open>PyDate\<close>, \<open>PyRegex\<close>, \<open>Difflib\<close>: what the sources use of the
    standard library - case folding, splitting and formatting, IEEE doubles with \<open>round\<close>, ISO dates,
    the regular expressions as backtracking matchers, and \<open>SequenceMatcher.ratio\<close>.
  \<^item> \<open>Schemas\<close> (\<open>schemas/\<close>, \<open>rules/ids.py\<close>), \<open>Validation\<close> and \<open>Risk\<close> (\<open>rules/\<close>), \<open>Resilience\<close>,
    \<open>AuditSink\<close> (\<open>audit/sink.py\<close>, \<open>persistence/db.py\<close>), \<open>Registries\<close> (\<open>tools/registries.py\<close>).
  \<^item> \<open>Services\<close> (\<open>llm/base.py\<close>, \<open>config.py\<close>, the context), \<open>State\<close>, \<open>Nodes\<close> and \<open>Graph\<close>
    (\<open>graph/state.py\<close>, \<open>nodes.py\<close>, \<open>builder.py\<close>): the channels with their reducers, one definition
    per node with all its calls, and the supersteps, both as a relation (any order of the tasks of a
    superstep) and as an executable run.
  \<^item> \<open>FakeLLM\<close>, \<open>LiveLLM\<close>, \<open>Factory\<close>: the services and how a context is built from the settings.
  \<^item> \<open>Service\<close>, \<open>Api\<close> and \<open>App\<close>: the stored checkpoints, the background runs as interleaved steps of
    the process, reviews, restarts, the routes, the event stream, and the start of the process on
    either backend with its migrations. A restart in \<open>Service\<close> keeps the stored cases, as the
    postgres backend does; the memory backend starts empty.
  \<^item> \<open>Eval\<close> and \<open>Golden\<close>: the harness with its metrics and exit code, and the golden cases.
  \<^item> \<open>Reference\<close>: the abstract specification, a pure function from the package to the decision.
    \<open>Individuals\<close> and \<open>Companies\<close>: a second, closed specification, of the packages whose documents
    are printed with the templates of the golden set: which codes fire, as a set, and so the outcome.

  \<^bold>\<open>What the lemmas show.\<close> \<open>NodeFacts\<close> gives each node's possible commands; \<open>Pipeline\<close> the
  invariant \<open>stage\<close> of the graph, its preservation by every superstep and the measure \<open>rank\<close>;
  \<open>Contracts\<close> what follows when the services keep the contracts of their protocols (the locales
  \<open>router_service\<close>, \<open>extractor_service\<close>, \<open>evaluator_service\<close>, interpreted on both tiers);
  \<open>Typed\<close> and \<open>NoCrash\<close> that typed extractions never crash a run (\<open>typed_extractor\<close>,
  \<open>sound_context\<close>); \<open>Guarantees\<close> and \<open>Screening\<close> what a system approval implies;
  \<open>Confidence\<close> the bounds of the confidence formula; \<open>FakeFacts\<close> and \<open>Documents\<close> the extractor and
  evaluator on printed documents, \<open>Templates\<close> the round trips of all five templates; \<open>Reference\<close> and \<open>Offline\<close> the refinement of the reference by the
  run, with the locale \<open>answering\<close>; \<open>Packages\<close> the decision on a package that is read with
  confidence, and which names are listed; \<open>Cases\<close>, \<open>Scores\<close> and \<open>Acceptance\<close> apply all this to each
  golden case and derive the published metrics of both runs of the evaluation; \<open>Sample\<close> concrete
  contexts and cases for the examples. The
  audit sinks are instances of \<open>audit_sink\<close> and \<open>honest_sink\<close>.

  The properties of one component stand at the end of its theory, those that span components here.

  \<^bold>\<open>Bounds.\<close> A run takes the recursion limit of the settings as its fuel, in ticks of the executor's
  loop. The rank of the start is nine and falls with every superstep, so there are nine supersteps at
  most; the loop compares its counter with the limit before it sees that no task is left, so a run
  to the end needs ten ticks. A resumed run has two ticks more than the limit. The default limit is 25. The
  recursive functions of the model are structural or have a proved measure; no other fuel is used.

  \<^bold>\<open>Parameters.\<close> Code that is not in the repository is an argument: the chat models
  (\<open>init_chat_model\<close>) with the documented contract \<open>schema_honest\<close> - a structured answer is an
  instance of the schema asked for -, the random draws of the registries, the clock, the storage of
  the audit sink, the availability of the database, the JSON dump of an extraction in a prompt. The
  graph library and its checkpointer are modelled on their documented supersteps: a checkpoint
  before and after each, an interrupt that stores its payload, a resume that reruns the node.

  \<^bold>\<open>Not modelled.\<close> Log lines and the logging setup (\<open>observability/\<close>); the package exports in the
  \<open>__init__\<close> files; reading settings from the environment and the cache of \<open>get_settings\<close>; the
  connection pool and the tables of the checkpointer; reading and writing of JSON files and printing in \<open>src/eval\<close>; \<open>ExtractionResult.typed_fields\<close>, which nothing calls; characters beyond
  Latin-1 (the long dash of the printed certificates is a hyphen here, the bullet of the owner pattern
  is left out); two reviews of one case inside the same superstep, since a review is one step here;
  the resume values the checkpointer keeps of a review whose superstep raised; polls of the event
  stream whose reads raise.
\<close>

section \<open>Decisions of the service\<close>

text \<open>C1: an automatic approval is safe. In whatever way background runs, reviews, crashes and
  restarts interleave, and whatever the services and registries answer, a stored case that the
  system approved is clean: nothing degraded, all required documents present and read, no
  expired document, no critical mismatch, confidence at the threshold, no trigger and no hit,
  and a volume within its limit.\<close>

theorem system_approval_clean:
  assumes "served ctx sv" "sv_cases sv cid = Some cp"
    and "decision (cp_state cp) = Some d" "outcome d = APPROVE" "decided_by d = SYSTEM"
  shows "clean ctx (cp_state cp)"
  by (rule approve_clean [OF served_approved [OF assms]])

lemma system_approval_clean_witness:
  "\<exists>sv cp. served (sample_context [] :: unit pipeline_context) sv \<and> sv_cases sv ''case'' = Some cp
     \<and> clean (sample_context [] :: unit pipeline_context) (cp_state cp)"
proof -
  obtain sv cp d where s: "served (sample_context [] :: unit pipeline_context) sv" "sv_cases sv ''case'' = Some cp"
    "decision (cp_state cp) = Some d" "decided_by d = SYSTEM" "outcome d = APPROVE"
    using sample_served [of "[]" "''case''", where 'w = unit] by auto
  show ?thesis using system_approval_clean [OF s(1-3,5,4)] s(1,2) by blast
qed

text \<open>C2: a case the system approved was screened. Each registry gave an answer without a hit for
  every name the case must be screened for, and the applicant is one of these names.\<close>

theorem system_approval_screened:
  assumes "served ctx sv" "sv_cases sv cid = Some cp"
    and "decision (cp_state cp) = Some d" "outcome d = APPROVE" "decided_by d = SYSTEM"
  shows "\<exists>persons companies owners. screening_names (cp_state cp) = Inr (persons, companies, owners)
    \<and> full_name (applicant (package (cp_state cp))) \<in> set persons
    \<and> (\<forall>n \<in> JStr ` (set persons \<union> set companies) \<union> set owners. answered (sanctions ctx) n [])
    \<and> (\<forall>n \<in> JStr ` set persons \<union> set owners. answered (pep ctx) n [])"
proof -
  obtain persons companies owners where s: "screening_names (cp_state cp) = Inr (persons, companies, owners)"
    "\<forall>n \<in> JStr ` (set persons \<union> set companies) \<union> set owners. answered (sanctions ctx) n []"
    "\<forall>n \<in> JStr ` set persons \<union> set owners. answered (pep ctx) n []"
    using approve_screened [OF served_approved [OF assms]] by (elim exE conjE)
  then show ?thesis using screening_applicant [OF s(1)] by (intro exI conjI)
qed

lemma system_approval_screened_witness:
  "\<exists>sv cp. served (sample_context [] :: unit pipeline_context) sv \<and> sv_cases sv ''case'' = Some cp
     \<and> answered (sanctions (sample_context [] :: unit pipeline_context))
         (JStr (full_name (applicant (package (cp_state cp))))) []"
proof -
  obtain sv cp d where s: "served (sample_context [] :: unit pipeline_context) sv" "sv_cases sv ''case'' = Some cp"
    "decision (cp_state cp) = Some d" "decided_by d = SYSTEM" "outcome d = APPROVE"
    using sample_served [of "[]" "''case''", where 'w = unit] by auto
  show ?thesis using system_approval_screened [OF s(1-3,5,4)] s(1,2) by blast
qed

text \<open>C3: a listed applicant is never approved by the system. When the name of the applicant is,
  up to case and spacing, an entry of the sanctions registry, no reachable state of the service
  holds an automatic approval of the case; this for every context a process can build.\<close>

theorem listed_applicant_not_approved:
  assumes "build_context dump init env s td en = Inr ctx" "served ctx sv" "sv_cases sv cid = Some cp"
    and "e \<in> set sanctions_entries"
    and "registry_normalize (full_name (applicant (package (cp_state cp)))) = registry_normalize (entry_full_name e)"
    and "decision (cp_state cp) = Some d"
  shows "\<not> (outcome d = APPROVE \<and> decided_by d = SYSTEM)"
proof
  assume "outcome d = APPROVE \<and> decided_by d = SYSTEM"
  then have "answered (sanctions ctx) (JStr (full_name (applicant (package (cp_state cp))))) []"
    using approve_screened [OF served_approved [OF assms(2,3,6)]] screening_applicant by blast
  then show False using built_listed [OF assms(1,4,5)] by blast
qed

lemma listed_applicant_not_approved_witness:
  "\<exists>sv cp d. served (offline_context sample_env default_settings (Date 2026 7 13) True :: (unit, unit) world pipeline_context) sv
     \<and> sv_cases sv ''case'' = Some cp \<and> decision (cp_state cp) = Some d
     \<and> \<not> (outcome d = APPROVE \<and> decided_by d = SYSTEM)"
proof -
  let ?ctx = "offline_context sample_env default_settings (Date 2026 7 13) True :: (unit, unit) world pipeline_context"
  let ?p = "listed_package"
  obtain sv cp d where s: "served ?ctx sv" "sv_cases sv ''case'' = Some cp" "package (cp_state cp) = ?p"
    "decision (cp_state cp) = Some d"
    using sound_served [OF calm.sound_context_axioms, of ?p sample_env default_settings _ _ "''case''"]
    by (force simp: listed_plain limit_of_def offline_context_def default_settings_def)
  have e: "\<lparr>entry_full_name = ''Viktor Salo'', entry_id = ''EU-2024-0113''\<rparr> \<in> set sanctions_entries"
    by (simp add: sanctions_entries_def)
  have n: "registry_normalize (full_name (applicant (package (cp_state cp)))) =
      registry_normalize (entry_full_name \<lparr>entry_full_name = ''Viktor Salo'', entry_id = ''EU-2024-0113''\<rparr>)"
    by (simp add: s(3) listed_package_def)
  have b: "build_context (\<lambda>e. []) no_models sample_env default_settings (Date 2026 7 13) True = Inr ?ctx"
    by (rule build_offline [OF offline_default])
  show ?thesis using listed_applicant_not_approved [OF b s(1,2) e n s(4)] s(1,2,4) by blast
qed

text \<open>C4: no answer is not a clean answer. When the registries of a context fail on every call,
  whatever the generator draws, no case is ever approved by the system.\<close>

theorem registry_down_not_approved:
  assumes "build_context dump init env s td en = Inr ctx" "1 \<le> registry_failure_rate s"
    and "\<forall>i. env_sanctions_draws env i < 1"
    and "served ctx sv" "sv_cases sv cid = Some cp" "decision (cp_state cp) = Some d"
  shows "\<not> (outcome d = APPROVE \<and> decided_by d = SYSTEM)"
proof
  assume "outcome d = APPROVE \<and> decided_by d = SYSTEM"
  then have "answered (sanctions ctx) (JStr (full_name (applicant (package (cp_state cp))))) []"
    using approve_screened [OF served_approved [OF assms(4-6)]] screening_applicant by blast
  then show False using built_down [OF assms(1-3)] by blast
qed

lemma registry_down_not_approved_witness:
  "\<exists>sv cp d. served (offline_context sample_env failing_settings (Date 2026 7 13) True :: (unit, unit) world pipeline_context) sv
     \<and> sv_cases sv ''case'' = Some cp \<and> decision (cp_state cp) = Some d
     \<and> \<not> (outcome d = APPROVE \<and> decided_by d = SYSTEM)"
proof -
  let ?ctx = "offline_context sample_env failing_settings (Date 2026 7 13) True :: (unit, unit) world pipeline_context"
  obtain sv cp d where s: "served ?ctx sv" "sv_cases sv ''case'' = Some cp" "decision (cp_state cp) = Some d"
    using sound_served [OF calm.sound_context_axioms, of listed_package sample_env failing_settings _ _ "''case''"]
    by (force simp: listed_plain limit_of_def offline_context_def failing_settings_def default_settings_def)
  have f: "1 \<le> registry_failure_rate failing_settings" by (simp add: failing_settings_def)
  have dr: "\<forall>i. env_sanctions_draws sample_env i < 1" by (simp add: sample_env_def)
  have b: "build_context (\<lambda>e. []) no_models sample_env failing_settings (Date 2026 7 13) True = Inr ?ctx"
    by (rule build_offline) (simp add: failing_settings_def offline_def default_settings_def is_fake_def provider_of_def)
  show ?thesis using registry_down_not_approved [OF b f dr s(1-3)] s by blast
qed

text \<open>C5: an escalated case ends only through a human. A finished case whose matrix said escalate
  carries a decision of a named reviewer that is no escalation, with the reason codes the matrix gave.\<close>

theorem escalated_ends_by_human:
  assumes "served ctx sv" "sv_cases sv cid = Some cp" "cp_tasks cp = []"
    and "outcome (gate_decision (cp_state cp)) = ESCALATE"
  shows "\<exists>d. decision (cp_state cp) = Some d \<and> decided_by d = HUMAN \<and> reviewer d \<noteq> None
    \<and> outcome d \<noteq> ESCALATE \<and> reason_codes d = reason_codes (gate_decision (cp_state cp))"
proof -
  have "stage ctx (cp_state cp) []" using served_case [OF assms(1,2)] assms(3) by (simp add: stored_def)
  then show ?thesis by (rule stage_by_human) (rule assms(4))
qed

lemma escalated_ends_by_human_witness:
  "\<exists>sv cp d. served (sample_context [sample_hit] :: unit pipeline_context) sv \<and> sv_cases sv ''case'' = Some cp
     \<and> cp_tasks cp = [] \<and> decision (cp_state cp) = Some d \<and> decided_by d = HUMAN"
proof -
  obtain sv cp where s: "served (sample_context [sample_hit] :: unit pipeline_context) sv" "sv_cases sv ''case'' = Some cp"
    "cp_tasks cp = []" "outcome (gate_decision (cp_state cp)) = ESCALATE"
    using sample_reviewed by blast
  show ?thesis using escalated_ends_by_human [OF s] s(1-3) by blast
qed

section \<open>Runs of the graph\<close>

text \<open>C6: refinement. With offline services and quiet registries, every case of plain documents ends
  with the decision of the reference, a pure function of the package: the run finishes with it when
  it is an approval or a rejection and waits for the reviewer when it is an escalation, whatever
  the world, the clock and the audit sink do.\<close>

theorem offline_run_refines_reference:
  assumes "calm_settings s" and "\<forall>d \<in> set (documents p). plain_document d"
  shows "\<exists>d. ref_decision (offline_context env s td en :: ('s, 'x) world pipeline_context) offline_answers p = Inr d
    \<and> (\<forall>cid st w. \<exists>out w'. invoke (offline_context env s td en :: ('s, 'x) world pipeline_context)
         (initial_state cid p st) w = (out, w') \<and> ends_with d out)"
  by (rule offline_decides [OF assms])

lemma offline_run_refines_reference_witness:
  "\<exists>d out w'. ref_decision (offline_context sample_env default_settings (Date 2026 7 13) True ::
        (unit, unit) world pipeline_context) offline_answers sample_package = Inr d
    \<and> invoke (offline_context sample_env default_settings (Date 2026 7 13) True)
        (initial_state ''case'' sample_package None)
        \<lparr>w_store = (), w_ticks = 0, w_sanctions = 0, w_pep = 0, w_remote = ()\<rparr> = (out, w')
    \<and> ends_with d out"
proof -
  have "plain_document \<lparr>document_id = i, file_name = ''f'', text_content = ''t''\<rparr>" for i
    by (rule plain_checked) (simp, code_simp)
  then have "\<forall>d \<in> set (documents sample_package). plain_document d"
    by (simp add: sample_package_def sample_document_def)
  from offline_run_refines_reference [OF calm_default this, where env = sample_env and td = "Date 2026 7 13" and en = True]
  show ?thesis by blast
qed

text \<open>C10: termination. A run of the graph from a new case takes at most nine supersteps, and one tick
  more to see that no task is left, so a recursion limit of ten or more is never hit; a resume of a
  case that waits for its reviewer takes two, which every positive limit allows.\<close>

theorem graph_run_terminates:
  assumes "1 \<le> limit_of ctx" "s \<in> {None, Some RECEIVED}"
  shows "(10 \<le> limit_of ctx \<longrightarrow> fst (invoke ctx (initial_state cid p s) w) \<noteq> Out_of_steps st)
    \<and> (stage ctx st' [TNode Human_review] \<longrightarrow> fst (resume_with ctx rv st' w) \<noteq> Out_of_steps st)"
proof (intro conjI impI)
  assume "10 \<le> limit_of ctx"
  then have "rank start_tasks < limit_of ctx" by (simp add: start_tasks_def)
  with stage_initial [OF assms(2)] have st: "stage ctx (initial_state cid p s) start_tasks"
    "rank start_tasks < limit_of ctx" by blast+
  from run_in_steps [OF st] show "fst (invoke ctx (initial_state cid p s) w) \<noteq> Out_of_steps st"
    unfolding invoke_def by (metis prod.collapse)
next
  assume st': "stage ctx st' [TNode Human_review]"
  have "rank [TNode Human_review] < limit_of ctx + 2" using assms(1) by simp
  from run_in_steps [OF st' this] show "fst (resume_with ctx rv st' w) \<noteq> Out_of_steps st"
    unfolding resume_with_def by (metis prod.collapse)
qed

lemma graph_run_terminates_witness:
  "\<forall>st. fst (invoke (sample_context [] :: unit pipeline_context) (initial_state ''case'' sample_package None) ()) \<noteq> Out_of_steps st"
proof -
  have l: "1 \<le> limit_of (sample_context [] :: unit pipeline_context)" "10 \<le> limit_of (sample_context [] :: unit pipeline_context)"
    by (simp_all add: sample_limit)
  show ?thesis using graph_run_terminates [OF l(1)] l(2) by blast
qed

text \<open>C11: no case crashes. In every context a process can build from its settings, with chat models
  that answer an instance of the schema asked for or raise, a case whose documents hold no injected
  marker ends finished or waiting for its reviewer: no exception and no failed case, when the
  recursion limit is ten at least (the default is 25).\<close>

theorem built_case_ends:
  assumes "build_context dump init env s td en = Inr ctx" "honest_models init"
    and "\<forall>d \<in> set (documents p). no_glitch (text_content d)" "10 \<le> graph_recursion_limit s"
    and "st \<in> {None, Some RECEIVED}"
  shows "(\<exists>s'. fst (invoke ctx (initial_state cid p st) w) = Finished s')
    \<or> (\<exists>s' q. fst (invoke ctx (initial_state cid p st) w) = Interrupted s' q)"
proof -
  note sc = built_sound [OF assms(1,2)]
  have lim: "rank start_tasks < limit_of ctx"
    using assms(1,4) by (auto elim!: build_contextD simp: limit_of_def start_tasks_def)
  have "set (documents p) \<subseteq> plain_documents" using assms(3) by (auto simp: plain_documents_def)
  from sound_context.sound_initial [OF sc this assms(5)]
  have init: "sound_context.sound_case ctx plain_documents (initial_state cid p st) start_tasks" .
  show ?thesis
    using sound_context.sound_run [OF sc init _ lim] unfolding invoke_def by (metis prod.collapse)
qed

lemma built_case_ends_witness:
  "(\<exists>s'. fst (invoke (offline_context sample_env default_settings (Date 2026 7 13) True ::
        (unit, unit) world pipeline_context) (initial_state ''case'' sample_package None) undefined) = Finished s')
    \<or> (\<exists>s' q. fst (invoke (offline_context sample_env default_settings (Date 2026 7 13) True ::
        (unit, unit) world pipeline_context) (initial_state ''case'' sample_package None) undefined) = Interrupted s' q)"
proof -
  let ?ctx = "offline_context sample_env default_settings (Date 2026 7 13) True :: (unit, unit) world pipeline_context"
  have b: "build_context (\<lambda>e. []) no_models sample_env default_settings (Date 2026 7 13) True = Inr ?ctx"
    by (rule build_offline [OF offline_default])
  have d: "\<forall>d \<in> set (documents sample_package). no_glitch (text_content d)"
    using sample_plain by (auto simp: plain_documents_def)
  show ?thesis
    by (rule built_case_ends [OF b honest_no_models d]) (simp_all add: default_settings_def)
qed

section \<open>The service\<close>

text \<open>C12: the invariant of the stored cases. Every checkpoint a service ever holds is a stage of the
  graph, belongs to its case, has an interrupt only when the review is pending and then exactly the
  review request of its state, and its supersteps made and to be made are nine at most.\<close>

theorem stored_case_invariant:
  assumes "served ctx sv" "sv_cases sv cid = Some cp"
  shows "stage ctx (cp_state cp) (cp_tasks cp) \<and> case_id (cp_state cp) = cid
    \<and> (cp_interrupts cp \<noteq> [] \<longrightarrow> cp_tasks cp = [TNode Human_review]
         \<and> cp_interrupts cp = [review_payload_of (cp_state cp) None])
    \<and> cp_steps cp + rank (cp_tasks cp) \<le> 9"
  using served_case [OF assms] by (simp add: stored_def)

lemma stored_case_invariant_witness:
  "\<exists>sv cp. served (sample_context [sample_hit] :: unit pipeline_context) sv \<and> sv_cases sv ''case'' = Some cp
     \<and> cp_interrupts cp = [review_payload_of (cp_state cp) None]"
proof -
  obtain sv cp where s: "served (sample_context [sample_hit] :: unit pipeline_context) sv"
    "sv_cases sv ''case'' = Some cp" "cp_interrupts cp \<noteq> []"
    using sample_served [of "[sample_hit]" "''case''", where 'w = unit] by auto
  show ?thesis using stored_case_invariant [OF s(1,2)] s by blast
qed

text \<open>C13: what the status says. The answer is about the case asked for, is never FAILED, shows a
  review request only while the case awaits its reviewer, and COMPLETED comes with a decision that
  is no escalation.\<close>

theorem status_is_truthful:
  assumes "served ctx sv" "case_status sv cid = Inr r"
  shows "cr_case_id r = cid \<and> cr_status r \<noteq> FAILED
    \<and> (cr_review_request r \<noteq> None \<longrightarrow> cr_status r = AWAITING_HUMAN_REVIEW)
    \<and> (cr_status r = COMPLETED \<longrightarrow> (\<exists>d. cr_decision r = Some d \<and> outcome d \<noteq> ESCALATE))"
  by (rule status_response [OF assms])

lemma status_is_truthful_witness:
  "\<exists>sv r. served (sample_context [] :: unit pipeline_context) sv \<and> case_status sv ''case'' = Inr r
     \<and> cr_case_id r = ''case'' \<and> cr_status r \<noteq> FAILED"
proof -
  obtain sv cp where s: "served (sample_context [] :: unit pipeline_context) sv" "sv_cases sv ''case'' = Some cp"
    using sample_served [of "[]" "''case''", where 'w = unit] by blast
  have r: "case_status sv ''case'' = Inr (snapshot_response ''case'' cp)" using s(2) by (simp add: case_status_def)
  show ?thesis using status_is_truthful [OF s(1) r] s(1) r by blast
qed

text \<open>C14: a review ends its case. On a case that awaits review every valid decision of a human is
  answered with the completed case, decided by that human under the reason codes of the request, and
  the stored case has no pending task.\<close>

theorem review_ends_case:
  assumes "served ctx sv" "safe_audit ctx" "1 \<le> limit_of ctx"
    and "sv_cases sv cid = Some cp" "cp_interrupts cp \<noteq> []"
  shows "\<exists>r sv' cp' d. review ctx cid h sv = (Inr r, sv')
    \<and> cr_status r = COMPLETED \<and> cr_review_request r = None \<and> cr_decision r = Some d
    \<and> decided_by d = HUMAN \<and> outcome d = decision_outcome_of (h_outcome h)
    \<and> reviewer d = Some (h_reviewer h) \<and> reason_codes d = rp_reason_codes (hd (cp_interrupts cp))
    \<and> sv_cases sv' = (sv_cases sv)(cid \<mapsto> cp') \<and> cp_tasks cp' = []"
  using review_completes [OF assms(1,2) _ assms(4,5), of h] assms(3) unfolding reviewed_def by fastforce

lemma review_ends_case_witness:
  "\<exists>sv r sv'. served (sample_context [sample_hit] :: unit pipeline_context) sv
     \<and> review (sample_context [sample_hit]) ''case'' sample_review sv = (Inr r, sv') \<and> cr_status r = COMPLETED"
proof -
  obtain sv cp where s: "served (sample_context [sample_hit] :: unit pipeline_context) sv"
    "sv_cases sv ''case'' = Some cp" "cp_interrupts cp \<noteq> []"
    using sample_served [of "[sample_hit]" "''case''", where 'w = unit] by auto
  have "1 \<le> limit_of (sample_context [sample_hit] :: unit pipeline_context)" by (simp add: sample_limit)
  from review_ends_case [OF s(1) sample_safe this s(2,3), of sample_review] show ?thesis using s(1) by blast
qed

text \<open>C34: a malformed review changes nothing. Resumed with values that are no valid decision, the
  review node asks again, with the number of validation errors of the last value, and neither the
  state nor the world - the audit trail in it - is touched.\<close>

theorem malformed_review_asks_again:
  assumes "vs \<noteq> []" "\<forall>v \<in> set vs. \<exists>n. validate_human_decision v = Inl n"
    and "validate_human_decision (last vs) = Inl n"
  shows "resume_with ctx vs st w = (Interrupted st (review_payload_of st (Some (resume_error_text n))), w)"
  by (rule resume_malformed [OF assms])

lemma malformed_review_asks_again_witness:
  "resume_with (sample_context [] :: unit pipeline_context) [JNull] (initial_state ''case'' sample_package None) () =
     (Interrupted (initial_state ''case'' sample_package None)
        (review_payload_of (initial_state ''case'' sample_package None) (Some (resume_error_text 1))), ())"
  by (rule malformed_review_asks_again) (simp_all add: validate_human_decision_def sample_limit)

text \<open>C39: a restart abandons the running cases. A case whose background run was going on when the
  process restarted keeps its stored answer for ever, and every review of it is refused: nothing
  resumes it.\<close>

theorem restart_abandons_case:
  assumes "sv_cases sv cid = Some cp" "cp_interrupts cp = []"
    and "(service_step ctx)\<^sup>*\<^sup>* (restart sv) sv'"
  shows "case_status sv' cid = case_status sv cid
    \<and> review ctx cid h sv' = (Inl (CaseNotAwaitingReviewError cid), sv')"
proof -
  have "at_rest (restart sv) cid cp" using assms(1,2) by (simp add: at_rest_def restart_def)
  then have "at_rest sv' cid cp" by (rule at_rest_stays [OF _ assms(3)])
  then show ?thesis using assms(1) by (simp add: at_rest_def case_status_def review_def)
qed

lemma restart_abandons_case_witness:
  "\<exists>sv. served (sample_context [] :: unit pipeline_context) sv \<and> sv_tasks sv ''case'' = Some None
     \<and> case_status (restart sv) ''case'' = case_status sv ''case''
     \<and> review (sample_context []) ''case'' sample_review (restart sv) =
         (Inl (CaseNotAwaitingReviewError ''case''), restart sv)"
proof -
  obtain sv cp where s: "served (sample_context [] :: unit pipeline_context) sv" "sv_tasks sv ''case'' = Some None"
    "sv_cases sv ''case'' = Some cp" "cp_interrupts cp = []"
    using started [of "sample_context []" "''case''" sample_package "()"] by blast
  show ?thesis using restart_abandons_case [OF s(3,4) rtranclp.rtrancl_refl] s(1,2) by blast
qed





text \<open>C37: a crash is silent. When a node of a running case raises, the background run drops the
  exception: the case stops running, its answer stays what it was - never \<open>FAILED\<close>, never
  completed - for ever, and every review of it is refused.\<close>

theorem crash_abandons_case:
  assumes "served ctx sv" "sv_tasks sv cid = Some None" "sv_cases sv cid = Some cp" "cp_interrupts cp = []"
    and "mset order = mset (cp_tasks cp)"
    and "run_tasks ctx [] (cp_state cp) order (sv_world sv) = (Inl x, w')"
  shows "\<exists>sv1. service_step ctx sv sv1 \<and> (\<forall>sv'. (service_step ctx)\<^sup>*\<^sup>* sv1 sv' \<longrightarrow>
      case_status sv' cid = case_status sv cid
      \<and> review ctx cid h sv' = (Inl (CaseNotAwaitingReviewError cid), sv'))
    \<and> status (cp_state cp) \<notin> {Some FAILED, Some COMPLETED}"
proof -
  let ?sv = "task_done cid (sv\<lparr>sv_world := w'\<rparr>)"
  have step: "service_step ctx sv ?sv" by (rule step_crash [OF assms(2,3,5,6)])
  have "at_rest ?sv cid cp" using assms(3,4) by (simp add: at_rest_def task_done_def)
  then have rest: "at_rest sv' cid cp" if "(service_step ctx)\<^sup>*\<^sup>* ?sv sv'" for sv' using that by (rule at_rest_stays)
  have "cp_tasks cp \<noteq> []" using assms(5,6) by (auto simp: ret_def)
  then have "status (cp_state cp) \<notin> {Some FAILED, Some COMPLETED}"
    using stored_status [OF served_case [OF assms(1,3)]] by auto
  then show ?thesis using step rest assms(3,4) by (auto simp: at_rest_def case_status_def review_def)
qed

text \<open>C38: a malformed date crashes the run. An identity document whose extracted expiry date is a
  non-empty string that is no ISO date makes the validator raise, outside its retries, and so ends
  the run of the graph.\<close>

theorem malformed_expiry_raises:
  assumes "e \<in> set (extractions st)" "extraction_error e = None" "er_doc_type e = ID_DOCUMENT"
    and "dict_get (er_fields e) ''expiry_date'' = Some (JStr d)" "d \<noteq> []" "fromisoformat d = None"
    and "0 < n"
  shows "\<exists>x. validator ctx st w = (Inl x, w) \<and> run ctx rv n st [TNode Validator] w = (Crashed st x, w)"
proof -
  have "parse_expiry (dict_get (er_fields e) ''expiry_date'') = Inl (Exn ''ValueError'' (''Invalid isoformat string: '' @ py_repr d))"
    using assms(4-6) by (simp add: parse_expiry_def)
  then have "doc_raises (applicant (package st)) e \<noteq> None"
    using assms(2,3) by (auto simp: doc_raises_def Let_def first_raise_None)
  then obtain x where "first_some (doc_raises (applicant (package st))) (extractions st) = Some x"
    using assms(1) first_some_None_iff [of "doc_raises (applicant (package st))" "extractions st"] by fastforce
  then have "run_validation_rules (applicant (package st)) (extractions st) (today ctx)
      (match_thresholds_of (cx_settings ctx)) = Inl x" by (simp add: run_validation_rules_eq)
  then have v: "validator ctx st w = (Inl x, w)" by (simp add: validator_def Let_def act_simps)
  then have "run_tasks ctx rv st [TNode Validator] w = (Inl x, w)" by (simp add: abind_def amap_def)
  then show ?thesis using v assms(7) by (cases n) (simp_all del: run_tasks.simps)
qed

lemma malformed_expiry_raises_witness:
  "\<exists>x st. run (sample_context [] :: unit pipeline_context) [] 1 st [TNode Validator] () = (Crashed st x, ())"
proof -
  let ?e = "\<lparr>er_document_id = ''a'', er_doc_type = ID_DOCUMENT, er_fields = [(''expiry_date'', JStr ''soon'')],
    field_confidence = [], extraction_error = None\<rparr>"
  have d: "fromisoformat ''soon'' = None" by code_simp
  show ?thesis
    using malformed_expiry_raises [of ?e "(initial_state ''case'' sample_package None)\<lparr>extractions := [?e]\<rparr>" "''soon''" 1
        "sample_context [] :: unit pipeline_context" "()" "[]"] d by auto
qed

lemma crash_abandons_case_witness:
  "\<exists>ctx :: unit pipeline_context. \<exists>sv sv1. served ctx sv \<and> sv_tasks sv ''case'' = Some None \<and> service_step ctx sv sv1
     \<and> case_status sv1 ''case'' = case_status sv ''case''"
proof -
  let ?ctx = "(sample_context [])\<lparr>audit := \<lambda>e w. (Inl pg_error, w)\<rparr> :: unit pipeline_context"
  obtain sv cp where s: "served ?ctx sv" "sv_tasks sv ''case'' = Some None" "sv_cases sv ''case'' = Some cp"
    "cp_interrupts cp = []" "cp_tasks cp = start_tasks"
    using started [of ?ctx "''case''" sample_package "()"] by blast
  have r: "run_tasks ?ctx [] (cp_state cp) start_tasks (sv_world sv) = (Inl pg_error, ())"
    by (simp add: start_tasks_def intake_def log_event_def AuditSink.emit_def act_simps sample_context_def)
  have o: "mset start_tasks = mset (cp_tasks cp)" using s(5) by simp
  obtain sv1 where "service_step ?ctx sv sv1" "case_status sv1 ''case'' = case_status sv ''case''"
    using crash_abandons_case [OF s(1-4) o r, of undefined] by blast
  with s(1,2) show ?thesis by (intro exI [of _ ?ctx] exI [of _ sv] exI [of _ sv1] conjI)
qed

section \<open>Extraction\<close>

text \<open>C17: every document is extracted once. When a run in a context built from the settings has ended,
  either the router gave up, which is on record, and nothing was extracted; or its classification
  lists the documents of the package in their order and then, for a package that is complete, the
  extractions are those of the documents with a known type - one each, under its own id and type,
  whatever retries and fallbacks there were - and for an incomplete one there are none.\<close>

theorem documents_extracted_once:
  assumes "build_context dump init env s td en = Inr ctx" "st0 \<in> {None, Some RECEIVED}"
    and "invoke ctx (initial_state cid p st0) w = (out, w')"
    and "out = Finished st \<or> out = Interrupted st q"
  shows "case classified_documents st of
      None \<Rightarrow> extractions st = [] \<and> ''router failed after retries and fallback'' \<in> set (degraded_reasons st)
    | Some cs \<Rightarrow> map cd_document_id cs = map document_id (documents p)
        \<and> (let known = filter (\<lambda>c. cd_doc_type c \<noteq> UNKNOWN) cs
           in if check_package_completeness (customer_type p) (map cd_doc_type known) = None
              then mset (map (\<lambda>e. (er_document_id e, er_doc_type e)) (extractions st)) =
                   mset (map (\<lambda>c. (cd_document_id c, cd_doc_type c)) known)
              else extractions st = [])"
proof -
  note lawful = built_lawful [OF assms(1)]
  obtain tasks w'' where t: "stage ctx (final_state out) tasks" "linked (final_state out) tasks"
    "package (final_state out) = p" "ends_as ctx [] out tasks w''"
    using lawful_context.run_linked [OF lawful stage_initial [OF assms(2)] linked_initial assms(3) [unfolded invoke_def]]
      run_package [OF assms(3) [unfolded invoke_def]] by (metis initial_package)
  have f: "final_state out = st" using assms(4) by auto
  have "tasks = [] \<or> tasks = [TNode Human_review]"
  proof (cases "out = Finished st")
    case True
    then show ?thesis using t(4) by simp
  next
    case False
    then obtain rs v where "run_tasks ctx [] st tasks w'' = (Inr rs, v)" "q \<in> set (interrupts rs)"
      using assms(4) t(4) by auto
    then have "tasks = [TNode Human_review]" using interrupt_review [OF t(1) [unfolded f]] by force
    then show ?thesis by simp
  qed
  then show ?thesis
    using t(2,3) unfolding f linked_def result_pair_def [abs_def] doc_pair_def [abs_def] package_check_def
      known_docs_def router_failed_def Let_def by (auto split: option.splits)
qed

lemma documents_extracted_once_witness:
  "\<exists>out w' st cs. invoke (offline_context sample_env default_settings (Date 2026 7 13) True ::
        (unit, unit) world pipeline_context) (initial_state ''case'' (gc_package case_clean_individual_1) None) undefined = (out, w')
     \<and> final_state out = st \<and> classified_documents st = Some cs \<and> length (extractions st) = 2
     \<and> mset (map (\<lambda>e. (er_document_id e, er_doc_type e)) (extractions st)) =
         mset (map (\<lambda>c. (cd_document_id c, cd_doc_type c)) (filter (\<lambda>c. cd_doc_type c \<noteq> UNKNOWN) cs))"
proof -
  let ?ctx = "offline_context sample_env default_settings (Date 2026 7 13) True :: (unit, unit) world pipeline_context"
  let ?p = "package_of anna"
  have b: "build_context (\<lambda>e. []) no_models sample_env default_settings (Date 2026 7 13) True = Inr ?ctx"
    by (rule build_offline [OF offline_default])
  obtain d out w' where r: "invoke ?ctx (initial_state ''case'' ?p None) undefined = (out, w')" "ends_reading (read_by ?p) d out"
    using offline_decides_as [OF calm_default plain_fit, of ?p] individual_plain [OF anna_printed] by metis
  have e: "extractions (final_state out) = [card_result anna, proof_result anna]"
    using r(2) individual_documents [OF anna_printed] by (simp add: ends_reading_def read_by_def Let_def)
  obtain st q where o: "out = Finished st \<or> out = Interrupted st q"
    using r(2) by (auto simp: ends_reading_def ends_with_def split: if_splits)
  then have f: "final_state out = st" by auto
  have n: "None \<in> {None, Some RECEIVED}" by simp
  from documents_extracted_once [OF b n r(1) o] e [unfolded f] obtain cs where "classified_documents st = Some cs"
    "mset (map (\<lambda>e. (er_document_id e, er_doc_type e)) (extractions st)) =
         mset (map (\<lambda>c. (cd_document_id c, cd_doc_type c)) (filter (\<lambda>c. cd_doc_type c \<noteq> UNKNOWN) cs))"
    by (auto simp: Let_def split: option.splits if_splits)
  then show ?thesis using r(1) f e unfolding anna_case by (intro exI [of _ out]) auto
qed



end
